(* ===== verification/PSME_Prelude.thy ===== *)
theory PSME_Prelude
  imports
    Main
    "HOL-Library.Word"
    "HOL-Library.Char_ord"
    "HOL-Library.List_Lexorder"
    "HOL-Library.Product_Lexorder"
begin

text \<open>
  Shared vocabulary of the PSME development: the machine types, the effect type that
  models C++ code which mutates an object and may throw, the vector and ordered-set
  operations of the C++ standard library the components use, and the generic lemmas on
  them. Nothing in this theory models a file of the repository by itself.
\<close>

type_synonym u8 = "8 word"
type_synonym u16 = "16 word"
type_synonym u32 = "32 word"
type_synonym u64 = "64 word"
type_synonym uuid = string

named_theorems eff_simps \<open>evaluation rules of the effect combinators\<close>
named_theorems vec_simps \<open>facts about the vector operations\<close>

subsection \<open>Code that mutates an object and may throw\<close>

text \<open>
  A C++ member function that changes its object and may throw is a function from the
  object to the outcome and the object afterwards. An exception does not roll the object
  back: what was changed before the \<open>throw\<close> stays changed.
\<close>

type_synonym ('s, 'e, 'a) eff = "'s \<Rightarrow> ('e + 'a) \<times> 's"

definition eret :: "'a \<Rightarrow> ('s, 'e, 'a) eff" where
  "eret a = (\<lambda>s. (Inr a, s))"

definition ethrow :: "'e \<Rightarrow> ('s, 'e, 'a) eff" where
  "ethrow e = (\<lambda>s. (Inl e, s))"

definition ebind :: "('s, 'e, 'a) eff \<Rightarrow> ('a \<Rightarrow> ('s, 'e, 'b) eff) \<Rightarrow> ('s, 'e, 'b) eff" where
  "ebind m f = (\<lambda>s. case m s of (Inl e, s') \<Rightarrow> (Inl e, s') | (Inr a, s') \<Rightarrow> f a s')"

definition eseq :: "('s, 'e, unit) eff \<Rightarrow> ('s, 'e, 'b) eff \<Rightarrow> ('s, 'e, 'b) eff" where
  "eseq m n = ebind m (\<lambda>_. n)"

definition ecatch :: "('s, 'e, 'a) eff \<Rightarrow> ('e \<Rightarrow> ('s, 'e, 'a) eff) \<Rightarrow> ('s, 'e, 'a) eff" where
  "ecatch m h = (\<lambda>s. case m s of (Inl e, s') \<Rightarrow> h e s' | (Inr a, s') \<Rightarrow> (Inr a, s'))"

definition emodify :: "('s \<Rightarrow> 's) \<Rightarrow> ('s, 'e, unit) eff" where
  "emodify f = (\<lambda>s. (Inr (), f s))"

definition eget :: "('s \<Rightarrow> 'a) \<Rightarrow> ('s, 'e, 'a) eff" where
  "eget f = (\<lambda>s. (Inr (f s), s))"

text \<open>A range-based \<open>for\<close> whose body may throw: it stops at the first exception.\<close>

fun efor :: "('x \<Rightarrow> ('s, 'e, unit) eff) \<Rightarrow> 'x list \<Rightarrow> ('s, 'e, unit) eff" where
  "efor body [] = eret ()"
| "efor body (x # xs) = eseq (body x) (efor body xs)"

lemma eret_apply [simp, eff_simps]: "eret a s = (Inr a, s)"
  by (simp add: eret_def)

lemma ethrow_apply [simp, eff_simps]: "ethrow e s = (Inl e, s)"
  by (simp add: ethrow_def)

lemma emodify_apply [simp, eff_simps]: "emodify f s = (Inr (), f s)"
  by (simp add: emodify_def)

lemma eget_apply [simp, eff_simps]: "eget f s = (Inr (f s), s)"
  by (simp add: eget_def)

lemma ebind_apply [eff_simps]:
  "ebind m f s = (case m s of (Inl e, s') \<Rightarrow> (Inl e, s') | (Inr a, s') \<Rightarrow> f a s')"
  by (simp add: ebind_def)

lemma eseq_apply [eff_simps]:
  "eseq m n s = (case m s of (Inl e, s') \<Rightarrow> (Inl e, s') | (Inr _, s') \<Rightarrow> n s')"
  by (simp add: eseq_def ebind_def)

lemma ecatch_apply [eff_simps]:
  "ecatch m h s = (case m s of (Inl e, s') \<Rightarrow> h e s' | (Inr a, s') \<Rightarrow> (Inr a, s'))"
  by (simp add: ecatch_def)

lemma efor_append: "efor body (xs @ ys) = eseq (efor body xs) (efor body ys)"
  by (induction xs) (auto simp: fun_eq_iff eff_simps split: prod.splits sum.splits)

text \<open>A relation between states that every body keeps is kept by the loop.\<close>

lemma efor_invariant:
  assumes "\<And>x s r s'. \<lbrakk>x \<in> set xs; I s; body x s = (r, s')\<rbrakk> \<Longrightarrow> I s'"
    and "I s" and "efor body xs s = (r, s')"
  shows "I s'"
  using assms
proof (induction xs arbitrary: s)
  case Nil
  then show ?case by simp
next
  case (Cons x xs)
  obtain rx sx where bx: "body x s = (rx, sx)" by fastforce
  from Cons.prems(1)[of x s rx sx] Cons.prems(2) bx have I: "I sx" by simp
  show ?case
  proof (cases rx)
    case (Inl e)
    with bx Cons.prems(3) I show ?thesis by (simp add: eff_simps)
  next
    case (Inr u)
    with bx Cons.prems(3) have "efor body xs sx = (r, s')" by (simp add: eff_simps)
    from Cons.IH[OF _ I this] Cons.prems(1) show ?thesis by (meson list.set_intros(2))
  qed
qed

subsection \<open>Vectors: \<open>std::vector\<close> with positions\<close>

definition erase_at :: "nat \<Rightarrow> 'a list \<Rightarrow> 'a list" where
  "erase_at i xs = take i xs @ drop (Suc i) xs"

definition insert_at :: "nat \<Rightarrow> 'a \<Rightarrow> 'a list \<Rightarrow> 'a list" where
  "insert_at i x xs = take i xs @ x # drop i xs"

lemma length_erase_at [vec_simps]: "i < length xs \<Longrightarrow> length (erase_at i xs) = length xs - 1"
  by (simp add: erase_at_def)

lemma length_insert_at [vec_simps]: "i \<le> length xs \<Longrightarrow> length (insert_at i x xs) = Suc (length xs)"
  by (simp add: insert_at_def)

lemma nth_insert_at [vec_simps]: "i \<le> length xs \<Longrightarrow> insert_at i x xs ! i = x"
  by (simp add: insert_at_def nth_append min_def)

lemma erase_insert_at [vec_simps]: "i \<le> length xs \<Longrightarrow> erase_at i (insert_at i x xs) = xs"
  by (simp add: insert_at_def erase_at_def min_def)

lemma insert_erase_at [vec_simps]: "i < length xs \<Longrightarrow> insert_at i (xs ! i) (erase_at i xs) = xs"
  by (simp add: insert_at_def erase_at_def min_def id_take_nth_drop[symmetric])

text \<open>The first element that satisfies a predicate, replaced (\<open>std::find_if\<close> and a write through the iterator).\<close>

fun update_first :: "('a \<Rightarrow> bool) \<Rightarrow> ('a \<Rightarrow> 'a) \<Rightarrow> 'a list \<Rightarrow> 'a list" where
  "update_first P f [] = []"
| "update_first P f (x # xs) = (if P x then f x # xs else x # update_first P f xs)"

text \<open>The first element that satisfies a predicate, erased.\<close>

fun remove_first :: "('a \<Rightarrow> bool) \<Rightarrow> 'a list \<Rightarrow> 'a list" where
  "remove_first P [] = []"
| "remove_first P (x # xs) = (if P x then xs else x # remove_first P xs)"

lemma update_first_none [simp]: "find P xs = None \<Longrightarrow> update_first P f xs = xs"
  by (induction xs) (auto split: if_splits)

lemma remove_first_none [simp]: "find P xs = None \<Longrightarrow> remove_first P xs = xs"
  by (induction xs) (auto split: if_splits)

lemma length_update_first [simp, vec_simps]: "length (update_first P f xs) = length xs"
  by (induction xs) auto

lemma update_first_split:
  "find P xs = Some x \<Longrightarrow>
   \<exists>as bs. xs = as @ x # bs \<and> P x \<and> (\<forall>a \<in> set as. \<not> P a)
     \<and> update_first P f xs = as @ f x # bs \<and> remove_first P xs = as @ bs"
proof (induction xs)
  case Nil
  then show ?case by simp
next
  case (Cons y ys)
  show ?case
  proof (cases "P y")
    case True
    with Cons.prems show ?thesis by (intro exI[of _ "[]"] exI[of _ ys]) auto
  next
    case False
    with Cons.prems obtain as bs where "ys = as @ x # bs" "P x" "\<forall>a \<in> set as. \<not> P a"
      "update_first P f ys = as @ f x # bs" "remove_first P ys = as @ bs"
      using Cons.IH by auto
    with False show ?thesis by (intro exI[of _ "y # as"] exI[of _ bs]) auto
  qed
qed

lemma map_update_first:
  "(\<And>x. x \<in> set xs \<Longrightarrow> P x \<Longrightarrow> g (f x) = g x) \<Longrightarrow> map g (update_first P f xs) = map g xs"
  by (induction xs) auto

lemma set_update_first:
  "\<lbrakk>find P xs = Some x; distinct xs\<rbrakk> \<Longrightarrow> set (update_first P f xs) = insert (f x) (set xs - {x})"
  using update_first_split[of P xs x f] by auto

lemma set_remove_first:
  "\<lbrakk>find P xs = Some x; distinct xs\<rbrakk> \<Longrightarrow> set (remove_first P xs) = set xs - {x}"
  using update_first_split[of P xs x id] by auto

lemma set_remove_first_subset: "set (remove_first P xs) \<subseteq> set xs"
  by (induction xs) auto

lemma find_in_set: "find P xs = Some x \<Longrightarrow> x \<in> set xs \<and> P x"
  by (induction xs) (auto split: if_splits)

subsection \<open>Ordered sets: \<open>std::set\<close> as a strictly sorted list\<close>

text \<open>
  A \<open>std::set\<close> is the strictly sorted list its iterators run through; \<open>insert\<close> is
  \<open>insort_insert\<close> of the library.
\<close>

definition oset :: "('a::linorder) list \<Rightarrow> bool" where
  "oset xs \<longleftrightarrow> sorted xs \<and> distinct xs"

lemma oset_Nil [simp]: "oset []"
  by (simp add: oset_def)

lemma oset_insert: "oset xs \<Longrightarrow> oset (insort_insert x xs)"
  by (simp add: oset_def sorted_insort_insert distinct_insort_insert)

lemma oset_insort: "oset xs \<Longrightarrow> x \<notin> set xs \<Longrightarrow> oset (insort x xs)"
  by (simp add: oset_def sorted_insort distinct_insort)

lemma oset_filter: "oset xs \<Longrightarrow> oset (filter P xs)"
  by (simp add: oset_def sorted_wrt_filter)

lemma oset_unique: "\<lbrakk>oset xs; oset ys; set xs = set ys\<rbrakk> \<Longrightarrow> xs = ys"
  by (simp add: oset_def sorted_distinct_set_unique)

lemma oset_Cons: "oset (x # xs) \<longleftrightarrow> oset xs \<and> (\<forall>y \<in> set xs. x < y)"
  by (auto simp: oset_def order.strict_iff_order)

lemma oset_append:
  "oset (xs @ ys) \<longleftrightarrow> oset xs \<and> oset ys \<and> (\<forall>x \<in> set xs. \<forall>y \<in> set ys. x < y)"
  by (induction xs) (auto simp: oset_Cons)

lemma oset_fold_insert: "oset acc \<Longrightarrow> oset (fold insort_insert xs acc)"
  by (induction xs arbitrary: acc) (auto intro: oset_insert)

lemma set_fold_insert: "set (fold insort_insert xs acc) = set xs \<union> set acc"
  by (induction xs arbitrary: acc) (auto simp: set_insort_insert)

text \<open>
  An iterator that walks a \<open>std::set\<close> while elements are erased and inserted: the elements
  in front of the iterator and those from the iterator on. After an element was erased at
  the iterator, an insertion lands in front of the iterator when the set already holds
  nothing further on that is smaller, that is when the new element is smaller than the one
  the iterator is at, when the iterator is at the end, or when the element is the erased
  one (smaller than its successor in every ordered set); otherwise the walk meets it.
\<close>

definition insert_at_cursor :: "'a::linorder \<Rightarrow> 'a \<Rightarrow> 'a list \<Rightarrow> 'a list \<Rightarrow> 'a list \<times> 'a list" where
  "insert_at_cursor erased x before rest =
     (if x \<in> set before \<or> x \<in> set rest then (before, rest)
      else if rest = [] \<or> x < hd rest \<or> x = erased then (insort x before, rest)
      else (before, insort x rest))"

lemma length_filter_insort:
  "length (filter P (insort x xs)) = (if P x then Suc (length (filter P xs)) else length (filter P xs))"
  by (induction xs) auto

lemma insert_at_cursor_oset:
  assumes "oset (before @ e # rest)"
  shows "oset (fst (insert_at_cursor e x before rest) @ snd (insert_at_cursor e x before rest))"
proof -
  from assms have o: "oset (before @ rest)" and e: "\<forall>y \<in> set rest. e < y"
    by (auto simp: oset_append oset_Cons)
  have front: "x < y" if "rest = [] \<or> x < hd rest \<or> x = e" "y \<in> set rest" for y
    using that o e by (cases rest) (auto simp: oset_append oset_Cons)
  have behind: "y < x" if "\<not> (rest = [] \<or> x < hd rest \<or> x = e)" "x \<notin> set rest" "y \<in> set before" for y
    using that o by (cases rest) (force simp: oset_append oset_Cons)+
  show ?thesis
    using o front behind unfolding insert_at_cursor_def
    by (auto simp: oset_append set_insort_key intro: oset_insort)
qed

lemma insert_at_cursor_image:
  "f x = x \<Longrightarrow> set (fst (insert_at_cursor e x before rest)) \<union> f ` set (snd (insert_at_cursor e x before rest))
     = insert x (set before \<union> f ` set rest)"
  by (force simp: insert_at_cursor_def set_insort_key)

end
