(* ===== verification/Many_To_Many.thy ===== *)
theory Many_To_Many
  imports PSME_Prelude
begin

text \<open>
  \<open>ManyToManyManager\<close> of the agent framework (\<open>many_to_many_manager.hpp\<close>): the table of
  links between two kinds of resources, each link with the agent that reported it, and the
  way the REST server brings such a table up to date with an agent's collection
  (\<open>what_to_add_what_to_remove\<close> and \<open>fetch_parent_children\<close> of \<open>generic_handler.hpp\<close>).
  The table is a \<open>std::set\<close> of triples; the mutex is not modelled, every operation runs
  under it from its first statement to its last.
\<close>

subsection \<open>The table and its operations\<close>

type_synonym id_pair = "uuid \<times> uuid \<times> string"
type_synonym m2m = "id_pair list"

datatype tuple_field = Parent | Child | Agent

fun tuple_get :: "tuple_field \<Rightarrow> id_pair \<Rightarrow> string" where
  "tuple_get Parent (p, c, g) = p"
| "tuple_get Child (p, c, g) = c"
| "tuple_get Agent (p, c, g) = g"

fun tuple_set :: "tuple_field \<Rightarrow> string \<Rightarrow> id_pair \<Rightarrow> id_pair" where
  "tuple_set Parent v (p, c, g) = (v, c, g)"
| "tuple_set Child v (p, c, g) = (p, v, g)"
| "tuple_set Agent v (p, c, g) = (p, c, v)"

definition m2m_add_entry :: "uuid \<Rightarrow> uuid \<Rightarrow> string \<Rightarrow> m2m \<Rightarrow> m2m" where
  "m2m_add_entry parent child gami_id t = insort_insert (parent, child, gami_id) t"

definition m2m_remove_entry :: "uuid \<Rightarrow> uuid \<Rightarrow> m2m \<Rightarrow> m2m" where
  "m2m_remove_entry parent child t =
     remove_first (\<lambda>e. parent = tuple_get Parent e \<and> child = tuple_get Child e) t"

fun do_remove_if :: "(uuid \<Rightarrow> uuid \<Rightarrow> string \<Rightarrow> bool) \<Rightarrow> m2m \<Rightarrow> m2m" where
  "do_remove_if predicate [] = []"
| "do_remove_if predicate (e # t) =
     (if predicate (tuple_get Parent e) (tuple_get Child e) (tuple_get Agent e)
      then do_remove_if predicate t
      else e # do_remove_if predicate t)"

definition m2m_remove_parent :: "uuid \<Rightarrow> m2m \<Rightarrow> m2m" where
  "m2m_remove_parent removed_parent = do_remove_if (\<lambda>parent _ _. removed_parent = parent)"

definition m2m_remove_child :: "uuid \<Rightarrow> m2m \<Rightarrow> m2m" where
  "m2m_remove_child removed_child = do_remove_if (\<lambda>_ child _. removed_child = child)"

definition m2m_clean_resources_for_agent :: "string \<Rightarrow> m2m \<Rightarrow> m2m" where
  "m2m_clean_resources_for_agent gami_id = do_remove_if (\<lambda>_ _ removed_gami_id. removed_gami_id = gami_id)"

definition m2m_clean_resources_with_no_agent :: "m2m \<Rightarrow> m2m" where
  "m2m_clean_resources_with_no_agent = do_remove_if (\<lambda>_ _ removed_gami_id. removed_gami_id = [])"

definition m2m_entry_exists :: "m2m \<Rightarrow> uuid \<Rightarrow> uuid \<Rightarrow> bool" where
  "m2m_entry_exists t parent child =
     list_ex (\<lambda>e. parent = tuple_get Parent e \<and> child = tuple_get Child e) t"

fun m2m_parent_exists :: "m2m \<Rightarrow> uuid \<Rightarrow> bool" where
  "m2m_parent_exists [] parent = False"
| "m2m_parent_exists (e # t) parent =
     (if parent = tuple_get Parent e then True else m2m_parent_exists t parent)"

fun m2m_child_exists :: "m2m \<Rightarrow> uuid \<Rightarrow> bool" where
  "m2m_child_exists [] child = False"
| "m2m_child_exists (e # t) child =
     (if child = tuple_get Child e then True else m2m_child_exists t child)"

definition m2m_clear_entries :: "m2m \<Rightarrow> m2m" where
  "m2m_clear_entries t = []"

fun m2m_get_children :: "m2m \<Rightarrow> uuid \<Rightarrow> uuid list" where
  "m2m_get_children [] parent = []"
| "m2m_get_children (e # t) parent =
     (if parent = tuple_get Parent e
      then tuple_get Child e # m2m_get_children t parent
      else m2m_get_children t parent)"

fun m2m_get_parents :: "m2m \<Rightarrow> uuid \<Rightarrow> uuid list" where
  "m2m_get_parents [] child = []"
| "m2m_get_parents (e # t) child =
     (if child = tuple_get Child e
      then tuple_get Parent e # m2m_get_parents t child
      else m2m_get_parents t child)"

definition m2m_get_all_unique_parents :: "m2m \<Rightarrow> uuid list" where
  "m2m_get_all_unique_parents t = fold (\<lambda>e parents. insort_insert (tuple_get Parent e) parents) t []"

text \<open>
  \<open>update_entry\<close> walks the set with an iterator while it erases and re-inserts. The walk is
  a pair: the elements in front of the iterator and those from the iterator on. \<open>erase\<close>
  moves the iterator to the next element; an inserted element lands in front of the
  iterator when it is smaller than the element the iterator is at, when the iterator is at
  the end, or when it is the erased element itself (which is smaller than its successor in
  every ordered set); otherwise the walk will meet it.
\<close>

lemma tuple_get_set [simp]: "tuple_get p (tuple_set p v e) = v"
  by (cases e; cases p) auto

lemma tuple_set_get [simp]: "tuple_set p (tuple_get p e) e = e"
  by (cases e; cases p) auto

lemma tuple_set_set [simp]: "tuple_set p v (tuple_set p v e) = tuple_set p v e"
  by (cases e; cases p) auto

lemma insert_at_cursor_measure:
  assumes "tuple_get p e = old"
  shows "length (filter (\<lambda>x. tuple_get p x = old) (snd (insert_at_cursor e (tuple_set p new e) before rest)))
       = length (filter (\<lambda>x. tuple_get p x = old) rest)"
proof (cases "old = new")
  case True
  with assms have "tuple_set p new e = e" by auto
  then show ?thesis by (simp add: insert_at_cursor_def)
next
  case False
  then show ?thesis by (simp add: insert_at_cursor_def length_filter_insort)
qed

function update_walk :: "tuple_field \<Rightarrow> string \<Rightarrow> string \<Rightarrow> m2m \<Rightarrow> m2m \<Rightarrow> m2m" where
  "update_walk p old_id new_id before [] = before"
| "update_walk p old_id new_id before (e # rest) =
     (if old_id = tuple_get p e
      then update_walk p old_id new_id
             (fst (insert_at_cursor e (tuple_set p new_id e) before rest))
             (snd (insert_at_cursor e (tuple_set p new_id e) before rest))
      else update_walk p old_id new_id (before @ [e]) rest)"
  by pat_completeness auto
termination
  by (relation "measures [\<lambda>a. length (filter (\<lambda>x. tuple_get (fst a) x = fst (snd a)) (snd (snd (snd (snd a))))),
                          \<lambda>a. length (snd (snd (snd (snd a))))]")
     (simp_all add: insert_at_cursor_measure)

definition m2m_update_entry :: "tuple_field \<Rightarrow> string \<Rightarrow> string \<Rightarrow> m2m \<Rightarrow> m2m" where
  "m2m_update_entry p old_id new_id t = update_walk p old_id new_id [] t"

definition m2m_update_parent :: "uuid \<Rightarrow> uuid \<Rightarrow> m2m \<Rightarrow> m2m" where
  "m2m_update_parent parent_uuid parent_new_uuid = m2m_update_entry Parent parent_uuid parent_new_uuid"

definition m2m_update_child :: "uuid \<Rightarrow> uuid \<Rightarrow> m2m \<Rightarrow> m2m" where
  "m2m_update_child child_uuid child_new_uuid = m2m_update_entry Child child_uuid child_new_uuid"

definition m2m_update_agent :: "string \<Rightarrow> string \<Rightarrow> m2m \<Rightarrow> m2m" where
  "m2m_update_agent agent_uuid agent_new_uuid = m2m_update_entry Agent agent_uuid agent_new_uuid"

subsection \<open>Bringing a table up to date with an agent\<close>

text \<open>
  \<open>std::set_difference\<close> on two sorted ranges, and the exceptions a request to an agent can
  end with. The agent's answer (a JSON-RPC call over a socket) is a parameter.
\<close>

fun set_difference :: "('a::linorder) list \<Rightarrow> 'a list \<Rightarrow> 'a list" where
  "set_difference [] ys = []"
| "set_difference (x # xs) [] = x # xs"
| "set_difference (x # xs) (y # ys) =
     (if x < y then x # set_difference xs (y # ys)
      else if y < x then set_difference (x # xs) ys
      else set_difference xs ys)"

datatype agent_exception = AgentUnreachable | JsonRpcException | OtherException

definition what_to_add_what_to_remove :: "uuid list \<Rightarrow> uuid \<Rightarrow> m2m \<Rightarrow> uuid list \<times> uuid list" where
  "what_to_add_what_to_remove fetched parent_uuid many2many =
     (let previous = m2m_get_children many2many parent_uuid;
          new_set = fold insort_insert fetched [];
          old_set = fold insort_insert previous []
      in (set_difference new_set old_set, set_difference old_set new_set))"

definition fetch_sibling_uuid_list :: "agent_exception + uuid list \<Rightarrow> agent_exception + uuid list" where
  "fetch_sibling_uuid_list response =
     (case response of
        Inr res \<Rightarrow> Inr res
      | Inl AgentUnreachable \<Rightarrow> Inl AgentUnreachable
      | Inl JsonRpcException \<Rightarrow> Inr []
      | Inl OtherException \<Rightarrow> Inl OtherException)"

definition fetch_parent_children ::
    "agent_exception + uuid list \<Rightarrow> string \<Rightarrow> uuid \<Rightarrow> (m2m, agent_exception, unit) eff" where
  "fetch_parent_children response gami_id parent_uuid many2many =
     (case fetch_sibling_uuid_list response of
        Inl e \<Rightarrow> (Inl e, many2many)
      | Inr fetched \<Rightarrow>
          (case what_to_add_what_to_remove fetched parent_uuid many2many of
             (to_add, to_remove) \<Rightarrow>
               (Inr (), fold (m2m_remove_entry parent_uuid) to_remove
                          (fold (\<lambda>u. m2m_add_entry parent_uuid u gami_id) to_add many2many))))"

subsection \<open>The table as a set of links\<close>

abbreviation m2m_inv :: "m2m \<Rightarrow> bool" where
  "m2m_inv \<equiv> oset"

lemma do_remove_if_filter:
  "do_remove_if P t = filter (\<lambda>(p, c, g). \<not> P p c g) t"
  by (induction t) auto

lemma set_m2m_get_children: "set (m2m_get_children t p) = {c. \<exists>g. (p, c, g) \<in> set t}"
  by (induction t) auto

lemma set_m2m_get_parents: "set (m2m_get_parents t c) = {p. \<exists>g. (p, c, g) \<in> set t}"
  by (induction t) auto

lemma m2m_entry_exists_iff: "m2m_entry_exists t p c \<longleftrightarrow> (\<exists>g. (p, c, g) \<in> set t)"
  by (auto simp: m2m_entry_exists_def list_ex_iff) force

lemma m2m_parent_exists_iff: "m2m_parent_exists t p \<longleftrightarrow> (\<exists>c g. (p, c, g) \<in> set t)"
  by (induction t) auto

lemma m2m_child_exists_iff: "m2m_child_exists t c \<longleftrightarrow> (\<exists>p g. (p, c, g) \<in> set t)"
  by (induction t) auto

lemma m2m_get_all_unique_parents_fold:
  "m2m_get_all_unique_parents t = fold insort_insert (map (tuple_get Parent) t) []"
  by (simp add: m2m_get_all_unique_parents_def fold_map comp_def)

text \<open>What an update is meant to do to one link.\<close>

definition rename_field :: "tuple_field \<Rightarrow> string \<Rightarrow> string \<Rightarrow> id_pair \<Rightarrow> id_pair" where
  "rename_field p old new e = (if tuple_get p e = old then tuple_set p new e else e)"

lemma rename_field_set: "rename_field p old new (tuple_set p new e) = tuple_set p new e"
  by (simp add: rename_field_def)

lemma update_walk_spec:
  "oset (before @ rest) \<Longrightarrow>
   oset (update_walk p old new before rest)
   \<and> set (update_walk p old new before rest) = set before \<union> rename_field p old new ` set rest"
proof (induction p old new before rest rule: update_walk.induct)
  case (1 p old new before)
  then show ?case by simp
next
  case (2 p old new before e rest)
  show ?case
  proof (cases "old = tuple_get p e")
    case True
    let ?c = "insert_at_cursor e (tuple_set p new e) before rest"
    have "oset (fst ?c @ snd ?c)"
      using "2.prems" by (rule insert_at_cursor_oset)
    note IH = "2.IH"(1)[OF True this]
    have step: "update_walk p old new before (e # rest) = update_walk p old new (fst ?c) (snd ?c)"
      using True by simp
    have "rename_field p old new e = tuple_set p new e"
      using True by (simp add: rename_field_def)
    with IH insert_at_cursor_image[where f = "rename_field p old new" and
        x = "tuple_set p new e" and e = e and before = before and rest = rest, OF rename_field_set]
    show ?thesis unfolding step by simp
  next
    case False
    from False "2.prems" "2.IH"(2) show ?thesis by (simp add: rename_field_def)
  qed
qed

lemma m2m_update_entry_spec:
  assumes "m2m_inv t"
  shows "m2m_inv (m2m_update_entry p old new t)"
    and "set (m2m_update_entry p old new t) = rename_field p old new ` set t"
  using update_walk_spec[of "[]" t p old new] assms by (simp_all add: m2m_update_entry_def)

lemma m2m_add_entry_spec:
  "m2m_inv t \<Longrightarrow> m2m_inv (m2m_add_entry p c g t)"
  "set (m2m_add_entry p c g t) = insert (p, c, g) (set t)"
  by (simp_all add: m2m_add_entry_def oset_insert set_insort_insert)

lemma do_remove_if_spec:
  "m2m_inv t \<Longrightarrow> m2m_inv (do_remove_if P t)"
  "set (do_remove_if P t) = {(p, c, g) \<in> set t. \<not> P p c g}"
  by (auto simp: do_remove_if_filter oset_filter)

text \<open>\<open>remove_entry\<close> removes the link with the smallest agent id and no other.\<close>

lemma m2m_remove_entry_spec:
  assumes "m2m_inv t"
  shows "m2m_inv (m2m_remove_entry p c t) \<and>
     (if \<exists>g. (p, c, g) \<in> set t
      then \<exists>g. (p, c, g) \<in> set t \<and> (\<forall>g'. (p, c, g') \<in> set t \<longrightarrow> g \<le> g')
             \<and> set (m2m_remove_entry p c t) = set t - {(p, c, g)}
      else m2m_remove_entry p c t = t)"
proof (cases "find (\<lambda>e. p = tuple_get Parent e \<and> c = tuple_get Child e) t")
  case None
  then show ?thesis
    using assms by (force simp: m2m_remove_entry_def find_None_iff)
next
  case (Some e)
  let ?P = "\<lambda>e. p = tuple_get Parent e \<and> c = tuple_get Child e"
  from update_first_split[OF Some, of id] obtain as bs where
    t: "t = as @ e # bs" and e: "?P e" and as: "\<forall>a \<in> set as. \<not> ?P a"
    and rm: "remove_first ?P t = as @ bs" by blast
  obtain g where g: "e = (p, c, g)" using e by (cases e) auto
  have inv: "m2m_inv (as @ bs)" and nin: "(p, c, g) \<notin> set as" "\<forall>x \<in> set bs. (p, c, g) < x"
    using assms t g by (auto simp: oset_append oset_Cons)
  have min: "g \<le> g'" if "(p, c, g') \<in> set t" for g'
    using that t g as nin(2) by auto
  have "set (as @ bs) = set t - {(p, c, g)}" using t g nin by auto
  moreover have "(p, c, g) \<in> set t" using t g by simp
  ultimately show ?thesis using inv min rm unfolding m2m_remove_entry_def by auto
qed

lemma set_difference_filter:
  "\<lbrakk>oset xs; oset ys\<rbrakk> \<Longrightarrow> set_difference xs ys = filter (\<lambda>x. x \<notin> set ys) xs"
proof (induction xs ys rule: set_difference.induct)
  case (3 x xs y ys)
  then show ?case by (auto simp: oset_Cons intro!: filter_cong)
qed auto

subsection \<open>Link tables as an interface\<close>

text \<open>
  What a client that keeps one parent's links in step with a fetched list needs of a link
  table: the children it reports, and what adding an absent link and removing a link do.
\<close>

locale link_table =
  fixes links :: "'t \<Rightarrow> (uuid \<times> uuid) set"
    and add :: "uuid \<Rightarrow> uuid \<Rightarrow> 't \<Rightarrow> 't"
    and rem :: "uuid \<Rightarrow> uuid \<Rightarrow> 't \<Rightarrow> 't"
    and inv :: "'t \<Rightarrow> bool"
  assumes links_add: "\<lbrakk>inv t; (p, c) \<notin> links t\<rbrakk> \<Longrightarrow> links (add p c t) = insert (p, c) (links t)"
    and inv_add: "\<lbrakk>inv t; (p, c) \<notin> links t\<rbrakk> \<Longrightarrow> inv (add p c t)"
    and links_rem: "inv t \<Longrightarrow> links (rem p c t) = links t - {(p, c)}"
    and inv_rem: "inv t \<Longrightarrow> inv (rem p c t)"
begin

lemma add_all:
  "\<lbrakk>inv t; distinct cs; \<forall>c \<in> set cs. (p, c) \<notin> links t\<rbrakk> \<Longrightarrow>
   inv (fold (add p) cs t) \<and> links (fold (add p) cs t) = links t \<union> (\<lambda>c. (p, c)) ` set cs"
proof (induction cs arbitrary: t)
  case (Cons c cs)
  then have "inv (add p c t)" and "links (add p c t) = insert (p, c) (links t)"
    by (simp_all add: inv_add links_add)
  with Cons.IH[of "add p c t"] Cons.prems show ?case by auto
qed simp

lemma rem_all:
  "inv t \<Longrightarrow>
   inv (fold (rem p) cs t) \<and> links (fold (rem p) cs t) = links t - (\<lambda>c. (p, c)) ` set cs"
proof (induction cs arbitrary: t)
  case (Cons c cs)
  then have "inv (rem p c t)" and "links (rem p c t) = links t - {(p, c)}"
    by (simp_all add: inv_rem links_rem)
  with Cons.IH[of "rem p c t"] show ?case by auto
qed simp

lemma sync_links:
  assumes "inv t" and "distinct to_add"
    and "set to_add = {c \<in> wanted. (p, c) \<notin> links t}"
    and "set to_remove = {c. (p, c) \<in> links t \<and> c \<notin> wanted}"
  shows "inv (fold (rem p) to_remove (fold (add p) to_add t))"
    and "links (fold (rem p) to_remove (fold (add p) to_add t))
         = {(q, c) \<in> links t. q \<noteq> p} \<union> {p} \<times> wanted"
proof -
  let ?t = "fold (add p) to_add t"
  have "inv ?t" and l: "links ?t = links t \<union> (\<lambda>c. (p, c)) ` set to_add"
    using add_all[OF assms(1,2), of p] assms(3) by auto
  then show "inv (fold (rem p) to_remove ?t)"
    using rem_all[of ?t p to_remove] by blast
  have "links (fold (rem p) to_remove ?t) = links ?t - (\<lambda>c. (p, c)) ` set to_remove"
    using rem_all[of ?t p to_remove] \<open>inv ?t\<close> by blast
  with l assms(3,4) show "links (fold (rem p) to_remove ?t) = {(q, c) \<in> links t. q \<noteq> p} \<union> {p} \<times> wanted"
    by auto
qed

end

text \<open>
  The table is a link table only as long as no link is reported by two agents, because
  \<open>remove_entry\<close> does not look at the agent.
\<close>

definition m2m_links :: "m2m \<Rightarrow> (uuid \<times> uuid) set" where
  "m2m_links t = {(p, c). \<exists>g. (p, c, g) \<in> set t}"

definition single_agent :: "m2m \<Rightarrow> bool" where
  "single_agent t \<longleftrightarrow> distinct (map (\<lambda>e. (tuple_get Parent e, tuple_get Child e)) t)"

lemma single_agentD: "\<lbrakk>single_agent t; (p, c, g) \<in> set t; (p, c, g') \<in> set t\<rbrakk> \<Longrightarrow> g = g'"
  by (auto simp: single_agent_def distinct_map inj_on_def) force

lemma single_agentI:
  "\<lbrakk>distinct t; \<And>p c g g'. \<lbrakk>(p, c, g) \<in> set t; (p, c, g') \<in> set t\<rbrakk> \<Longrightarrow> g = g'\<rbrakk> \<Longrightarrow> single_agent t"
  by (auto simp: single_agent_def distinct_map inj_on_def)

lemma m2m_inv_distinct: "m2m_inv t \<Longrightarrow> distinct t"
  by (simp add: oset_def)

lemma m2m_remove_entry_links:
  assumes "m2m_inv t" and "single_agent t"
  shows "set (m2m_remove_entry p c t) = {(p', c', g) \<in> set t. (p', c') \<noteq> (p, c)}"
proof (cases "\<exists>g. (p, c, g) \<in> set t")
  case True
  with m2m_remove_entry_spec[OF assms(1), of p c] obtain g where
    "(p, c, g) \<in> set t" "set (m2m_remove_entry p c t) = set t - {(p, c, g)}" by auto
  with assms(2) show ?thesis by (auto dest: single_agentD)
next
  case False
  with m2m_remove_entry_spec[OF assms(1), of p c] show ?thesis by auto
qed

interpretation m2m_table: link_table m2m_links "\<lambda>p c. m2m_add_entry p c g" m2m_remove_entry
  "\<lambda>t. m2m_inv t \<and> single_agent t" for g
proof (unfold_locales, goal_cases)
  case (1 t p c)
  then show ?case by (auto simp: m2m_links_def m2m_add_entry_spec)
next
  case (2 t p c)
  then have inv: "m2m_inv (m2m_add_entry p c g t)" by (simp add: m2m_add_entry_spec)
  have "single_agent (m2m_add_entry p c g t)"
    using 2 by (intro single_agentI m2m_inv_distinct[OF inv])
      (auto simp: m2m_add_entry_spec m2m_links_def dest: single_agentD)
  with inv show ?case by simp
next
  case (3 t p c)
  then show ?case by (auto simp: m2m_links_def m2m_remove_entry_links)
next
  case (4 t p c)
  then have inv: "m2m_inv (m2m_remove_entry p c t)" using m2m_remove_entry_spec by blast
  have "single_agent (m2m_remove_entry p c t)"
    using 4 by (intro single_agentI m2m_inv_distinct[OF inv])
      (auto simp: m2m_remove_entry_links dest: single_agentD)
  with inv show ?case by simp
qed

lemma set_what_to_add_what_to_remove:
  assumes "what_to_add_what_to_remove fetched p t = (to_add, to_remove)"
  shows "distinct to_add"
    and "set to_add = {c \<in> set fetched. (p, c) \<notin> m2m_links t}"
    and "set to_remove = {c. (p, c) \<in> m2m_links t \<and> c \<notin> set fetched}"
proof -
  let ?new = "fold insort_insert fetched []"
  let ?old = "fold insort_insert (m2m_get_children t p) []"
  have o: "oset ?new" "oset ?old" by (simp_all add: oset_fold_insert)
  have "to_add = filter (\<lambda>x. x \<notin> set ?old) ?new" "to_remove = filter (\<lambda>x. x \<notin> set ?new) ?old"
    using assms o by (simp_all add: what_to_add_what_to_remove_def set_difference_filter Let_def)
  with o show "distinct to_add"
    and "set to_add = {c \<in> set fetched. (p, c) \<notin> m2m_links t}"
    and "set to_remove = {c. (p, c) \<in> m2m_links t \<and> c \<notin> set fetched}"
    by (auto simp: set_fold_insert set_m2m_get_children m2m_links_def oset_def)
qed

subsection \<open>Properties\<close>

text \<open>
  C28: renaming a parent, child or agent in a link table, done in one walk over a
  \<open>std::set\<close> that is changed during the walk, ends, keeps the table an ordered set without
  duplicates, and renames every matching link and touches no other; links that become
  equal are merged.
\<close>
theorem m2m_update_renames:
  assumes "m2m_inv t"
  shows "m2m_inv (m2m_update_entry p old new t)
       \<and> set (m2m_update_entry p old new t) = rename_field p old new ` set t
       \<and> (old \<noteq> new \<longrightarrow> (\<forall>e \<in> set (m2m_update_entry p old new t). tuple_get p e \<noteq> old))"
  using m2m_update_entry_spec[OF assms, of p old new] by (auto simp: rename_field_def)

theorem m2m_update_renames_witness:
  "m2m_inv [(''a'', ''x'', ''g''), (''b'', ''x'', ''g''), (''c'', ''y'', ''g'')]
   \<and> m2m_update_parent ''a'' ''b'' [(''a'', ''x'', ''g''), (''b'', ''x'', ''g''), (''c'', ''y'', ''g'')]
       = [(''b'', ''x'', ''g''), (''c'', ''y'', ''g'')]
   \<and> set (m2m_update_entry Parent ''a'' ''b'' [(''a'', ''x'', ''g''), (''b'', ''x'', ''g''), (''c'', ''y'', ''g'')])
       = rename_field Parent ''a'' ''b'' ` {(''a'', ''x'', ''g''), (''b'', ''x'', ''g''), (''c'', ''y'', ''g'')}"
proof -
  let ?t = "[(''a'', ''x'', ''g''), (''b'', ''x'', ''g''), (''c'', ''y'', ''g'')]"
  have inv: "m2m_inv ?t" by code_simp
  have run: "m2m_update_parent ''a'' ''b'' ?t = [(''b'', ''x'', ''g''), (''c'', ''y'', ''g'')]" by code_simp
  show ?thesis using inv run m2m_update_renames[OF inv, of Parent "''a''" "''b''"] by simp
qed

text \<open>
  \<open>remove_entry\<close> takes away one link of the pair, so the pair is still in the table
  afterwards exactly when two different agents had reported it.
\<close>
theorem m2m_remove_entry_leaves:
  assumes "m2m_inv t"
  shows "m2m_entry_exists (m2m_remove_entry p c t) p c
       \<longleftrightarrow> (\<exists>g g'. g \<noteq> g' \<and> (p, c, g) \<in> set t \<and> (p, c, g') \<in> set t)"
proof (cases "\<exists>g. (p, c, g) \<in> set t")
  case True
  with m2m_remove_entry_spec[OF assms, of p c] obtain g where
    "(p, c, g) \<in> set t" "set (m2m_remove_entry p c t) = set t - {(p, c, g)}" by auto
  then show ?thesis unfolding m2m_entry_exists_iff by (metis Diff_iff prod.inject singletonD singletonI)
next
  case False
  with m2m_remove_entry_spec[OF assms, of p c] show ?thesis by (simp add: m2m_entry_exists_iff)
qed

theorem m2m_remove_entry_leaves_witness:
  "m2m_inv [(''p'', ''c'', ''g1''), (''p'', ''c'', ''g2'')]
   \<and> m2m_entry_exists (m2m_remove_entry ''p'' ''c'' [(''p'', ''c'', ''g1''), (''p'', ''c'', ''g2'')]) ''p'' ''c''"
proof -
  let ?t = "[(''p'', ''c'', ''g1''), (''p'', ''c'', ''g2'')]"
  have inv: "m2m_inv ?t" by code_simp
  have "\<exists>g g'. g \<noteq> g' \<and> (''p'', ''c'', g) \<in> set ?t \<and> (''p'', ''c'', g') \<in> set ?t"
    by (intro exI[of _ "''g1''"] exI[of _ "''g2''"]) simp
  then show ?thesis using inv m2m_remove_entry_leaves[OF inv, of "''p''" "''c''"] by blast
qed

text \<open>
  C8: fetching a collection from an agent brings the link table in step with it: when the
  agent answers, the children of the parent are afterwards exactly the fetched ones and the
  links of every other parent are as before; a JSON-RPC error counts as an empty
  collection; an unreachable agent leaves the table alone. This is for tables in which no
  link is reported by two agents, and such a table stays one.
\<close>
theorem fetch_parent_children_syncs:
  assumes "m2m_inv t" and "single_agent t"
    and "fetch_parent_children response gami_id p t = (r, t')"
  shows "m2m_inv t' \<and> single_agent t'
       \<and> (\<forall>fetched. response = Inr fetched \<longrightarrow>
             r = Inr () \<and> set (m2m_get_children t' p) = set fetched
             \<and> (\<forall>q. q \<noteq> p \<longrightarrow> set (m2m_get_children t' q) = set (m2m_get_children t q)))
       \<and> (response = Inl JsonRpcException \<longrightarrow> r = Inr () \<and> m2m_get_children t' p = [])
       \<and> (response = Inl AgentUnreachable \<longrightarrow> r = Inl AgentUnreachable \<and> t' = t)"
proof (cases "fetch_sibling_uuid_list response")
  case (Inl e)
  with assms show ?thesis
    by (auto simp: fetch_parent_children_def fetch_sibling_uuid_list_def
        split: sum.splits agent_exception.splits)
next
  case (Inr fetched)
  obtain to_add to_remove where w: "what_to_add_what_to_remove fetched p t = (to_add, to_remove)"
    by fastforce
  from Inr w assms(3) have r: "r = Inr ()"
    and t': "t' = fold (m2m_remove_entry p) to_remove (fold (\<lambda>u. m2m_add_entry p u gami_id) to_add t)"
    by (auto simp: fetch_parent_children_def)
  note sync = m2m_table.sync_links[OF conjI[OF assms(1,2)] set_what_to_add_what_to_remove[OF w], of gami_id]
  have inv: "m2m_inv t' \<and> single_agent t'"
    and links: "m2m_links t' = {(q, c) \<in> m2m_links t. q \<noteq> p} \<union> {p} \<times> set fetched"
    using sync unfolding t' by auto
  have ch: "set (m2m_get_children u q) = {c. (q, c) \<in> m2m_links u}" for u q
    by (auto simp: set_m2m_get_children m2m_links_def)
  have "set (m2m_get_children t' p) = set fetched" unfolding ch links by auto
  moreover have "set (m2m_get_children t' q) = set (m2m_get_children t q)" if "q \<noteq> p" for q
    using that unfolding ch links by auto
  ultimately show ?thesis using inv r Inr
    by (auto simp: fetch_sibling_uuid_list_def split: sum.splits agent_exception.splits)
qed

theorem fetch_parent_children_syncs_witness:
  "m2m_inv [(''p'', ''a'', ''g''), (''p'', ''b'', ''g''), (''q'', ''z'', ''g'')]
   \<and> single_agent [(''p'', ''a'', ''g''), (''p'', ''b'', ''g''), (''q'', ''z'', ''g'')]
   \<and> fetch_parent_children (Inr [''c'', ''b'']) ''g'' ''p'' [(''p'', ''a'', ''g''), (''p'', ''b'', ''g''), (''q'', ''z'', ''g'')]
       = (Inr (), [(''p'', ''b'', ''g''), (''p'', ''c'', ''g''), (''q'', ''z'', ''g'')])
   \<and> set (m2m_get_children [(''p'', ''b'', ''g''), (''p'', ''c'', ''g''), (''q'', ''z'', ''g'')] ''p'') = {''c'', ''b''}"
proof -
  let ?t = "[(''p'', ''a'', ''g''), (''p'', ''b'', ''g''), (''q'', ''z'', ''g'')]"
  have inv: "m2m_inv ?t" and single: "single_agent ?t" by code_simp+
  have run: "fetch_parent_children (Inr [''c'', ''b'']) ''g'' ''p'' ?t
      = (Inr (), [(''p'', ''b'', ''g''), (''p'', ''c'', ''g''), (''q'', ''z'', ''g'')])" by code_simp
  show ?thesis using inv single run fetch_parent_children_syncs[OF inv single run] by simp
qed

end
