(* ===== verification/Resource_Model.thy ===== *)
theory Resource_Model
  imports Complex_Main PSME_Prelude
begin

text \<open>
  The data every resource of the PSME object model carries (\<open>Resource\<close> in
  \<open>agent-framework/module/model/resource.hpp\<close>), the \<open>Task\<close> resource that extends it, the
  JSON values resources are serialised to, and the hash that decides whether a resource
  changed (\<open>module/utils/hash.hpp\<close>). UUID generation, the clock and the hash function are
  library code and parameters of the definitions that use them.
\<close>

subsection \<open>JSON values\<close>

text \<open>
  The JSON library keeps an object as a map ordered by key; here it is the list of its
  members, with at most one member per key.
\<close>

datatype json =
    JNull
  | JBool bool
  | JInt int
  | JReal rat
  | JString string
  | JArray "json list"
  | JObject "(string \<times> json) list"

fun json_member :: "json \<Rightarrow> string \<Rightarrow> json option" where
  "json_member (JObject ms) k = map_of ms k"
| "json_member _ k = None"

fun json_erase :: "string \<Rightarrow> json \<Rightarrow> json" where
  "json_erase k (JObject ms) = JObject (filter (\<lambda>(k', _). k' \<noteq> k) ms)"
| "json_erase k j = j"

subsection \<open>Enumerations\<close>

datatype state = State_Enabled | State_Disabled | State_StandbyOffline | State_StandbySpare
  | State_InTest | State_Starting | State_Absent | State_UnavailableOffline | State_Deferring
  | State_Quiesced | State_Updating

datatype health = Health_OK | Health_Warning | Health_Critical

datatype task_state = Task_New | Task_Starting | Task_Running | Task_Suspended | Task_Interrupted
  | Task_Pending | Task_Stopping | Task_Completed | Task_Killed | Task_Exception | Task_Service

text \<open>
  The code only compares values of the two long enumerations \<open>Component\<close> and
  \<open>CollectionType\<close> and prints them, so a value is represented by its name, the result of
  \<open>to_string\<close>.
\<close>

type_synonym component = string
type_synonym collection_type = string

subsection \<open>Resources\<close>

record status =
  status_state :: state
  status_health :: "health option"

record resource =
  m_name :: "string option"
  m_description :: "string option"
  m_status :: status
  m_oem :: json
  m_collections :: "(string \<times> collection_type) list"
  m_parent_type :: component
  m_temporary_uuid :: uuid
  m_persistent_uuid :: uuid
  m_parent_uuid :: uuid
  m_unique_key :: "string option"
  m_is_uuid_persistent :: bool
  m_id :: u64
  m_agent_id :: string
  m_touched_at :: u64

text \<open>The constructor, with the generated version-1 UUID as an argument.\<close>

definition new_resource :: "uuid \<Rightarrow> uuid \<Rightarrow> component \<Rightarrow> resource" where
  "new_resource v1_uuid parent_uuid parent_type =
     \<lparr> m_name = None, m_description = None,
       m_status = \<lparr> status_state = State_Disabled, status_health = None \<rparr>,
       m_oem = JNull, m_collections = [], m_parent_type = parent_type,
       m_temporary_uuid = v1_uuid, m_persistent_uuid = [], m_parent_uuid = parent_uuid,
       m_unique_key = None, m_is_uuid_persistent = False,
       m_id = 0, m_agent_id = [], m_touched_at = 0 \<rparr>"

definition get_uuid :: "'a resource_scheme \<Rightarrow> uuid" where
  "get_uuid r = (if m_is_uuid_persistent r then m_persistent_uuid r else m_temporary_uuid r)"

definition set_uuid :: "uuid \<Rightarrow> 'a resource_scheme \<Rightarrow> 'a resource_scheme" where
  "set_uuid u r = r\<lparr> m_is_uuid_persistent := False, m_temporary_uuid := u \<rparr>"

definition make_persistent_uuid ::
    "(uuid \<Rightarrow> string \<Rightarrow> uuid) \<Rightarrow> uuid \<Rightarrow> 'a resource_scheme \<Rightarrow> uuid \<times> 'a resource_scheme" where
  "make_persistent_uuid make_v5_uuid service_uuid r =
     (case m_unique_key r of
        Some key \<Rightarrow>
          (let u = make_v5_uuid service_uuid key
           in (u, r\<lparr> m_persistent_uuid := u, m_is_uuid_persistent := True \<rparr>))
      | None \<Rightarrow> (m_persistent_uuid r, r))"

definition make_random_uuid :: "uuid \<Rightarrow> 'a resource_scheme \<Rightarrow> uuid \<times> 'a resource_scheme" where
  "make_random_uuid v1_uuid r = (v1_uuid, r\<lparr> m_temporary_uuid := v1_uuid, m_is_uuid_persistent := False \<rparr>)"

definition touch :: "u64 \<Rightarrow> 'a resource_scheme \<Rightarrow> 'a resource_scheme" where
  "touch epoch r = r\<lparr> m_touched_at := epoch \<rparr>"

definition was_touched_after :: "u64 \<Rightarrow> 'a resource_scheme \<Rightarrow> bool" where
  "was_touched_after epoch r \<longleftrightarrow> m_touched_at r > epoch"

definition is_healthy :: "'a resource_scheme \<Rightarrow> bool" where
  "is_healthy r \<longleftrightarrow> status_state (m_status r) = State_Enabled \<and> status_health (m_status r) = Some Health_OK"

subsection \<open>Task resources\<close>

record 'n task_resource = resource +
  m_start_time :: "string option"
  m_end_time :: "string option"
  m_state :: "task_state option"
  m_messages :: "json list"
  m_completion_notifiers :: "'n list"

datatype task_error = AlreadyStarted | NotStartedYet | AlreadyFinished

text \<open>
  \<open>start\<close> and \<open>stop\<close> overwrite the message of the first failed check with that of the
  second, so the error they throw is that of the last failed check. The clock is an argument.
\<close>

definition task_start :: "string \<Rightarrow> 'n task_resource \<Rightarrow> task_error + 'n task_resource" where
  "task_start now t =
     (if m_end_time t \<noteq> None then Inl AlreadyFinished
      else if m_start_time t \<noteq> None then Inl AlreadyStarted
      else Inr (t\<lparr> m_start_time := Some now \<rparr>))"

definition task_stop :: "string \<Rightarrow> 'n task_resource \<Rightarrow> task_error + 'n task_resource" where
  "task_stop now t =
     (if m_end_time t \<noteq> None then Inl AlreadyFinished
      else if m_start_time t = None then Inl NotStartedYet
      else Inr (t\<lparr> m_end_time := Some now \<rparr>))"

subsection \<open>The hash of a resource\<close>

record resource_hash =
  hash_status :: string
  hash_resource_without_status :: string

definition hash_from_resource :: "(json \<Rightarrow> string) \<Rightarrow> ('r \<Rightarrow> json) \<Rightarrow> 'r \<Rightarrow> resource_hash" where
  "hash_from_resource compute_hash to_json r =
     (let j = to_json r
      in case json_member j ''status'' of
           Some s \<Rightarrow> \<lparr> hash_status = compute_hash s,
                        hash_resource_without_status = compute_hash (json_erase ''status'' j) \<rparr>
         | None \<Rightarrow> \<lparr> hash_status = [], hash_resource_without_status = compute_hash j \<rparr>)"

subsection \<open>Lemmas\<close>

lemma get_uuid_set_uuid [simp]: "get_uuid (set_uuid u r) = u"
  by (simp add: get_uuid_def set_uuid_def)

lemma touch_simps [simp]:
  "get_uuid (touch e r) = get_uuid r"
  "m_temporary_uuid (touch e r) = m_temporary_uuid r"
  "m_persistent_uuid (touch e r) = m_persistent_uuid r"
  "m_is_uuid_persistent (touch e r) = m_is_uuid_persistent r"
  "m_parent_uuid (touch e r) = m_parent_uuid r"
  "m_agent_id (touch e r) = m_agent_id r"
  "m_id (touch e r) = m_id r"
  "m_touched_at (touch e r) = e"
  by (simp_all add: touch_def get_uuid_def)

lemma task_stop_needs_start:
  "task_stop now t = Inr t' \<Longrightarrow> m_start_time t' \<noteq> None \<and> m_end_time t' = Some now"
  by (auto simp: task_stop_def split: if_splits)

end
