(* ===== verification/Generic_Manager.thy ===== *)
theory Generic_Manager
  imports Resource_Model
begin

text \<open>
  \<open>GenericManager\<close> of the agent framework (\<open>generic_manager.hpp\<close>): the in-memory table of
  one kind of resource, its specialisation for tasks, and the registry of all tables
  (\<open>generic_manager_registry\<close>). Every operation runs under the manager's recursive mutex;
  the mutex itself is not modelled. An \<open>ObjReference\<close>, which the caller writes the resource
  through, is modelled by the function the caller applies to the resource.
\<close>

datatype update_status = NoUpdate | StatusChanged | Updated | Added

datatype uuid_problem = AlreadyExists | ParentChanged | EntryNotFound

datatype model_exception = InvalidUuid uuid_problem uuid | NotFound u64

record 'r manager =
  m_manager_data :: "'r list"
  m_current_epoch :: u64

definition empty_manager :: "'r manager" where
  "empty_manager = \<lparr> m_manager_data = [], m_current_epoch = 1 \<rparr>"

subsection \<open>Looking entries up\<close>

definition uuid_matches :: "uuid \<Rightarrow> 'a resource_scheme \<Rightarrow> bool" where
  "uuid_matches u entry \<longleftrightarrow>
     (m_is_uuid_persistent entry \<and> m_persistent_uuid entry = u) \<or> m_temporary_uuid entry = u"

definition find_entry :: "'a resource_scheme manager \<Rightarrow> uuid \<Rightarrow> 'a resource_scheme option" where
  "find_entry m u = find (uuid_matches u) (m_manager_data m)"

definition get_entry :: "'a resource_scheme manager \<Rightarrow> uuid \<Rightarrow> model_exception + 'a resource_scheme" where
  "get_entry m u = (case find_entry m u of Some e \<Rightarrow> Inr e | None \<Rightarrow> Inl (InvalidUuid EntryNotFound u))"

definition entry_exists :: "'a resource_scheme manager \<Rightarrow> uuid \<Rightarrow> bool" where
  "entry_exists m u \<longleftrightarrow> find_entry m u \<noteq> None"

text \<open>
  \<open>get_entry_reference\<close> and \<open>find_id_by_uuid\<close> compare the persistent UUID of an entry
  even when the entry has none.
\<close>

definition any_uuid_matches :: "uuid \<Rightarrow> 'a resource_scheme \<Rightarrow> bool" where
  "any_uuid_matches u entry \<longleftrightarrow> m_persistent_uuid entry = u \<or> m_temporary_uuid entry = u"

definition get_entry_reference ::
    "uuid \<Rightarrow> ('a resource_scheme \<Rightarrow> 'a resource_scheme)
       \<Rightarrow> ('a resource_scheme manager, model_exception, unit) eff" where
  "get_entry_reference u f m =
     (case find (any_uuid_matches u) (m_manager_data m) of
        Some _ \<Rightarrow> (Inr (), m\<lparr> m_manager_data := update_first (any_uuid_matches u) f (m_manager_data m) \<rparr>)
      | None \<Rightarrow> (Inl (InvalidUuid EntryNotFound u), m))"

definition uuid_to_rest_id :: "'a resource_scheme manager \<Rightarrow> uuid \<Rightarrow> model_exception + u64" where
  "uuid_to_rest_id m u =
     (case find (any_uuid_matches u) (m_manager_data m) of
        Some e \<Rightarrow> Inr (m_id e)
      | None \<Rightarrow> Inl (InvalidUuid EntryNotFound u))"

definition find_uuid_by_id :: "'a resource_scheme manager \<Rightarrow> u64 \<Rightarrow> model_exception + uuid" where
  "find_uuid_by_id m i =
     (case find (\<lambda>e. m_id e = i) (m_manager_data m) of Some e \<Rightarrow> Inr (get_uuid e) | None \<Rightarrow> Inl (NotFound i))"

definition find_uuid_by_id_and_parent ::
    "'a resource_scheme manager \<Rightarrow> u64 \<Rightarrow> uuid \<Rightarrow> model_exception + uuid" where
  "find_uuid_by_id_and_parent m i parent_uuid =
     (case find (\<lambda>e. m_parent_uuid e = parent_uuid \<and> m_id e = i) (m_manager_data m) of
        Some e \<Rightarrow> Inr (get_uuid e) | None \<Rightarrow> Inl (NotFound i))"

definition rest_id_to_uuid :: "'a resource_scheme manager \<Rightarrow> u64 \<Rightarrow> uuid \<Rightarrow> model_exception + uuid" where
  "rest_id_to_uuid m i parent_uuid =
     (if parent_uuid = [] then find_uuid_by_id m i else find_uuid_by_id_and_parent m i parent_uuid)"

subsection \<open>Listing entries\<close>

fun get_entries :: "('r \<Rightarrow> bool) \<Rightarrow> 'r list \<Rightarrow> 'r list" where
  "get_entries flt [] = []"
| "get_entries flt (e # es) = (if flt e then e # get_entries flt es else get_entries flt es)"

definition get_entries_by_parent ::
    "'a resource_scheme manager \<Rightarrow> uuid \<Rightarrow> ('a resource_scheme \<Rightarrow> bool) \<Rightarrow> 'a resource_scheme list" where
  "get_entries_by_parent m parent_uuid flt =
     get_entries (\<lambda>e. parent_uuid = m_parent_uuid e \<and> flt e) (m_manager_data m)"

fun get_keys :: "('a resource_scheme \<Rightarrow> bool) \<Rightarrow> 'a resource_scheme list \<Rightarrow> uuid list" where
  "get_keys flt [] = []"
| "get_keys flt (e # es) = (if flt e then get_uuid e # get_keys flt es else get_keys flt es)"

definition get_keys_by_parent ::
    "'a resource_scheme manager \<Rightarrow> uuid \<Rightarrow> ('a resource_scheme \<Rightarrow> bool) \<Rightarrow> uuid list" where
  "get_keys_by_parent m parent_uuid flt =
     get_keys (\<lambda>e. parent_uuid = m_parent_uuid e \<and> flt e) (m_manager_data m)"

definition get_ids :: "'a resource_scheme manager \<Rightarrow> u64 list" where
  "get_ids m = map m_id (m_manager_data m)"

fun get_ids_by_parent :: "uuid \<Rightarrow> 'a resource_scheme list \<Rightarrow> u64 list" where
  "get_ids_by_parent parent_uuid [] = []"
| "get_ids_by_parent parent_uuid (e # es) =
     (if m_parent_uuid e = parent_uuid then m_id e # get_ids_by_parent parent_uuid es
      else get_ids_by_parent parent_uuid es)"

definition get_entry_count :: "'r manager \<Rightarrow> nat" where
  "get_entry_count m = length (m_manager_data m)"

definition get_entry_count_by_parent :: "'a resource_scheme manager \<Rightarrow> uuid \<Rightarrow> nat" where
  "get_entry_count_by_parent m parent_uuid =
     length (filter (\<lambda>e. m_parent_uuid e = parent_uuid) (m_manager_data m))"

subsection \<open>Adding and updating entries\<close>

definition add_entry :: "'a resource_scheme \<Rightarrow> ('a resource_scheme manager, model_exception, unit) eff" where
  "add_entry entry m =
     (case find_entry m (get_uuid entry) of
        Some _ \<Rightarrow> (Inl (InvalidUuid AlreadyExists (get_uuid entry)), m)
      | None \<Rightarrow>
          (let epoch = m_current_epoch m + 1
           in (Inr (), m\<lparr> m_current_epoch := epoch, m_manager_data := m_manager_data m @ [touch epoch entry] \<rparr>)))"

definition compare_hashes :: "resource_hash \<Rightarrow> resource_hash \<Rightarrow> update_status" where
  "compare_hashes db_hash entry_hash =
     (if hash_status db_hash \<noteq> hash_status entry_hash then StatusChanged
      else if hash_resource_without_status db_hash \<noteq> hash_resource_without_status entry_hash then Updated
      else NoUpdate)"

definition add_or_update_entry ::
    "('a resource_scheme \<Rightarrow> resource_hash) \<Rightarrow> 'a resource_scheme
       \<Rightarrow> ('a resource_scheme manager, model_exception, update_status) eff" where
  "add_or_update_entry hash_of entry_r m =
     (let epoch = m_current_epoch m + 1;
          m1 = m\<lparr> m_current_epoch := epoch \<rparr>;
          entry = touch epoch entry_r
      in case find_entry m1 (get_uuid entry) of
           Some it \<Rightarrow>
             (if m_parent_uuid it \<noteq> m_parent_uuid entry
              then (Inl (InvalidUuid ParentChanged (get_uuid entry)), m1)
              else (Inr (compare_hashes (hash_of it) (hash_of entry)),
                    m1\<lparr> m_manager_data := update_first (uuid_matches (get_uuid entry)) (\<lambda>_. entry) (m_manager_data m1) \<rparr>))
         | None \<Rightarrow> (Inr Added, m1\<lparr> m_manager_data := m_manager_data m1 @ [entry] \<rparr>))"

text \<open>
  The specialisation for tasks also calls the completion notifiers of the stored task when
  the task changed and has ended. The result carries the notifiers that are called, in order.
\<close>

definition task_add_or_update_entry ::
    "(('n, 'a) task_resource_scheme \<Rightarrow> resource_hash) \<Rightarrow> ('n, 'a) task_resource_scheme
       \<Rightarrow> (('n, 'a) task_resource_scheme manager, model_exception, update_status \<times> 'n list) eff" where
  "task_add_or_update_entry hash_of entry_r m =
     (let epoch = m_current_epoch m + 1;
          m1 = m\<lparr> m_current_epoch := epoch \<rparr>;
          entry = touch epoch entry_r
      in case find_entry m1 (get_uuid entry) of
           Some it \<Rightarrow>
             (if m_parent_uuid it \<noteq> m_parent_uuid entry
              then (Inl (InvalidUuid ParentChanged (get_uuid entry)), m1)
              else (let res = compare_hashes (hash_of it) (hash_of entry);
                        m2 = m1\<lparr> m_manager_data := update_first (uuid_matches (get_uuid entry)) (\<lambda>_. entry) (m_manager_data m1) \<rparr>;
                        called = (if res \<noteq> NoUpdate \<and> m_end_time entry \<noteq> None then m_completion_notifiers entry else [])
                    in (Inr (res, called), m2)))
         | None \<Rightarrow> (Inr (Added, []), m1\<lparr> m_manager_data := m_manager_data m1 @ [entry] \<rparr>))"

subsection \<open>Removing entries\<close>

text \<open>\<open>remove_entry\<close> calls a hook with the entry it is about to erase; the result names that entry.\<close>

definition manager_remove_entry ::
    "uuid \<Rightarrow> 'a resource_scheme manager \<Rightarrow> 'a resource_scheme option \<times> 'a resource_scheme manager" where
  "manager_remove_entry u m =
     (find_entry m u, m\<lparr> m_manager_data := remove_first (uuid_matches u) (m_manager_data m) \<rparr>)"

definition manager_remove_if :: "('r \<Rightarrow> bool) \<Rightarrow> 'r manager \<Rightarrow> nat \<times> 'r manager" where
  "manager_remove_if predicate m =
     (let kept = filter (\<lambda>e. \<not> predicate e) (m_manager_data m)
      in (length (m_manager_data m) - length kept, m\<lparr> m_manager_data := kept \<rparr>))"

definition remove_by_parent :: "uuid \<Rightarrow> 'a resource_scheme manager \<Rightarrow> 'a resource_scheme manager" where
  "remove_by_parent u m = snd (manager_remove_if (\<lambda>e. m_parent_uuid e = u) m)"

definition clean_resources_for_agent :: "string \<Rightarrow> 'a resource_scheme manager \<Rightarrow> 'a resource_scheme manager" where
  "clean_resources_for_agent gami_id m = snd (manager_remove_if (\<lambda>e. m_agent_id e = gami_id) m)"

definition clear_entries :: "'r manager \<Rightarrow> 'r manager" where
  "clear_entries m = m\<lparr> m_manager_data := [] \<rparr>"

subsection \<open>The registry of tables\<close>

text \<open>
  A registered table is what \<open>TableInterface\<close> offers: its component and its
  \<open>entry_exists\<close>. \<open>for_each_table\<close> stops when the client function returns false.
\<close>

type_synonym table_interface = "component \<times> (uuid \<Rightarrow> bool)"

definition register_table :: "table_interface \<Rightarrow> table_interface list \<Rightarrow> table_interface list" where
  "register_table table tables = tables @ [table]"

fun for_each_table :: "(table_interface \<Rightarrow> 's \<Rightarrow> bool \<times> 's) \<Rightarrow> table_interface list \<Rightarrow> 's \<Rightarrow> 's" where
  "for_each_table func [] s = s"
| "for_each_table func (table # tables) s =
     (case func table s of (continue, s') \<Rightarrow> if continue then for_each_table func tables s' else s')"

definition find_component :: "table_interface list \<Rightarrow> uuid \<Rightarrow> component" where
  "find_component tables u =
     for_each_table (\<lambda>(comp, exists) found. if exists u then (False, comp) else (True, found)) tables ''None''"

subsection \<open>Well-formed tables\<close>

text \<open>The UUIDs an entry answers to, and tables in which no two entries share one.\<close>

definition entry_ids :: "'a resource_scheme \<Rightarrow> uuid set" where
  "entry_ids e = insert (m_temporary_uuid e) (if m_is_uuid_persistent e then {m_persistent_uuid e} else {})"

definition wf_manager :: "'a resource_scheme manager \<Rightarrow> bool" where
  "wf_manager m \<longleftrightarrow> sorted_wrt (\<lambda>a b. entry_ids a \<inter> entry_ids b = {}) (m_manager_data m)"

lemma uuid_matches_iff: "uuid_matches u e \<longleftrightarrow> u \<in> entry_ids e"
  by (auto simp: uuid_matches_def entry_ids_def)

lemma get_uuid_in_ids [simp]: "get_uuid e \<in> entry_ids e"
  by (simp add: get_uuid_def entry_ids_def)

lemma entry_ids_touch [simp]: "entry_ids (touch n e) = entry_ids e"
  by (simp add: entry_ids_def)

lemma find_matching_iff:
  assumes "sorted_wrt (\<lambda>a b. entry_ids a \<inter> entry_ids b = {}) es"
  shows "find (uuid_matches u) es = Some e \<longleftrightarrow> e \<in> set es \<and> u \<in> entry_ids e"
  using assms by (induction es) (auto simp: uuid_matches_iff)

lemma find_entry_iff:
  "wf_manager m \<Longrightarrow> find_entry m u = Some e \<longleftrightarrow> e \<in> set (m_manager_data m) \<and> u \<in> entry_ids e"
  by (simp add: find_entry_def wf_manager_def find_matching_iff)

lemma find_entry_None_iff:
  "find_entry m u = None \<longleftrightarrow> (\<forall>e \<in> set (m_manager_data m). u \<notin> entry_ids e)"
  by (auto simp: find_entry_def find_None_iff uuid_matches_iff)

lemma get_entries_filter: "get_entries flt es = filter flt es"
  by (induction es) auto

lemma get_keys_filter: "get_keys flt es = map get_uuid (filter flt es)"
  by (induction es) auto

lemma get_ids_by_parent_filter:
  "get_ids_by_parent p es = map m_id (filter (\<lambda>e. m_parent_uuid e = p) es)"
  by (induction es) auto

lemma find_append: "find P (xs @ ys) = (case find P xs of Some x \<Rightarrow> Some x | None \<Rightarrow> find P ys)"
  by (induction xs) auto

text \<open>Adding an entry that was not there.\<close>

lemma find_entry_append:
  "find_entry (m\<lparr> m_current_epoch := n, m_manager_data := m_manager_data m @ [e] \<rparr>) u =
   (case find_entry m u of Some x \<Rightarrow> Some x | None \<Rightarrow> if u \<in> entry_ids e then Some e else None)"
  by (simp add: find_entry_def find_append uuid_matches_iff split: option.split)

lemma wf_manager_append:
  "\<lbrakk>wf_manager m; \<forall>x \<in> set (m_manager_data m). entry_ids x \<inter> entry_ids e = {}\<rbrakk>
   \<Longrightarrow> wf_manager (m\<lparr> m_current_epoch := n, m_manager_data := m_manager_data m @ [e] \<rparr>)"
  by (simp add: wf_manager_def sorted_wrt_append)

lemma wf_manager_filter:
  "wf_manager m \<Longrightarrow> wf_manager (m\<lparr> m_manager_data := filter P (m_manager_data m) \<rparr>)"
  by (simp add: wf_manager_def sorted_wrt_filter)

subsection \<open>Tables of the REST server\<close>

text \<open>
  The REST server gives every entry the UUID the agent uses for it with \<open>set_uuid\<close>, so an
  entry of its tables has no persistent UUID and answers to one UUID only.
\<close>

definition rest_inv :: "'a resource_scheme manager \<Rightarrow> bool" where
  "rest_inv m \<longleftrightarrow> (\<forall>e \<in> set (m_manager_data m). \<not> m_is_uuid_persistent e \<and> m_touched_at e \<le> m_current_epoch m)
     \<and> distinct (map m_temporary_uuid (m_manager_data m))"

lemma distinct_uuids_wf:
  "\<lbrakk>\<forall>e \<in> set es. \<not> m_is_uuid_persistent e; distinct (map m_temporary_uuid es)\<rbrakk>
   \<Longrightarrow> sorted_wrt (\<lambda>a b. entry_ids a \<inter> entry_ids b = {}) es"
proof (induction es)
  case (Cons e es)
  have "entry_ids e \<inter> entry_ids x = {}" if x: "x \<in> set es" for x
  proof -
    from Cons.prems(2) x have "m_temporary_uuid x \<noteq> m_temporary_uuid e" by (metis distinct.simps(2) imageI list.map(2) list.set_map)
    with Cons.prems(1) x show ?thesis by (simp add: entry_ids_def)
  qed
  with Cons show ?case by simp
qed simp

lemma rest_inv_wf: "rest_inv m \<Longrightarrow> wf_manager m"
  by (simp add: rest_inv_def wf_manager_def distinct_uuids_wf)

lemma rest_inv_distinct: "rest_inv m \<Longrightarrow> distinct (m_manager_data m)"
  by (simp add: rest_inv_def distinct_map)

lemma rest_inv_find:
  assumes "rest_inv m"
  shows "find_entry m u = Some e \<longleftrightarrow> e \<in> set (m_manager_data m) \<and> m_temporary_uuid e = u"
  using find_entry_iff[OF rest_inv_wf[OF assms], of u e] assms
  by (auto simp: rest_inv_def entry_ids_def)

lemma rest_inv_find_None:
  "rest_inv m \<Longrightarrow> find_entry m u = None \<longleftrightarrow> (\<forall>e \<in> set (m_manager_data m). m_temporary_uuid e \<noteq> u)"
  by (auto simp: find_entry_None_iff rest_inv_def entry_ids_def)

text \<open>The entries of a table after a successful update, under the next epoch.\<close>

lemma add_or_update_entry_rest:
  fixes hash_of :: "'a resource_scheme \<Rightarrow> resource_hash"
  assumes inv: "rest_inv m" and np: "\<not> m_is_uuid_persistent r"
    and parent: "\<And>it. find_entry m (m_temporary_uuid r) = Some it \<Longrightarrow> m_parent_uuid it = m_parent_uuid r"
    and room: "unat (m_current_epoch m) < 2 ^ 64 - 1"
  defines "m' \<equiv> snd (add_or_update_entry hash_of r m)"
  shows "rest_inv m'" and "m_current_epoch m' = m_current_epoch m + 1"
    and "find_entry m' u = (if u = m_temporary_uuid r then Some (touch (m_current_epoch m + 1) r) else find_entry m u)"
proof -
  let ?n = "m_current_epoch m + 1"
  have gt: "m_current_epoch m < ?n"
    using room by (simp add: word_less_nat_alt unat_word_ariths)
  have uu: "get_uuid r = m_temporary_uuid r" using np by (simp add: get_uuid_def)
  have same: "find_entry (m\<lparr>m_current_epoch := ?n\<rparr>) v = find_entry m v" for v
    by (simp add: find_entry_def)
  have touched: "e \<in> set (m_manager_data m) \<Longrightarrow> m_touched_at e \<le> ?n" for e
    using inv gt by (force simp: rest_inv_def)
  have main: "rest_inv m' \<and> m_current_epoch m' = ?n
     \<and> set (m_manager_data m') = insert (touch ?n r) {e \<in> set (m_manager_data m). m_temporary_uuid e \<noteq> m_temporary_uuid r}"
  proof (cases "find_entry m (m_temporary_uuid r)")
    case None
    then have data: "m' = m\<lparr> m_current_epoch := ?n, m_manager_data := m_manager_data m @ [touch ?n r] \<rparr>"
      by (simp add: m'_def add_or_update_entry_def Let_def same uu)
    from None inv touched np show ?thesis
      unfolding data by (auto simp: rest_inv_def rest_inv_find_None)
  next
    case (Some it)
    let ?P = "uuid_matches (m_temporary_uuid r)"
    have data: "m' = m\<lparr> m_current_epoch := ?n, m_manager_data := update_first ?P (\<lambda>_. touch ?n r) (m_manager_data m) \<rparr>"
      using Some parent[OF Some] by (simp add: m'_def add_or_update_entry_def Let_def same uu)
    from Some have f: "find ?P (m_manager_data m) = Some it" by (simp add: find_entry_def)
    have s: "set (m_manager_data m') = insert (touch ?n r) (set (m_manager_data m) - {it})"
      using set_update_first[OF f rest_inv_distinct[OF inv]] by (simp add: data)
    have k: "map m_temporary_uuid (m_manager_data m') = map m_temporary_uuid (m_manager_data m)"
      unfolding data using inv by (auto simp: rest_inv_def uuid_matches_def intro!: map_update_first)
    have "set (m_manager_data m) - {it} = {e \<in> set (m_manager_data m). m_temporary_uuid e \<noteq> m_temporary_uuid r}"
      using Some inv by (auto simp: rest_inv_find rest_inv_def distinct_map inj_on_def)
    with s k inv touched np show ?thesis by (auto simp: rest_inv_def data)
  qed
  then show inv': "rest_inv m'" and "m_current_epoch m' = ?n" by auto
  show "find_entry m' u = (if u = m_temporary_uuid r then Some (touch ?n r) else find_entry m u)"
  proof (cases "u = m_temporary_uuid r")
    case True
    with main show ?thesis by (simp add: rest_inv_find[OF inv'])
  next
    case False
    then have "find_entry m' u = Some e \<longleftrightarrow> find_entry m u = Some e" for e
      using main by (auto simp: rest_inv_find[OF inv'] rest_inv_find[OF inv])
    with False show ?thesis by (metis option.exhaust)
  qed
qed

subsection \<open>Tables with an epoch as an interface\<close>

text \<open>
  What polling relies on: a table that stamps every stored entry with a clock that advances
  with each store. A client that notes the clock, stores the entries an agent still has and
  then looks at the stamps can tell the entries the agent no longer has.
\<close>

locale epoch_table =
  fixes lookup :: "'m \<Rightarrow> uuid \<Rightarrow> 'r option"
    and put :: "'r \<Rightarrow> 'm \<Rightarrow> 'm"
    and key :: "'r \<Rightarrow> uuid"
    and stamp :: "'r \<Rightarrow> nat"
    and tick :: "nat \<Rightarrow> 'r \<Rightarrow> 'r"
    and clock :: "'m \<Rightarrow> nat"
    and acceptable :: "'r \<Rightarrow> 'm \<Rightarrow> bool"
    and inv :: "'m \<Rightarrow> bool"
    and limit :: nat
  assumes inv_put: "\<lbrakk>inv m; acceptable r m; clock m < limit\<rbrakk> \<Longrightarrow> inv (put r m)"
    and clock_put: "\<lbrakk>inv m; acceptable r m; clock m < limit\<rbrakk> \<Longrightarrow> clock (put r m) = clock m + 1"
    and lookup_put: "\<lbrakk>inv m; acceptable r m; clock m < limit\<rbrakk>
      \<Longrightarrow> lookup (put r m) u = (if u = key r then Some (tick (clock m + 1) r) else lookup m u)"
    and acceptable_put: "\<lbrakk>inv m; acceptable r m; acceptable r' m; key r \<noteq> key r'; clock m < limit\<rbrakk>
      \<Longrightarrow> acceptable r' (put r m)"
    and stamp_tick: "n \<le> limit \<Longrightarrow> stamp (tick n r) = n"
    and stamp_le: "\<lbrakk>inv m; lookup m u = Some r\<rbrakk> \<Longrightarrow> stamp r \<le> clock m"
begin

lemma put_all:
  "\<lbrakk>inv m; \<forall>r \<in> set rs. acceptable r m; distinct (map key rs); clock m + length rs \<le> limit\<rbrakk>
   \<Longrightarrow> inv (fold put rs m) \<and> clock (fold put rs m) = clock m + length rs
     \<and> (\<forall>u. u \<notin> key ` set rs \<longrightarrow> lookup (fold put rs m) u = lookup m u)
     \<and> (\<forall>r \<in> set rs. \<exists>n. clock m < n \<and> n \<le> limit \<and> lookup (fold put rs m) (key r) = Some (tick n r))"
proof (induction rs arbitrary: m)
  case (Cons r rs)
  have pre: "inv m" "acceptable r m" "clock m < limit" using Cons.prems by auto
  have "\<forall>r' \<in> set rs. acceptable r' (put r m)"
    using Cons.prems acceptable_put[OF pre(1,2)] pre(3) by force
  then have IH: "inv (fold put rs (put r m)) \<and> clock (fold put rs (put r m)) = clock (put r m) + length rs
     \<and> (\<forall>u. u \<notin> key ` set rs \<longrightarrow> lookup (fold put rs (put r m)) u = lookup (put r m) u)
     \<and> (\<forall>r' \<in> set rs. \<exists>n. clock (put r m) < n \<and> n \<le> limit \<and> lookup (fold put rs (put r m)) (key r') = Some (tick n r'))"
    using Cons.prems by (intro Cons.IH) (simp_all add: inv_put[OF pre] clock_put[OF pre])
  have "key r \<notin> key ` set rs" using Cons.prems(3) by simp
  with IH have "lookup (fold put rs (put r m)) (key r) = Some (tick (clock m + 1) r)"
    by (simp add: lookup_put[OF pre])
  then have "\<exists>n. clock m < n \<and> n \<le> limit \<and> lookup (fold put rs (put r m)) (key r) = Some (tick n r)"
    using pre(3) by (intro exI[of _ "clock m + 1"]) simp
  with IH show ?case
    by (auto simp: clock_put[OF pre] lookup_put[OF pre]) (meson Suc_lessD)
qed simp

text \<open>An entry carries a stamp after the noted clock exactly when it was stored since then.\<close>

lemma stamped_iff_stored:
  assumes "inv m" and "\<forall>r \<in> set rs. acceptable r m" and "distinct (map key rs)"
    and "clock m + length rs \<le> limit" and "lookup (fold put rs m) u = Some x"
  shows "clock m < stamp x \<longleftrightarrow> u \<in> key ` set rs"
proof (cases "u \<in> key ` set rs")
  case True
  then obtain r where r: "r \<in> set rs" "u = key r" by blast
  with put_all[OF assms(1-4)] obtain n
    where "clock m < n" "n \<le> limit" "lookup (fold put rs m) (key r) = Some (tick n r)" by blast
  with r assms(5) True stamp_tick[of n r] show ?thesis by simp
next
  case False
  with put_all[OF assms(1-4)] assms(5) have "lookup m u = Some x" by simp
  with stamp_le[OF assms(1)] False show ?thesis by (simp add: leD)
qed

end

definition rest_acceptable :: "'a resource_scheme \<Rightarrow> 'a resource_scheme manager \<Rightarrow> bool" where
  "rest_acceptable r m \<longleftrightarrow> \<not> m_is_uuid_persistent r
     \<and> (case find_entry m (m_temporary_uuid r) of Some it \<Rightarrow> m_parent_uuid it = m_parent_uuid r | None \<Rightarrow> True)"

interpretation rest_table: epoch_table find_entry "\<lambda>r m. snd (add_or_update_entry hash_of r m)"
    m_temporary_uuid "\<lambda>r. unat (m_touched_at r)" "\<lambda>n. touch (of_nat n)" "\<lambda>m. unat (m_current_epoch m)"
    rest_acceptable rest_inv "2 ^ 64 - 1" for hash_of
proof -
  have acc: "find_entry m (m_temporary_uuid r) = Some it \<Longrightarrow> m_parent_uuid it = m_parent_uuid r"
    if "rest_acceptable r m" for r :: "'a resource_scheme" and m it
    using that by (simp add: rest_acceptable_def)
  note upd = add_or_update_entry_rest[OF _ _ acc, where hash_of = hash_of]
  show "epoch_table find_entry (\<lambda>r m. snd (add_or_update_entry hash_of r m))
      m_temporary_uuid (\<lambda>r. unat (m_touched_at r)) (\<lambda>n. touch (of_nat n)) (\<lambda>m. unat (m_current_epoch m))
      rest_acceptable rest_inv (2 ^ 64 - 1)"
  proof (unfold_locales, goal_cases)
    case (1 m r)
    then show ?case by (intro upd) (auto simp: rest_acceptable_def)
  next
    case (2 m r)
    then show ?case by (subst upd) (auto simp: rest_acceptable_def unat_word_ariths)
  next
    case (3 m r u)
    then show ?case by (subst upd) (auto simp: rest_acceptable_def add.commute)
  next
    case (4 m r r')
    then show ?case
      by (subst rest_acceptable_def, subst upd) (auto simp: rest_acceptable_def)
  next
    case (5 n r)
    then show ?case by (simp add: unat_of_nat)
  next
    case (6 m u r)
    then show ?case by (auto simp: rest_inv_find rest_inv_def word_le_nat_alt)
  qed
qed


subsection \<open>What the tables guarantee\<close>

lemma find_update_first_same:
  "\<lbrakk>find P xs = Some x; P y\<rbrakk> \<Longrightarrow> find P (update_first P (\<lambda>_. y) xs) = Some y"
  by (induction xs) auto

lemma find_entry_epoch [simp]: "find_entry (m\<lparr> m_current_epoch := n \<rparr>) u = find_entry m u"
  by (simp add: find_entry_def)

lemma uuid_matches_own [simp]: "uuid_matches (get_uuid e) e" "uuid_matches (get_uuid e) (touch n e)"
  by (simp_all add: uuid_matches_iff)

lemma rest_keys:
  assumes "rest_inv m"
  shows "set (get_keys flt (m_manager_data m)) = {u. \<exists>e. find_entry m u = Some e \<and> flt e}"
  using assms rest_inv_find[OF assms]
  by (auto simp: get_keys_filter rest_inv_def get_uuid_def)

text \<open>
  C26: \<open>add_or_update_entry\<close> always advances the epoch of the table. It throws exactly when the
  table holds the UUID under another parent, and then the entries are unchanged; otherwise
  the entry, stamped with the new epoch, is what \<open>get_entry\<close> finds afterwards, and the
  result is \<open>Added\<close> exactly when the UUID was not there before.
\<close>

theorem add_or_update_entry_outcome:
  fixes entry :: "'a resource_scheme"
  defines "u \<equiv> get_uuid entry"
  assumes "add_or_update_entry hash_of entry m = (result, m')"
  shows "m_current_epoch m' = m_current_epoch m + 1
    \<and> (case find_entry m u of
         None \<Rightarrow> result = Inr Added \<and> get_entry m' u = Inr (touch (m_current_epoch m') entry)
       | Some old \<Rightarrow>
           if m_parent_uuid old \<noteq> m_parent_uuid entry
           then result = Inl (InvalidUuid ParentChanged u) \<and> m_manager_data m' = m_manager_data m
           else result = Inr (compare_hashes (hash_of old) (hash_of (touch (m_current_epoch m') entry)))
             \<and> get_entry m' u = Inr (touch (m_current_epoch m') entry)
             \<and> get_entry_count m' = get_entry_count m)"
proof (cases "find_entry m u")
  case None
  with assms show ?thesis
    by (auto simp: add_or_update_entry_def Let_def get_entry_def find_entry_def find_append u_def)
next
  case (Some old)
  with assms show ?thesis
    by (auto simp: add_or_update_entry_def Let_def get_entry_def get_entry_count_def find_entry_def
          find_update_first_same u_def split: if_splits)
qed

definition example_resource :: "uuid \<Rightarrow> u64 \<Rightarrow> resource" where
  "example_resource u i = (new_resource u ''sys'' ''System'')\<lparr> m_id := i \<rparr>"

definition example_manager :: "resource manager" where
  "example_manager = \<lparr> m_manager_data = [example_resource ''a'' 1, example_resource ''b'' 2], m_current_epoch = 5 \<rparr>"

definition example_hash :: "resource \<Rightarrow> resource_hash" where
  "example_hash r = \<lparr> hash_status = [], hash_resource_without_status = m_temporary_uuid r \<rparr>"

lemmas example_defs = example_resource_def example_manager_def example_hash_def new_resource_def

theorem add_or_update_entry_outcome_witness:
  "fst (add_or_update_entry example_hash (example_resource ''b'' 2) example_manager) = Inr NoUpdate
   \<and> m_current_epoch (snd (add_or_update_entry example_hash (example_resource ''b'' 2) example_manager)) = 6"
proof -
  let ?e = "example_resource ''b'' 2"
  have f: "find_entry example_manager (get_uuid ?e) = Some ?e"
    by (simp add: example_defs find_entry_def get_uuid_def uuid_matches_def)
  have h: "compare_hashes (example_hash ?e) (example_hash (touch n ?e)) = NoUpdate" for n
    by (simp add: compare_hashes_def example_hash_def)
  have c: "m_current_epoch example_manager = 5" by (simp add: example_defs)
  show ?thesis
    using add_or_update_entry_outcome[of example_hash ?e example_manager, OF surjective_pairing]
    by (simp add: f h c)
qed

text \<open>
  C6: polling mirrors the agent. When the REST server notes the epoch of a table, stores every
  resource the agent reports and then lists the entries that were not touched after the noted
  epoch, the list is exactly the entries the table had that the agent did not report, and every
  reported resource is stored.
\<close>

theorem untouched_after_polling:
  fixes m :: "'a resource_scheme manager" and hash_of :: "'a resource_scheme \<Rightarrow> resource_hash"
  assumes "rest_inv m" and "\<forall>r \<in> set rs. rest_acceptable r m" and "distinct (map m_temporary_uuid rs)"
    and "unat (m_current_epoch m) + length rs < 2 ^ 64"
  defines "m' \<equiv> fold (\<lambda>r m. snd (add_or_update_entry hash_of r m)) rs m"
  shows "set (get_keys (\<lambda>e. \<not> was_touched_after (m_current_epoch m) e) (m_manager_data m'))
       = set (get_keys (\<lambda>_. True) (m_manager_data m)) - m_temporary_uuid ` set rs
     \<and> m_temporary_uuid ` set rs \<subseteq> set (get_keys (\<lambda>_. True) (m_manager_data m'))"
proof -
  have room: "unat (m_current_epoch m) + length rs \<le> 2 ^ 64 - 1" using assms(4) by simp
  note all = rest_table.put_all[OF assms(1-3) room, of hash_of, folded m'_def]
  have stamped: "was_touched_after (m_current_epoch m) x \<longleftrightarrow> u \<in> m_temporary_uuid ` set rs"
    if "find_entry m' u = Some x" for u x
    using rest_table.stamped_iff_stored[OF assms(1-3) room, of hash_of u x] that
    by (simp add: m'_def was_touched_after_def word_less_nat_alt)
  from all have inv': "rest_inv m'" by blast
  have "u \<in> set (get_keys (\<lambda>e. \<not> was_touched_after (m_current_epoch m) e) (m_manager_data m'))
    \<longleftrightarrow> u \<in> set (get_keys (\<lambda>_. True) (m_manager_data m)) - m_temporary_uuid ` set rs" for u
    using all stamped[of u] by (auto simp: rest_keys[OF inv'] rest_keys[OF assms(1)])
  moreover have "m_temporary_uuid ` set rs \<subseteq> set (get_keys (\<lambda>_. True) (m_manager_data m'))"
    using all by (auto simp: rest_keys[OF inv'])
  ultimately show ?thesis by blast
qed

theorem untouched_after_polling_witness:
  "set (get_keys (\<lambda>e. \<not> was_touched_after 5 e)
     (m_manager_data (snd (add_or_update_entry example_hash (example_resource ''b'' 2) example_manager)))) = {''a''}"
proof -
  have k: "m_temporary_uuid (example_resource u i) = u" "get_uuid (example_resource u i) = u"
    "m_is_uuid_persistent (example_resource u i) = False" "m_touched_at (example_resource u i) = 0"
    "m_parent_uuid (example_resource u i) = ''sys''" for u i
    by (simp_all add: example_defs get_uuid_def)
  have d: "m_manager_data example_manager = [example_resource ''a'' 1, example_resource ''b'' 2]"
    "m_current_epoch example_manager = 5" by (simp_all add: example_manager_def)
  have pre: "rest_inv example_manager" "\<forall>r \<in> set [example_resource ''b'' 2]. rest_acceptable r example_manager"
    by (simp_all add: rest_inv_def rest_acceptable_def find_entry_def d k uuid_matches_def)
  show ?thesis
    using untouched_after_polling[OF pre, of example_hash] by (auto simp: d k)
qed

text \<open>
  The REST identifier and the UUID of an entry with a parent determine each other. In a table of the REST
  server without persistent UUIDs, whose identifiers are unique within a parent, translating an entry's UUID to its
  identifier and back under the entry's parent gives the UUID.
\<close>

theorem rest_id_roundtrip:
  assumes inv: "rest_inv m" and persistent: "\<forall>e \<in> set (m_manager_data m). m_persistent_uuid e = []"
    and ids: "distinct (map (\<lambda>e. (m_parent_uuid e, m_id e)) (m_manager_data m))"
    and e: "e \<in> set (m_manager_data m)" "m_parent_uuid e \<noteq> []" "get_uuid e \<noteq> []"
  shows "\<exists>i. uuid_to_rest_id m (get_uuid e) = Inr i \<and> rest_id_to_uuid m i (m_parent_uuid e) = Inr (get_uuid e)"
proof -
  have unique: "x = e" if "x \<in> set (m_manager_data m)" "m_parent_uuid x = m_parent_uuid e" "m_id x = m_id e" for x
    using that e(1) ids by (auto simp: distinct_map inj_on_def)
  have own: "x = e" if "x \<in> set (m_manager_data m)" "any_uuid_matches (get_uuid e) x" for x
    using that e persistent inv by (auto simp: any_uuid_matches_def rest_inv_def get_uuid_def distinct_map inj_on_def)
  have "find (any_uuid_matches (get_uuid e)) (m_manager_data m) = Some e"
    using own e(1) find_in_set by (cases "find (any_uuid_matches (get_uuid e)) (m_manager_data m)")
      (fastforce simp: find_None_iff any_uuid_matches_def get_uuid_def)+
  moreover have "find (\<lambda>x. m_parent_uuid x = m_parent_uuid e \<and> m_id x = m_id e) (m_manager_data m) = Some e"
    using unique e(1) find_in_set by (cases "find (\<lambda>x. m_parent_uuid x = m_parent_uuid e \<and> m_id x = m_id e) (m_manager_data m)")
      (fastforce simp: find_None_iff)+
  ultimately show ?thesis
    using e(2) by (simp add: uuid_to_rest_id_def rest_id_to_uuid_def find_uuid_by_id_and_parent_def)
qed

theorem rest_id_roundtrip_witness:
  "\<exists>i. uuid_to_rest_id example_manager ''b'' = Inr i \<and> rest_id_to_uuid example_manager i ''sys'' = Inr ''b''"
proof -
  have k: "m_temporary_uuid (example_resource u i) = u" "get_uuid (example_resource u i) = u"
    "m_is_uuid_persistent (example_resource u i) = False" "m_touched_at (example_resource u i) = 0"
    "m_persistent_uuid (example_resource u i) = []" "m_id (example_resource u i) = i"
    "m_parent_uuid (example_resource u i) = ''sys''" for u i
    by (simp_all add: example_defs get_uuid_def)
  have d: "m_manager_data example_manager = [example_resource ''a'' 1, example_resource ''b'' 2]"
    "m_current_epoch example_manager = 5" by (simp_all add: example_manager_def)
  show ?thesis
    using rest_id_roundtrip[of example_manager "example_resource ''b'' 2"] by (simp add: rest_inv_def d k)
qed

text \<open>
  C31: the task table stores exactly what the general table stores, and calls the completion
  notifiers of a task exactly when the task was known, changed and has an end time.
\<close>

theorem task_add_or_update_notifies:
  "map_prod (map_sum id fst) id (task_add_or_update_entry hash_of t m) = add_or_update_entry hash_of t m
   \<and> (\<forall>status called m'. task_add_or_update_entry hash_of t m = (Inr (status, called), m')
        \<longrightarrow> called = (if status \<in> {StatusChanged, Updated} \<and> m_end_time t \<noteq> None then m_completion_notifiers t else []))"
proof -
  have t: "m_end_time (touch n t) = m_end_time t" "m_completion_notifiers (touch n t) = m_completion_notifiers t" for n
    by (simp_all add: touch_def)
  have c: "compare_hashes a b \<noteq> Added" for a b by (simp add: compare_hashes_def)
  have s: "compare_hashes a b \<noteq> NoUpdate \<longleftrightarrow> compare_hashes a b \<in> {StatusChanged, Updated}" for a b
    by (simp add: compare_hashes_def)
  show ?thesis
    by (auto simp: task_add_or_update_entry_def add_or_update_entry_def Let_def t s c split: option.splits)
qed

definition example_task :: "string option \<Rightarrow> nat task_resource" where
  "example_task ended = resource.extend (new_resource ''t'' [] ''None'')
     (task_resource.fields (Some ''08:00'') ended None [] [7])"

theorem task_add_or_update_notifies_witness:
  "\<exists>m'. task_add_or_update_entry (\<lambda>t. \<lparr> hash_status = [], hash_resource_without_status = case m_end_time t of Some s \<Rightarrow> s | None \<Rightarrow> [] \<rparr>)
     (example_task (Some ''09:00'')) \<lparr> m_manager_data = [example_task None], m_current_epoch = 1 \<rparr> = (Inr (Updated, [7]), m')"
proof -
  let ?h = "\<lambda>t :: nat task_resource. \<lparr> hash_status = [], hash_resource_without_status = case m_end_time t of Some s \<Rightarrow> s | None \<Rightarrow> [] \<rparr>"
  let ?m = "\<lparr> m_manager_data = [example_task None], m_current_epoch = 1 \<rparr>"
  have "fst (add_or_update_entry ?h (example_task (Some ''09:00'')) ?m) = Inr Updated"
    by (simp add: add_or_update_entry_def Let_def find_entry_def uuid_matches_def get_uuid_def example_task_def
        new_resource_def resource.defs task_resource.defs touch_def compare_hashes_def)
  then obtain c m' where r: "task_add_or_update_entry ?h (example_task (Some ''09:00'')) ?m = (Inr (Updated, c), m')"
    using task_add_or_update_notifies[of ?h "example_task (Some ''09:00'')" ?m]
    by (cases "task_add_or_update_entry ?h (example_task (Some ''09:00'')) ?m")
      (auto simp: map_sum_def split: sum.splits dest!: arg_cong[where f = fst])
  moreover have "c = [7]"
    using task_add_or_update_notifies[of ?h "example_task (Some ''09:00'')" ?m] r
    by (auto simp: example_task_def resource.defs task_resource.defs new_resource_def)
  ultimately show ?thesis by blast
qed

text \<open>
  \<open>find_component\<close> names the component of the first registered table that holds the UUID,
  and \<open>None\<close> when no table does.
\<close>

theorem find_component_first:
  "find_component tables u = (case find (\<lambda>(_, exists). exists u) tables of Some (name, _) \<Rightarrow> name | None \<Rightarrow> ''None'')"
proof -
  have "for_each_table (\<lambda>(comp, exists) found. if exists u then (False, comp) else (True, found)) tables c
     = (case find (\<lambda>(_, exists). exists u) tables of Some (name, _) \<Rightarrow> name | None \<Rightarrow> c)" for c
    by (induction tables) (auto split: option.splits)
  then show ?thesis by (simp add: find_component_def)
qed

end
