(* ===== verification/State_Machine.thy ===== *)
theory State_Machine
  imports PSME_Prelude
begin

text \<open>
  The table-driven state machine \<open>EnumStateMachine\<close> (\<open>enum_state_machine.hpp\<close>, of which the
  PNC agent has an identical copy) and the machine that follows a baseboard management
  controller, \<open>BmcStateMachine\<close> (\<open>bmc_state_machine.hpp\<close>). Guards, actions and the functors
  that read the hardware work on a world of type \<open>'w\<close> and may throw exceptions of type \<open>'x\<close>;
  they are arguments of the model because they are virtual or passed to the constructors.
\<close>

subsection \<open>Table-driven machines\<close>

text \<open>
  Guards and actions receive the transition; what they can read of it are its two states
  and its event.
\<close>

type_synonym ('s, 'e, 'w, 'x) state_machine_function = "'s \<times> 'e \<times> 's \<Rightarrow> ('w, 'x, bool) eff"

record ('s, 'e, 'w, 'x) transition =
  init_state :: 's
  event :: 'e
  end_state :: 's
  action :: "('s, 'e, 'w, 'x) state_machine_function"
  guard :: "('s, 'e, 'w, 'x) state_machine_function"

definition do_nothing :: "('s, 'e, 'w, 'x) state_machine_function" where
  "do_nothing t = eret True"

definition always :: "('s, 'e, 'w, 'x) state_machine_function" where
  "always t = eret True"

definition new_transition ::
    "'s \<Rightarrow> 'e \<Rightarrow> 's \<Rightarrow> ('s, 'e, 'w, 'x) state_machine_function \<Rightarrow> ('s, 'e, 'w, 'x) transition" where
  "new_transition i_s e e_s a = \<lparr> init_state = i_s, event = e, end_state = e_s, action = a, guard = always \<rparr>"

definition add_transition ::
    "('s, 'e, 'w, 'x) transition \<Rightarrow> ('s, 'e, 'w, 'x) transition list \<Rightarrow> ('s, 'e, 'w, 'x) transition list" where
  "add_transition t table = table @ [t]"

definition view :: "('s, 'e, 'w, 'x) transition \<Rightarrow> 's \<times> 'e \<times> 's" where
  "view t = (init_state t, event t, end_state t)"

definition do_guard_check :: "('s, 'e, 'w, 'x) transition \<Rightarrow> ('w, 'x, bool) eff" where
  "do_guard_check t = guard t (view t)"

definition do_transition :: "('s, 'e, 'w, 'x) transition \<Rightarrow> ('w, 'x, bool) eff" where
  "do_transition t = action t (view t)"

text \<open>
  \<open>send_event\<close> runs through the table; the first transition that starts in the current
  state, has the event and passes its guard is performed, and the state changes only when
  its action returns true. The machine is the current state with the world beside it.
\<close>

fun send_event :: "('s, 'e, 'w, 'x) transition list \<Rightarrow> 'e \<Rightarrow> ('s \<times> 'w, 'x, bool) eff" where
  "send_event [] ev (current, w) = (Inr True, (current, w))"
| "send_event (t # ts) ev (current, w) =
     (if init_state t = current \<and> event t = ev
      then case do_guard_check t w of
             (Inl x, w1) \<Rightarrow> (Inl x, (current, w1))
           | (Inr False, w1) \<Rightarrow> send_event ts ev (current, w1)
           | (Inr True, w1) \<Rightarrow>
               (case do_transition t w1 of
                  (Inl x, w2) \<Rightarrow> (Inl x, (current, w2))
                | (Inr False, w2) \<Rightarrow> (Inr False, (current, w2))
                | (Inr True, w2) \<Rightarrow> (Inr True, (end_state t, w2)))
      else send_event ts ev (current, w))"

lemma always_apply [simp]: "always t w = (Inr True, w)"
  by (simp add: always_def)

lemma do_nothing_apply [simp]: "do_nothing t w = (Inr True, w)"
  by (simp add: do_nothing_def)

lemma new_transition_simps [simp]:
  "init_state (new_transition i e f a) = i" "event (new_transition i e f a) = e"
  "end_state (new_transition i e f a) = f" "action (new_transition i e f a) = a"
  "guard (new_transition i e f a) = always" "view (new_transition i e f a) = (i, e, f)"
  by (simp_all add: new_transition_def view_def)

subsection \<open>Tables in which at most one transition applies\<close>

text \<open>
  Both machines of the PSME use unguarded transitions with at most one per state and event;
  what the agents rely on is proved once for such tables.
\<close>

locale deterministic_table =
  fixes table :: "('s, 'e, 'w, 'x) transition list"
  assumes unguarded: "t \<in> set table \<Longrightarrow> guard t = always"
    and one_per_event: "distinct (map (\<lambda>t. (init_state t, event t)) table)"
begin

lemma send_event_ignored:
  assumes "\<forall>t \<in> set table. (init_state t, event t) \<noteq> (current, ev)"
  shows "send_event table ev (current, w) = (Inr True, (current, w))"
proof -
  have "send_event ts ev (current, w) = (Inr True, (current, w))"
    if "\<forall>t \<in> set ts. (init_state t, event t) \<noteq> (current, ev)" for ts
    using that by (induction ts) auto
  with assms show ?thesis by blast
qed

lemma send_event_performs:
  assumes t: "t \<in> set table" and run: "action t (view t) w = (r, w')"
  shows "send_event table (event t) (init_state t, w) =
    (r, (if r = Inr True then end_state t else init_state t, w'))"
proof -
  have "send_event ts (event t) (init_state t, w) = (r, (if r = Inr True then end_state t else init_state t, w'))"
    if "t \<in> set ts" "\<forall>u \<in> set ts. guard u = always" "distinct (map (\<lambda>u. (init_state u, event u)) ts)" for ts
    using that
  proof (induction ts)
    case (Cons u us)
    show ?case
    proof (cases "u = t")
      case True
      with Cons.prems run show ?thesis
        by (auto simp: do_guard_check_def do_transition_def split: sum.splits bool.splits)
    next
      case False
      with Cons.prems have "(init_state u, event u) \<noteq> (init_state t, event t)" by (auto simp: image_iff)
      with False Cons show ?thesis by auto
    qed
  qed simp
  with t unguarded one_per_event show ?thesis by blast
qed

text \<open>The state changes only along a transition of the table whose action returned true.\<close>

lemma send_event_moves_along_table:
  assumes "send_event table ev (current, w) = (r, (current', w'))"
  shows "current' = current
    \<or> (\<exists>t \<in> set table. init_state t = current \<and> event t = ev \<and> end_state t = current'
         \<and> action t (view t) w = (Inr True, w') \<and> r = Inr True)"
proof (cases "\<exists>t \<in> set table. (init_state t, event t) = (current, ev)")
  case True
  then obtain t where t: "t \<in> set table" "init_state t = current" "event t = ev" by auto
  obtain r1 w1 where run: "action t (view t) w = (r1, w1)" by fastforce
  from send_event_performs[OF t(1) run] assms t show ?thesis
    by (auto simp: run split: if_splits)
next
  case False
  with send_event_ignored assms show ?thesis by fastforce
qed

end

subsection \<open>The machine that follows a BMC\<close>

datatype bmc_state = ABSENT | OFFLINE | ONLINE

datatype bmc_event = Inserted | Extracted | BecameOnline | BecameOffline

type_synonym ('w, 'x) bmc_action = "bmc_state \<times> bmc_event \<times> bmc_state \<Rightarrow> ('w, 'x, bool) eff"

text \<open>The functors given to the constructor and the virtual actions of the derived classes.\<close>

record ('w, 'x) bmc_hooks =
  read_presence :: "('w, 'x, bool) eff"
  read_online_status :: "('w, 'x, bool) eff"
  on_insertion :: "('w, 'x) bmc_action"
  on_extraction :: "('w, 'x) bmc_action"
  on_become_online :: "('w, 'x) bmc_action"
  on_become_offline :: "('w, 'x) bmc_action"

definition bmc_table :: "('w, 'x) bmc_hooks \<Rightarrow> (bmc_state, bmc_event, 'w, 'x) transition list" where
  "bmc_table h =
     [new_transition ABSENT Inserted OFFLINE (on_insertion h),
      new_transition OFFLINE BecameOnline ONLINE (on_become_online h),
      new_transition OFFLINE Extracted ABSENT (on_extraction h),
      new_transition ONLINE BecameOffline OFFLINE (on_become_offline h),
      new_transition ONLINE Extracted ABSENT (on_extraction h)]"

record 'w bmc =
  bmc_current :: bmc_state
  m_is_present :: bool
  m_is_online :: bool
  bmc_world :: 'w

definition new_bmc :: "'w \<Rightarrow> 'w bmc" where
  "new_bmc w = \<lparr> bmc_current = ABSENT, m_is_present = False, m_is_online = False, bmc_world = w \<rparr>"

definition bmc_read :: "('w, 'x, bool) eff \<Rightarrow> ('w bmc, 'x, bool) eff" where
  "bmc_read f b = (case f (bmc_world b) of (r, w) \<Rightarrow> (r, b\<lparr> bmc_world := w \<rparr>))"

definition bmc_send_event :: "('w, 'x) bmc_hooks \<Rightarrow> bmc_event \<Rightarrow> ('w bmc, 'x, bool) eff" where
  "bmc_send_event h ev b =
     (case send_event (bmc_table h) ev (bmc_current b, bmc_world b) of
        (r, (s, w)) \<Rightarrow> (r, b\<lparr> bmc_current := s, bmc_world := w \<rparr>))"

definition update_presence :: "('w, 'x) bmc_hooks \<Rightarrow> ('w bmc, 'x, unit) eff" where
  "update_presence h =
     ebind (bmc_read (read_presence h)) (\<lambda>is_present.
     ebind (eget m_is_present) (\<lambda>was_present.
       if is_present \<noteq> was_present
       then ebind (bmc_send_event h (if is_present then Inserted else Extracted)) (\<lambda>_.
            emodify (\<lambda>b. b\<lparr> m_is_present := is_present \<rparr>))
       else eret ()))"

definition update_online_state :: "('w, 'x) bmc_hooks \<Rightarrow> ('w bmc, 'x, unit) eff" where
  "update_online_state h =
     ebind (eget m_is_present) (\<lambda>is_present.
       if is_present
       then ebind (bmc_read (read_online_status h)) (\<lambda>is_online.
            ebind (eget m_is_online) (\<lambda>was_online.
              if is_online \<noteq> was_online
              then ebind (bmc_send_event h (if is_online then BecameOnline else BecameOffline)) (\<lambda>_.
                   emodify (\<lambda>b. b\<lparr> m_is_online := is_online \<rparr>))
              else eret ()))
       else emodify (\<lambda>b. b\<lparr> m_is_online := False \<rparr>))"

text \<open>\<open>update_state\<close> logs and swallows every exception.\<close>

definition update_state :: "('w, 'x) bmc_hooks \<Rightarrow> 'w bmc \<Rightarrow> 'w bmc" where
  "update_state h b = snd (ecatch (eseq (update_presence h) (update_online_state h)) (\<lambda>_. eret ()) b)"

interpretation bmc_machine: deterministic_table "bmc_table h" for h
  by unfold_locales (auto simp: bmc_table_def)

lemma bmc_send_event_cases:
  "bmc_send_event h ev b =
    (let run = (\<lambda>act s'. case act (bmc_current b, ev, s') (bmc_world b) of
                   (r, w) \<Rightarrow> (r, b\<lparr> bmc_current := if r = Inr True then s' else bmc_current b, bmc_world := w \<rparr>))
     in case (bmc_current b, ev) of
          (ABSENT, Inserted) \<Rightarrow> run (on_insertion h) OFFLINE
        | (OFFLINE, BecameOnline) \<Rightarrow> run (on_become_online h) ONLINE
        | (OFFLINE, Extracted) \<Rightarrow> run (on_extraction h) ABSENT
        | (ONLINE, BecameOffline) \<Rightarrow> run (on_become_offline h) OFFLINE
        | (ONLINE, Extracted) \<Rightarrow> run (on_extraction h) ABSENT
        | _ \<Rightarrow> (Inr True, b))"
  by (cases "bmc_current b"; cases ev)
    (auto simp: bmc_send_event_def bmc_table_def do_guard_check_def do_transition_def
       split: prod.splits sum.splits bool.splits)

subsection \<open>The machine agrees with what it last saw\<close>

text \<open>The state that the two flags of the machine stand for.\<close>

definition flags_state :: "bool \<Rightarrow> bool \<Rightarrow> bmc_state" where
  "flags_state present online = (if \<not> present then ABSENT else if online then ONLINE else OFFLINE)"

definition bmc_consistent :: "'w bmc \<Rightarrow> bool" where
  "bmc_consistent b \<longleftrightarrow> bmc_current b = flags_state (m_is_present b) (m_is_online b)
     \<and> (m_is_online b \<longrightarrow> m_is_present b)"

text \<open>Actions that either succeed or throw.\<close>

definition never_false :: "('w, 'x) bmc_action \<Rightarrow> bool" where
  "never_false act \<longleftrightarrow> (\<forall>t w. fst (act t w) \<noteq> Inr False)"

definition good_hooks :: "('w, 'x) bmc_hooks \<Rightarrow> bool" where
  "good_hooks h \<longleftrightarrow> never_false (on_insertion h) \<and> never_false (on_extraction h)
     \<and> never_false (on_become_online h) \<and> never_false (on_become_offline h)"

lemma never_falseD: "\<lbrakk>never_false act; act t w = (Inr v, w')\<rbrakk> \<Longrightarrow> v"
  by (metis fst_conv never_false_def)

text \<open>
  The machines that appear between updates, when every update is one of the behaviours \<open>H\<close>
  of the hardware and of the actions, and the world changes freely in between.
\<close>

inductive bmc_reachable :: "('w, 'x) bmc_hooks set \<Rightarrow> 'w bmc \<Rightarrow> bool" for H where
  start: "bmc_reachable H (new_bmc w)"
| tick: "\<lbrakk>bmc_reachable H b; h \<in> H\<rbrakk> \<Longrightarrow> bmc_reachable H (update_state h b)"
| world: "bmc_reachable H b \<Longrightarrow> bmc_reachable H (b\<lparr> bmc_world := w \<rparr>)"

text \<open>The state the table leads to.\<close>

fun bmc_next :: "bmc_state \<Rightarrow> bmc_event \<Rightarrow> bmc_state" where
  "bmc_next ABSENT Inserted = OFFLINE"
| "bmc_next OFFLINE BecameOnline = ONLINE"
| "bmc_next OFFLINE Extracted = ABSENT"
| "bmc_next ONLINE BecameOffline = OFFLINE"
| "bmc_next ONLINE Extracted = ABSENT"
| "bmc_next s _ = s"

lemma bmc_send_event_good:
  assumes "good_hooks h" and "bmc_send_event h ev b = (r, b')"
  shows "bmc_current b' = (case r of Inl _ \<Rightarrow> bmc_current b | Inr _ \<Rightarrow> bmc_next (bmc_current b) ev)
     \<and> m_is_present b' = m_is_present b \<and> m_is_online b' = m_is_online b"
  using assms
  by (cases "bmc_current b"; cases ev)
    (auto simp: bmc_send_event_cases Let_def good_hooks_def split: prod.splits sum.splits if_splits dest: never_falseD)

lemma bmc_read_keeps:
  "bmc_read f b = (r, b') \<Longrightarrow> bmc_current b' = bmc_current b \<and> m_is_present b' = m_is_present b \<and> m_is_online b' = m_is_online b"
  by (auto simp: bmc_read_def split: prod.splits)

lemma update_presence_good:
  assumes "good_hooks h" and "bmc_consistent b" and "update_presence h b = (r, b')"
  shows "bmc_current b' = flags_state (m_is_present b') (m_is_online b') \<and> (\<forall>x. r = Inl x \<longrightarrow> bmc_consistent b')"
  using assms(2,3)
  by (auto simp: update_presence_def eff_simps bmc_consistent_def flags_state_def
        split: prod.splits sum.splits if_splits dest!: bmc_read_keeps bmc_send_event_good[OF assms(1)])

lemma update_online_state_good:
  assumes "good_hooks h" and "bmc_current b = flags_state (m_is_present b) (m_is_online b)"
    and "update_online_state h b = (r, b')"
  shows "bmc_consistent b'"
  using assms(2,3)
  by (auto simp: update_online_state_def eff_simps bmc_consistent_def flags_state_def
        split: prod.splits sum.splits if_splits dest!: bmc_read_keeps bmc_send_event_good[OF assms(1)])

lemma update_state_consistent:
  assumes "good_hooks h" and "bmc_consistent b"
  shows "bmc_consistent (update_state h b)"
proof -
  obtain r b1 where p: "update_presence h b = (r, b1)" by fastforce
  obtain r2 b2 where q: "update_online_state h b1 = (r2, b2)" by fastforce
  note first = update_presence_good[OF assms p]
  then have "bmc_consistent b2" using update_online_state_good[OF assms(1) _ q] by blast
  with first p q show ?thesis
    by (cases r; cases r2) (auto simp: update_state_def eff_simps)
qed

text \<open>
  C25: as long as the actions of a BMC either succeed or throw, the state machine agrees with
  the presence and online flags it last saw after every update, whatever the hardware reads
  and whichever exceptions are thrown on the way.
\<close>

theorem bmc_reachable_consistent:
  assumes "bmc_reachable H b" and "\<forall>h \<in> H. good_hooks h"
  shows "bmc_consistent b"
  using assms
proof (induction rule: bmc_reachable.induct)
  case (start w)
  then show ?case by (simp add: bmc_consistent_def new_bmc_def flags_state_def)
next
  case (tick b h)
  then show ?case by (simp add: update_state_consistent)
next
  case (world b w)
  then show ?case by (simp add: bmc_consistent_def)
qed

definition ok_action :: "(nat, string) bmc_action" where
  "ok_action t = eret True"

text \<open>Hardware that reads as given, with actions that succeed.\<close>

definition steady_hooks :: "bool \<Rightarrow> bool \<Rightarrow> (nat, string) bmc_hooks" where
  "steady_hooks present online =
     \<lparr> read_presence = eret present, read_online_status = eret online,
       on_insertion = ok_action, on_extraction = ok_action,
       on_become_online = ok_action, on_become_offline = ok_action \<rparr>"

lemma good_steady_hooks [simp]: "good_hooks (steady_hooks p q)"
  by (simp add: good_hooks_def never_false_def steady_hooks_def ok_action_def)

theorem bmc_reachable_consistent_witness:
  "bmc_consistent (update_state (steady_hooks True True) (new_bmc 0))"
  using bmc_reachable_consistent[of "{steady_hooks True True}"]
  by (simp add: bmc_reachable.intros)

text \<open>
  C27: One update brings a consistent machine to the state the hardware is in - absent, present and
  offline, or present and online - when neither part of the update throws and the actions
  do not return false. Reading and actions are those of the update itself. (An action that
  returns false leaves the machine behind, see \<open>bmc_failed_insertion_sticks\<close> below; an exception ends the update
  with the machine consistent, as shown above.)
\<close>

theorem bmc_update_tracks_hardware:
  assumes b: "bmc_consistent b" and h: "good_hooks h"
    and first: "update_presence h b = (Inr (), b1)" and second: "update_online_state h b1 = (Inr (), b2)"
    and presence: "read_presence h (bmc_world b) = (Inr present, w1)"
    and online: "present \<Longrightarrow> read_online_status h (bmc_world b1) = (Inr on, w2)"
  shows "bmc_current (update_state h b) = flags_state present on"
proof -
  have "update_state h b = b2" using first second by (simp add: update_state_def eff_simps)
  moreover have b1: "bmc_current b1 = flags_state (m_is_present b1) (m_is_online b1)"
    using update_presence_good[OF h b first] by blast
  have "bmc_consistent b2" using update_online_state_good[OF h b1 second] .
  moreover have p: "m_is_present b1 = present"
    using first presence by (auto simp: update_presence_def eff_simps bmc_read_def
        split: prod.splits sum.splits if_splits dest!: bmc_send_event_good[OF h])
  moreover have "m_is_present b2 = m_is_present b1" "m_is_present b1 \<Longrightarrow> m_is_online b2 = on"
    using second online p by (auto simp: update_online_state_def eff_simps bmc_read_def
        split: prod.splits sum.splits if_splits dest!: bmc_send_event_good[OF h])
  ultimately show ?thesis by (cases present) (auto simp: bmc_consistent_def flags_state_def)
qed

theorem bmc_update_tracks_hardware_witness:
  "bmc_current (update_state (steady_hooks True False) (update_state (steady_hooks True True) (new_bmc 0))) = OFFLINE"
proof -
  let ?h = "steady_hooks True False" and ?b = "update_state (steady_hooks True True) (new_bmc 0)"
  have b: "?b = \<lparr> bmc_current = ONLINE, m_is_present = True, m_is_online = True, bmc_world = 0 \<rparr>" by code_simp
  have reads: "read_presence ?h w = (Inr True, w)" "read_online_status ?h w = (Inr False, w)" for w by (simp_all add: steady_hooks_def)
  have "bmc_consistent ?b" by (simp add: b bmc_consistent_def flags_state_def)
  moreover have "update_presence ?h ?b = (Inr (), ?b)" "update_online_state ?h ?b = (Inr (), ?b\<lparr> bmc_current := OFFLINE, m_is_online := False \<rparr>)"
    unfolding b by code_simp+
  ultimately have "bmc_current (update_state ?h ?b) = flags_state True False"
    using bmc_update_tracks_hardware[OF _ good_steady_hooks, where ?w1.0 = "bmc_world ?b" and ?w2.0 = "bmc_world ?b"] reads by blast
  then show ?thesis by (simp add: flags_state_def)
qed

text \<open>A machine that counts its BMC as present although the insertion was never performed.\<close>

lemma update_state_sticks:
  assumes "bmc_current b = ABSENT" and "m_is_present b"
    and presence: "\<forall>w. \<exists>w'. read_presence h w = (Inr True, w')"
  shows "bmc_current (update_state h b) = ABSENT \<and> m_is_present (update_state h b)"
proof -
  have p: "fst (read_presence h w) = Inr True" for w using presence by (metis fst_conv)
  obtain w1 where "update_presence h b = (Inr (), b\<lparr> bmc_world := w1 \<rparr>)"
    using assms(2) p[of "bmc_world b"]
    by (simp add: update_presence_def eff_simps bmc_read_def case_prod_unfold)
  then show ?thesis
    using assms(1,2)
    by (auto simp: update_state_def update_online_state_def eff_simps bmc_read_def bmc_send_event_cases Let_def
          split: prod.splits sum.splits)
qed

text \<open>
  An insertion whose action returns false, without throwing, is never tried again while
  the BMC stays present: the machine has already recorded the BMC as present, so it remains
  absent for every number of further updates, whatever the actions do then. (The comment in
  the code says the flag is updated only when the action succeeds.)
\<close>

theorem bmc_failed_insertion_sticks:
  assumes fails: "\<forall>t w. \<exists>w'. on_insertion h0 t w = (Inr False, w')"
    and presence0: "\<forall>w. \<exists>w'. read_presence h0 w = (Inr True, w')"
    and presence: "\<forall>w. \<exists>w'. read_presence h w = (Inr True, w')"
  shows "bmc_current ((update_state h ^^ n) (update_state h0 (new_bmc w))) = ABSENT"
proof -
  have p: "fst (read_presence h0 v) = Inr True" "fst (on_insertion h0 t v) = Inr False" for v t
    using presence0 fails by (metis fst_conv)+
  obtain w1 where u: "update_presence h0 (new_bmc w) = (Inr (), (new_bmc w1)\<lparr> m_is_present := True \<rparr>)"
    by (simp add: update_presence_def eff_simps bmc_read_def bmc_send_event_cases Let_def new_bmc_def
          case_prod_unfold p)
  have first: "bmc_current (update_state h0 (new_bmc w)) = ABSENT \<and> m_is_present (update_state h0 (new_bmc w))"
    using u by (auto simp: update_state_def update_online_state_def eff_simps bmc_read_def bmc_send_event_cases
        Let_def new_bmc_def split: prod.splits sum.splits)
  have "bmc_current ((update_state h ^^ n) b) = ABSENT \<and> m_is_present ((update_state h ^^ n) b)"
    if "bmc_current b = ABSENT" "m_is_present b" for b
    using that by (induction n) (auto simp: update_state_sticks[OF _ _ presence])
  with first show ?thesis by blast
qed

theorem bmc_failed_insertion_sticks_witness:
  "bmc_current ((update_state (steady_hooks True True) ^^ 7)
     (update_state ((steady_hooks True True)\<lparr> on_insertion := \<lambda>t. eret False \<rparr>) (new_bmc 0))) = ABSENT"
  by (rule bmc_failed_insertion_sticks) (simp_all add: steady_hooks_def)

end
