(* ===== verification/Cpp_Strings.thy ===== *)
theory Cpp_Strings
  imports PSME_Prelude
begin

text \<open>
  The operations of \<open>std::string\<close> and of the string streams that the database and the parsers
  of the PSME use: searching for characters and substrings, reading up to a separator,
  printing and reading decimal numbers. They model the C++ standard library; nothing here
  models a file of the repository by itself.
\<close>

subsection \<open>Searching\<close>

text \<open>\<open>find\<close> and \<open>rfind\<close> of a character; \<open>None\<close> stands for \<open>npos\<close>.\<close>

definition find_char :: "char \<Rightarrow> string \<Rightarrow> nat option" where
  "find_char c s = (if c \<in> set s then Some (length (takeWhile (\<lambda>x. x \<noteq> c) s)) else None)"

definition rfind_char :: "char \<Rightarrow> string \<Rightarrow> nat option" where
  "rfind_char c s = (if c \<in> set s then Some (length s - 1 - length (takeWhile (\<lambda>x. x \<noteq> c) (rev s))) else None)"

definition matches_at :: "string \<Rightarrow> string \<Rightarrow> nat \<Rightarrow> bool" where
  "matches_at pat s i \<longleftrightarrow> take (length pat) (drop i s) = pat"

text \<open>\<open>find\<close> and \<open>rfind\<close> of a string.\<close>

definition find_str :: "string \<Rightarrow> string \<Rightarrow> nat option" where
  "find_str pat s = find (matches_at pat s) [0..<Suc (length s)]"

definition rfind_str :: "string \<Rightarrow> string \<Rightarrow> nat option" where
  "rfind_str pat s = find (matches_at pat s) (rev [0..<Suc (length s)])"

definition contains :: "string \<Rightarrow> string \<Rightarrow> bool" where
  "contains pat s \<longleftrightarrow> find_str pat s \<noteq> None"

text \<open>\<open>substr\<close> with a position that lies in the string.\<close>

definition substr :: "nat \<Rightarrow> nat \<Rightarrow> string \<Rightarrow> string" where
  "substr pos len s = take len (drop pos s)"

lemma takeWhile_neq_append [simp]: "c \<notin> set a \<Longrightarrow> takeWhile (\<lambda>x. x \<noteq> c) (a @ c # b) = a"
  by (induction a) auto

lemma find_char_append [simp]: "c \<notin> set a \<Longrightarrow> find_char c (a @ c # b) = Some (length a)"
  by (simp add: find_char_def)

lemma rfind_char_append [simp]: "c \<notin> set b \<Longrightarrow> rfind_char c (a @ c # b) = Some (length a)"
  by (simp add: rfind_char_def)

lemma find_char_None [simp]: "find_char c s = None \<longleftrightarrow> c \<notin> set s"
  by (simp add: find_char_def)

lemma rfind_char_None [simp]: "rfind_char c s = None \<longleftrightarrow> c \<notin> set s"
  by (simp add: rfind_char_def)

lemma find_char_SomeD:
  "find_char c s = Some i \<Longrightarrow> i < length s \<and> s = take i s @ c # drop (Suc i) s \<and> c \<notin> set (take i s)"
proof -
  assume f: "find_char c s = Some i"
  then have "c \<in> set s" by (metis find_char_None option.distinct(1))
  then obtain a b where s: "s = a @ c # b" "c \<notin> set a" by (meson split_list_first)
  with f show ?thesis by simp
qed

lemma contains_iff: "contains pat s \<longleftrightarrow> (\<exists>i. matches_at pat s i)"
proof -
  have "\<exists>j \<le> length s. matches_at pat s j" if "matches_at pat s i" for i
  proof (cases "i \<le> length s")
    case False
    with that have "pat = []" by (simp add: matches_at_def)
    then have "matches_at pat s 0" by (simp add: matches_at_def)
    then show ?thesis by blast
  qed (use that in blast)
  then show ?thesis
    by (auto simp: contains_def find_str_def find_None_iff simp del: upt_Suc) (meson le_imp_less_Suc)
qed

lemma matches_at_append: "matches_at pat (a @ pat @ b) (length a)"
  by (simp add: matches_at_def)

lemma contains_append [simp]: "contains pat (a @ pat @ b)"
  unfolding contains_iff using matches_at_append by blast

lemma contains_split: "contains pat s \<longleftrightarrow> (\<exists>a b. s = a @ pat @ b)"
proof
  assume "contains pat s"
  then obtain i where "take (length pat) (drop i s) = pat" by (auto simp: contains_iff matches_at_def)
  then have "s = take i s @ pat @ drop (length pat) (drop i s)"
    by (metis append_take_drop_id)
  then show "\<exists>a b. s = a @ pat @ b" by blast
qed auto

lemma contains_appendI: "contains pat a \<or> contains pat b \<Longrightarrow> contains pat (a @ b)"
  by (auto simp: contains_split) (metis append.assoc)+

text \<open>A pattern without the separator that occurs in two joined parts occurs in one of them.\<close>

lemma contains_sep:
  assumes "contains pat (a @ c # b)" and "c \<notin> set pat"
  shows "contains pat a \<or> contains pat b"
proof -
  from assms(1) obtain u v where "a @ c # b = u @ pat @ v" by (auto simp: contains_split)
  then consider w where "a = u @ w" "w @ c # b = pat @ v" | w where "a @ w = u" "c # b = w @ pat @ v"
    by (auto simp: append_eq_append_conv2)
  then show ?thesis
  proof cases
    case 1
    then consider z where "w = pat @ z" | z where "z \<noteq> []" "w @ z = pat" "c # b = z @ v"
      unfolding append_eq_append_conv2 by (metis append_Nil2)
    then show ?thesis
    proof cases
      case 1
      with \<open>a = u @ w\<close> show ?thesis by (auto simp: contains_split)
    next
      case 2
      with assms(2) show ?thesis by (cases z) auto
    qed
  next
    case 2
    show ?thesis
    proof (cases w)
      case Nil
      with 2 assms(2) show ?thesis by (cases pat) (auto simp: contains_split)
    next
      case (Cons x xs)
      with 2 show ?thesis by (auto simp: contains_split)
    qed
  qed
qed

subsection \<open>Lines of a stream\<close>

text \<open>
  \<open>std::getline\<close> with a separator: nothing at the end of the stream, otherwise the characters
  up to the separator, which is taken from the stream as well.
\<close>

definition getline :: "char \<Rightarrow> string \<Rightarrow> (string \<times> string) option" where
  "getline sep s = (if s = [] then None
     else Some (takeWhile (\<lambda>x. x \<noteq> sep) s, drop (Suc (length (takeWhile (\<lambda>x. x \<noteq> sep) s))) s))"

text \<open>The items a loop over \<open>getline\<close> runs through.\<close>

function getlines :: "char \<Rightarrow> string \<Rightarrow> string list" where
  "getlines sep s = (case getline sep s of None \<Rightarrow> [] | Some (item, rest) \<Rightarrow> item # getlines sep rest)"
  by pat_completeness auto
termination
  by (relation "measure (\<lambda>(sep, s). length s)") (auto simp: getline_def split: if_splits)

declare getlines.simps [simp del]

lemma getlines_Nil [simp]: "getlines sep [] = []"
  by (simp add: getlines.simps getline_def)

lemma getlines_item [simp]: "sep \<notin> set item \<Longrightarrow> getlines sep (item @ sep # rest) = item # getlines sep rest"
  by (subst getlines.simps) (auto simp: getline_def)

lemma getlines_concat:
  "\<forall>item \<in> set items. sep \<notin> set item \<Longrightarrow> getlines sep (concat (map (\<lambda>item. item @ [sep]) items) @ rest) = items @ getlines sep rest"
  by (induction items) auto

subsection \<open>Decimal numbers\<close>

definition digit_char :: "nat \<Rightarrow> char" where
  "digit_char d = char_of (48 + d)"

definition is_digit :: "char \<Rightarrow> bool" where
  "is_digit c \<longleftrightarrow> 48 \<le> (of_char c :: nat) \<and> (of_char c :: nat) \<le> 57"

definition is_space :: "char \<Rightarrow> bool" where
  "is_space c \<longleftrightarrow> (of_char c :: nat) \<in> {9, 10, 11, 12, 13, 32}"

definition digit_value :: "char \<Rightarrow> nat" where
  "digit_value c = of_char c - 48"

text \<open>\<open>std::to_string\<close> of an unsigned number.\<close>

fun to_string :: "nat \<Rightarrow> string" where
  "to_string n = (if n < 10 then [digit_char n] else to_string (n div 10) @ [digit_char (n mod 10)])"

declare to_string.simps [simp del]

definition digits_value :: "string \<Rightarrow> nat" where
  "digits_value s = fold (\<lambda>c v. 10 * v + digit_value c) s 0"

text \<open>
  What \<open>std::stoul\<close> and formatted stream input accept: white space, an optional sign and at
  least one digit; the rest of the string is left alone.
\<close>

definition scan_number :: "string \<Rightarrow> (int \<times> string) option" where
  "scan_number s =
     (let s1 = dropWhile is_space s;
          neg = (s1 \<noteq> [] \<and> hd s1 = CHR ''-'');
          s2 = (if s1 \<noteq> [] \<and> hd s1 \<in> {CHR ''-'', CHR ''+''} then tl s1 else s1);
          ds = takeWhile is_digit s2
      in if ds = [] then None
         else Some (if neg then - int (digits_value ds) else int (digits_value ds), dropWhile is_digit s2))"

text \<open>Formatted input of an \<open>int\<close>, which fails when the number does not fit.\<close>

definition scan_int :: "string \<Rightarrow> (int \<times> string) option" where
  "scan_int s = (case scan_number s of
     Some (v, rest) \<Rightarrow> if - (2 ^ 31) \<le> v \<and> v < 2 ^ 31 then Some (v, rest) else None
   | None \<Rightarrow> None)"

datatype number_error = InvalidArgument | OutOfRange

definition stoul :: "string \<Rightarrow> number_error + u64" where
  "stoul s = (case scan_number s of
     None \<Rightarrow> Inl InvalidArgument
   | Some (v, _) \<Rightarrow> if \<bar>v\<bar> < 2 ^ 64 then Inr (word_of_int v) else Inl OutOfRange)"

lemma digit_char_simps [simp]:
  assumes "d < 10"
  shows "is_digit (digit_char d)" "digit_value (digit_char d) = d" "\<not> is_space (digit_char d)"
    "digit_char d \<noteq> CHR ''-''" "digit_char d \<noteq> CHR ''+''"
proof -
  have v: "(of_char (digit_char d) :: nat) = 48 + d"
    using assms by (simp add: digit_char_def)
  then show "is_digit (digit_char d)" "digit_value (digit_char d) = d" "\<not> is_space (digit_char d)"
    using assms by (auto simp: is_digit_def digit_value_def is_space_def)
  show "digit_char d \<noteq> CHR ''-''" "digit_char d \<noteq> CHR ''+''"
    using v by (auto dest!: arg_cong[where f = "of_char :: char \<Rightarrow> nat"])
qed

lemma to_string_digits: "\<forall>c \<in> set (to_string n). \<exists>d < 10. c = digit_char d"
proof (induction n rule: to_string.induct)
  case (1 n)
  have "n mod 10 < 10" by simp
  with 1 show ?case by (subst to_string.simps) (auto simp del: mod_less_divisor)
qed

lemma to_string_nonempty [simp]: "to_string n \<noteq> []"
  by (subst to_string.simps) simp

lemma digits_value_to_string [simp]: "digits_value (to_string n) = n"
proof (induction n rule: to_string.induct)
  case (1 n)
  then show ?case by (subst to_string.simps) (auto simp: digits_value_def)
qed

lemma scan_number_to_string:
  assumes "s = [] \<or> \<not> is_digit (hd s)"
  shows "scan_number (to_string n @ s) = Some (int n, s)"
proof -
  obtain c cs where ts: "to_string n = c # cs" by (meson list.exhaust to_string_nonempty)
  have all: "\<forall>x \<in> set (c # cs). is_digit x" and c: "\<not> is_space c" "c \<noteq> CHR ''-''" "c \<noteq> CHR ''+''"
    using to_string_digits[of n] by (auto simp: ts)
  have tw: "takeWhile is_digit ((c # cs) @ s) = c # cs" and dw: "dropWhile is_digit ((c # cs) @ s) = s"
    using all assms by (cases s; simp)+
  show ?thesis
    using c tw dw digits_value_to_string[of n] by (simp add: ts scan_number_def Let_def)
qed

lemma stoul_to_string: "n < 2 ^ 64 \<Longrightarrow> stoul (to_string n) = Inr (of_nat n)"
  using scan_number_to_string[of "[]" n] by (simp add: stoul_def)

end
