(* ===== verification/File_Database.thy ===== *)
theory File_Database
  imports Cpp_Strings
begin

text \<open>
  The persistent database of the PSME (\<open>common/database\<close>): keys and values with their string
  form (\<open>database.cpp\<close>), one file per entry with the entry's validity in its mode bits
  (\<open>file_database.cpp\<close>), and the attribute store on top of it (\<open>persistent_attributes.cpp\<close>).
  The directory is the list of its regular files in the order \<open>readdir\<close> gives them. Calls of
  the operating system succeed whenever the file they work on exists; the choice of the
  directory (\<open>check_directory\<close>) and the mutexes are not modelled.
\<close>

subsection \<open>Keys and values\<close>

record uuid_key =
  uk_uuid :: string
  uk_parent :: string

definition uuid_key_serialize :: "uuid_key \<Rightarrow> string" where
  "uuid_key_serialize k = (if uk_parent k \<noteq> [] then uk_parent k @ ''.'' @ uk_uuid k else uk_uuid k)"

definition uuid_key_unserialize :: "string \<Rightarrow> uuid_key option" where
  "uuid_key_unserialize s =
     (case find_char CHR ''.'' s of
        Some pos \<Rightarrow> Some \<lparr> uk_uuid = drop (pos + 1) s, uk_parent = take pos s \<rparr>
      | None \<Rightarrow> Some \<lparr> uk_uuid = s, uk_parent = [] \<rparr>)"

definition id_value_serialize :: "u64 \<Rightarrow> string" where
  "id_value_serialize i = (if i = 0 then [] else to_string (unat i))"

text \<open>\<open>None\<close>: the data is rejected; the exceptions of \<open>std::stoul\<close> leave the function.\<close>

definition id_value_unserialize :: "string \<Rightarrow> number_error + u64 option" where
  "id_value_unserialize s =
     (if s = [] then Inr None else case stoul s of Inl e \<Rightarrow> Inl e | Inr i \<Rightarrow> Inr (Some i))"

text \<open>The key of the last identifier given out: it matches entries of its own parent only.\<close>

definition resource_last_key_serialize :: "string \<Rightarrow> string \<Rightarrow> string" where
  "resource_last_key_serialize parent resource = resource @ ''.'' @ parent @ ''.'' @ ''last''"

text \<open>
  With \<open>.last\<close> at position 0 the second search starts at \<open>npos\<close> and the length of the parent
  wraps around, so the search covers the whole string and the parent reaches to its end.
\<close>

definition resource_last_key_unserialize :: "string \<Rightarrow> string \<Rightarrow> string option" where
  "resource_last_key_unserialize parent s =
     (case rfind_str ''.last'' s of
        None \<Rightarrow> None
      | Some last_pos \<Rightarrow>
          (case rfind_char CHR ''.'' (if last_pos = 0 then s else take last_pos s) of
             None \<Rightarrow> None
           | Some uuid_pos \<Rightarrow>
               if parent \<noteq> substr (uuid_pos + 1) (if uuid_pos < last_pos then last_pos - uuid_pos - 1 else length s) s
               then None
               else Some (take uuid_pos s)))"

type_synonym uuid_attr = "string \<times> string"

definition uuid_attr_key_serialize :: "uuid_attr \<Rightarrow> string" where
  "uuid_attr_key_serialize k = fst k @ ''.'' @ snd k"

definition uuid_attr_key_unserialize :: "string \<Rightarrow> uuid_attr option" where
  "uuid_attr_key_unserialize s =
     (case rfind_char CHR ''.'' s of None \<Rightarrow> None | Some dot \<Rightarrow> Some (take dot s, drop (dot + 1) s))"

subsection \<open>Files\<close>

datatype entity_validity = ERROR | NOENTRY | VALID | INVALID | OUTDATED

datatype iterating_state = NOT_STARTED | STARTED | ITERATE | NO_MORE_DATA

record db_file =
  file_data :: string
  file_sticky :: bool
  file_wgrp :: bool
  file_ctime :: int

type_synonym files = "(string \<times> db_file) list"

record fdb =
  fdb_name :: string
  m_with_policy :: bool
  fdb_path :: string
  iterating_state :: iterating_state
  iterated_files :: "string list"

definition VALUE_LENGTH :: nat where
  "VALUE_LENGTH = 65536"

definition EXT :: string where
  "EXT = ''.db''"

fun set_file :: "string \<Rightarrow> db_file \<Rightarrow> files \<Rightarrow> files" where
  "set_file n f [] = [(n, f)]"
| "set_file n f ((m, g) # fs) = (if m = n then (n, f) # fs else (m, g) # set_file n f fs)"

text \<open>The first letter of the name tells whether the database covers all files of the directory.\<close>

definition fdb_create :: "string \<Rightarrow> bool \<Rightarrow> string \<Rightarrow> fdb" where
  "fdb_create nm with_policy path =
     \<lparr> fdb_name = (if take 1 nm = ''*'' then [] else nm), m_with_policy = with_policy, fdb_path = path,
       iterating_state = NOT_STARTED, iterated_files = [] \<rparr>"

definition full_name :: "fdb \<Rightarrow> string \<Rightarrow> string" where
  "full_name db stripped_name =
     (if stripped_name = [] then []
      else if CHR ''/'' \<in> set stripped_name \<or> CHR '':'' \<in> set stripped_name then []
      else fdb_path db @ ''/'' @ (if fdb_name db \<noteq> [] then fdb_name db @ ''.'' else []) @ stripped_name @ EXT)"

definition strip_name :: "fdb \<Rightarrow> string \<Rightarrow> string" where
  "strip_name db d_name =
     (let n = length (fdb_name db);
          strip_ext = (\<lambda>s. if length s < length EXT \<or> drop (length s - length EXT) s \<noteq> EXT then []
                           else take (length s - length EXT) s)
      in if fdb_name db \<noteq> []
         then if take n d_name \<noteq> fdb_name db then []
              else if take 1 (drop n d_name) \<noteq> ''.'' then []
              else strip_ext (drop 1 (drop n d_name))
         else strip_ext d_name)"

definition read_file :: "string \<Rightarrow> files \<Rightarrow> string option" where
  "read_file file_name fs =
     (if file_name = [] then None
      else case map_of fs file_name of
             None \<Rightarrow> None
           | Some f \<Rightarrow> if length (file_data f) < VALUE_LENGTH then Some (file_data f) else None)"

text \<open>For evaluation, the length is compared as an integer.\<close>

fun int_length :: "string \<Rightarrow> int" where
  "int_length [] = 0"
| "int_length (c # cs) = 1 + int_length cs"

lemma int_length: "int_length s = int (length s)"
  by (induction s) auto

lemma read_file_code [code]:
  "read_file file_name fs =
     (if file_name = [] then None
      else case map_of fs file_name of
             None \<Rightarrow> None
           | Some f \<Rightarrow> if int_length (file_data f) < 65536 then Some (file_data f) else None)"
proof -
  have "int (length s) < 65536 \<longleftrightarrow> length s < 65536" for s :: string by auto
  then show ?thesis by (simp add: read_file_def int_length VALUE_LENGTH_def split: option.split)
qed

definition save_file :: "int \<Rightarrow> string \<Rightarrow> string \<Rightarrow> bool \<Rightarrow> files \<Rightarrow> bool \<times> files" where
  "save_file now file_name data with_policy fs =
     (if file_name = [] then (False, fs)
      else (True, set_file file_name
              \<lparr> file_data = data, file_sticky = True, file_wgrp = with_policy, file_ctime = now \<rparr> fs))"

definition remove_file :: "string \<Rightarrow> files \<Rightarrow> bool \<times> files" where
  "remove_file file_name fs =
     (if file_name = [] then (False, fs)
      else (map_of fs file_name \<noteq> None, filter (\<lambda>(n, _). n \<noteq> file_name) fs))"

text \<open>
  The sum of the change time and the interval is computed in 64-bit signed arithmetic, where
  the largest interval, \<open>NEVER\<close>, overflows. The language leaves the overflow undefined; the model
  takes the wrap-around of the usual machines.
\<close>

definition file_validity :: "int \<Rightarrow> string \<Rightarrow> int \<Rightarrow> bool \<Rightarrow> files \<Rightarrow> entity_validity" where
  "file_validity now file_name interval with_policy fs =
     (case map_of fs file_name of
        None \<Rightarrow> ERROR
      | Some f \<Rightarrow>
          if with_policy \<and> \<not> file_wgrp f then NOENTRY
          else if file_sticky f then VALID
          else if sint (word_of_int (file_ctime f) + word_of_int interval :: 64 word) \<le> now then OUTDATED
          else INVALID)"

definition NEVER :: int where
  "NEVER = 2 ^ 63 - 1"

definition invalidate_file :: "int \<Rightarrow> string \<Rightarrow> files \<Rightarrow> bool \<times> files" where
  "invalidate_file now file_name fs =
     (if file_name = [] then (False, fs)
      else case map_of fs file_name of
             None \<Rightarrow> (False, fs)
           | Some f \<Rightarrow> if \<not> file_sticky f then (False, fs)
                       else (True, set_file file_name (f\<lparr> file_sticky := False, file_ctime := now \<rparr>) fs))"

subsection \<open>Operations of the database\<close>

definition fdb_get :: "fdb \<Rightarrow> string \<Rightarrow> (string \<Rightarrow> 'v option) \<Rightarrow> files \<Rightarrow> 'v option" where
  "fdb_get db key unserialize fs =
     (case read_file (full_name db key) fs of None \<Rightarrow> None | Some data \<Rightarrow> unserialize data)"

definition fdb_put :: "int \<Rightarrow> fdb \<Rightarrow> string \<Rightarrow> string \<Rightarrow> files \<Rightarrow> bool \<times> files" where
  "fdb_put now db key value fs = save_file now (full_name db key) value (m_with_policy db) fs"

definition fdb_remove :: "fdb \<Rightarrow> string \<Rightarrow> files \<Rightarrow> bool \<times> files" where
  "fdb_remove db key fs = remove_file (full_name db key) fs"

definition fdb_invalidate :: "int \<Rightarrow> fdb \<Rightarrow> string \<Rightarrow> files \<Rightarrow> bool \<times> files" where
  "fdb_invalidate now db key fs = invalidate_file now (full_name db key) fs"

definition fdb_get_validity :: "int \<Rightarrow> fdb \<Rightarrow> string \<Rightarrow> int \<Rightarrow> files \<Rightarrow> entity_validity" where
  "fdb_get_validity now db key interval fs = file_validity now (full_name db key) interval (m_with_policy db) fs"

text \<open>The names in the directory of the database, without the directory.\<close>

definition dir_names :: "fdb \<Rightarrow> files \<Rightarrow> string list" where
  "dir_names db fs =
     (let p = fdb_path db @ ''/''
      in map (drop (length p)) (filter (\<lambda>f. take (length p) f = p \<and> CHR ''/'' \<notin> set (drop (length p) f)) (map fst fs)))"

text \<open>The first loop of \<open>foreach\<close>: the entries whose key the key object accepts.\<close>

definition foreach_names :: "fdb \<Rightarrow> (string \<Rightarrow> 'k option) \<Rightarrow> files \<Rightarrow> string list" where
  "foreach_names db unserialize fs =
     filter (\<lambda>n. n \<noteq> [] \<and> unserialize n \<noteq> None) (map (strip_name db) (dir_names db fs))"

fun foreach_process :: "(string \<Rightarrow> files \<Rightarrow> bool \<times> files) \<Rightarrow> string list \<Rightarrow> nat \<Rightarrow> files \<Rightarrow> nat \<times> files" where
  "foreach_process func [] num fs = (num, fs)"
| "foreach_process func (n # ns) num fs =
     (case func n fs of (ok, fs') \<Rightarrow> foreach_process func ns (if ok then num + 1 else num) fs')"

definition fdb_foreach ::
    "fdb \<Rightarrow> (string \<Rightarrow> 'k option) \<Rightarrow> (string \<Rightarrow> files \<Rightarrow> bool \<times> files) \<Rightarrow> files \<Rightarrow> nat \<times> files" where
  "fdb_foreach db unserialize func fs = foreach_process func (foreach_names db unserialize fs) 0 fs"

definition cleanup_entry :: "int \<Rightarrow> fdb \<Rightarrow> int \<Rightarrow> string \<Rightarrow> files \<Rightarrow> bool \<times> files" where
  "cleanup_entry now db interval stripped_name fs =
     (let file_name = full_name db stripped_name
      in case file_validity now file_name interval (m_with_policy db) fs of
           VALID \<Rightarrow> invalidate_file now file_name fs
         | OUTDATED \<Rightarrow> remove_file file_name fs
         | _ \<Rightarrow> (False, fs))"

definition fdb_cleanup :: "int \<Rightarrow> fdb \<Rightarrow> (string \<Rightarrow> 'k option) \<Rightarrow> int \<Rightarrow> files \<Rightarrow> nat \<times> files" where
  "fdb_cleanup now db unserialize interval fs = fdb_foreach db unserialize (cleanup_entry now db interval) fs"

definition wipe_entry :: "int \<Rightarrow> fdb \<Rightarrow> int \<Rightarrow> string \<Rightarrow> files \<Rightarrow> bool \<times> files" where
  "wipe_entry now db interval stripped_name fs =
     (let file_name = full_name db stripped_name
      in case file_validity now file_name interval (m_with_policy db) fs of
           OUTDATED \<Rightarrow> remove_file file_name fs
         | _ \<Rightarrow> (False, fs))"

definition fdb_wipe_outdated :: "int \<Rightarrow> fdb \<Rightarrow> (string \<Rightarrow> 'k option) \<Rightarrow> int \<Rightarrow> files \<Rightarrow> nat \<times> files" where
  "fdb_wipe_outdated now db unserialize interval fs = fdb_foreach db unserialize (wipe_entry now db interval) fs"

definition fdb_drop :: "fdb \<Rightarrow> (string \<Rightarrow> 'k option) \<Rightarrow> files \<Rightarrow> nat \<times> files" where
  "fdb_drop db unserialize fs = fdb_foreach db unserialize (\<lambda>n. remove_file (full_name db n)) fs"

text \<open>The database of all entries, and the two retention operations on it.\<close>

definition always_match_key_unserialize :: "string \<Rightarrow> unit option" where
  "always_match_key_unserialize s = Some ()"

definition invalidate_all :: "int \<Rightarrow> string \<Rightarrow> int \<Rightarrow> files \<Rightarrow> nat \<times> files" where
  "invalidate_all now location interval fs =
     fdb_cleanup now (fdb_create ''*retention'' True location) always_match_key_unserialize interval fs"

definition remove_outdated :: "int \<Rightarrow> string \<Rightarrow> int \<Rightarrow> files \<Rightarrow> nat \<times> files" where
  "remove_outdated now location interval fs =
     fdb_wipe_outdated now (fdb_create ''*retention'' True location) always_match_key_unserialize interval fs"

subsection \<open>Iterating\<close>

definition fdb_start :: "fdb \<Rightarrow> bool \<times> fdb" where
  "fdb_start db = (if iterating_state db \<noteq> NOT_STARTED then (False, db)
                   else (True, db\<lparr> iterating_state := STARTED \<rparr>))"

fun next_entry ::
    "fdb \<Rightarrow> (string \<Rightarrow> 'k option) \<Rightarrow> (string \<Rightarrow> 'v option) \<Rightarrow> files \<Rightarrow> string list \<Rightarrow> ('k \<times> 'v) option \<times> string list" where
  "next_entry db unser_k unser_v fs [] = (None, [])"
| "next_entry db unser_k unser_v fs (n # ns) =
     (case read_file (full_name db n) fs of
        None \<Rightarrow> next_entry db unser_k unser_v fs ns
      | Some data \<Rightarrow>
          (case unser_v data of
             None \<Rightarrow> next_entry db unser_k unser_v fs ns
           | Some v \<Rightarrow> (Some (the (unser_k n), v), ns)))"

definition fdb_next ::
    "(string \<Rightarrow> 'k option) \<Rightarrow> (string \<Rightarrow> 'v option) \<Rightarrow> files \<Rightarrow> fdb \<Rightarrow> ('k \<times> 'v) option \<times> fdb" where
  "fdb_next unser_k unser_v fs db =
     (if iterating_state db = NOT_STARTED \<or> iterating_state db = NO_MORE_DATA then (None, db)
      else let names = (if iterating_state db = STARTED then foreach_names db unser_k fs else iterated_files db)
           in case next_entry db unser_k unser_v fs names of
                (Some kv, ns) \<Rightarrow> (Some kv, db\<lparr> iterating_state := ITERATE, iterated_files := ns \<rparr>)
              | (None, ns) \<Rightarrow> (None, db\<lparr> iterating_state := NO_MORE_DATA, iterated_files := ns \<rparr>))"

definition fdb_end :: "fdb \<Rightarrow> fdb" where
  "fdb_end db = db\<lparr> iterating_state := NOT_STARTED \<rparr>"

subsection \<open>Persistent attributes\<close>

definition string_value_unserialize :: "string \<Rightarrow> string option" where
  "string_value_unserialize s = Some s"

text \<open>The loop of the constructor, which reads all entries into the map of settings.\<close>

lemma next_entry_shorter: "next_entry db uk uv fs ns = (Some kv, ns') \<Longrightarrow> length ns' < length ns"
  by (induction ns) (auto split: option.splits intro: less_SucI)

function load_settings ::
    "files \<Rightarrow> fdb \<Rightarrow> (uuid_attr \<rightharpoonup> string) \<Rightarrow> (uuid_attr \<rightharpoonup> string) \<times> fdb" where
  "load_settings fs db settings =
     (case fdb_next uuid_attr_key_unserialize string_value_unserialize fs db of
        (None, db') \<Rightarrow> (settings, db')
      | (Some (k, v), db') \<Rightarrow> load_settings fs db' (settings(k \<mapsto> v)))"
  by pat_completeness auto
termination
proof (relation "measure (\<lambda>(fs, db, settings).
    if iterating_state db = STARTED then length (foreach_names db uuid_attr_key_unserialize fs)
    else length (iterated_files db))", goal_cases)
  case 1
  then show ?case by simp
next
  case (2 fs db settings x db' y k v)
  then show ?case
    by (auto simp: fdb_next_def Let_def split: if_splits prod.splits option.splits dest: next_entry_shorter)
qed

declare load_settings.simps [simp del]

record persistent_attributes =
  pa_db :: fdb
  pa_settings :: "uuid_attr \<rightharpoonup> string"
  pa_files :: files

definition pa_open :: "string \<Rightarrow> files \<Rightarrow> persistent_attributes" where
  "pa_open location fs =
     (case load_settings fs (snd (fdb_start (fdb_create ''attr'' False location))) Map.empty of
        (settings, db) \<Rightarrow> \<lparr> pa_db = fdb_end db, pa_settings = settings, pa_files = fs \<rparr>)"

definition pa_get_value :: "persistent_attributes \<Rightarrow> string \<Rightarrow> string \<Rightarrow> string option" where
  "pa_get_value pa u attr = pa_settings pa (u, attr)"

definition pa_remove_value :: "string \<Rightarrow> string \<Rightarrow> persistent_attributes \<Rightarrow> persistent_attributes" where
  "pa_remove_value u attr pa =
     pa\<lparr> pa_files := snd (fdb_remove (pa_db pa) (uuid_attr_key_serialize (u, attr)) (pa_files pa)),
         pa_settings := (pa_settings pa)((u, attr) := None) \<rparr>"

definition pa_set_value :: "int \<Rightarrow> string \<Rightarrow> string \<Rightarrow> string \<Rightarrow> persistent_attributes \<Rightarrow> persistent_attributes" where
  "pa_set_value now u attr value pa =
     pa\<lparr> pa_files := snd (fdb_put now (pa_db pa) (uuid_attr_key_serialize (u, attr)) value (pa_files pa)),
         pa_settings := (pa_settings pa)((u, attr) \<mapsto> value) \<rparr>"

subsection \<open>File names and keys\<close>

definition name_ok :: "string \<Rightarrow> bool" where
  "name_ok n \<longleftrightarrow> n \<noteq> [] \<and> CHR ''/'' \<notin> set n \<and> CHR '':'' \<notin> set n"

definition name_prefix :: "fdb \<Rightarrow> string" where
  "name_prefix db = (if fdb_name db \<noteq> [] then fdb_name db @ ''.'' else [])"

lemma full_name_ok: "name_ok n \<Longrightarrow> full_name db n = fdb_path db @ ''/'' @ name_prefix db @ n @ EXT"
  by (simp add: full_name_def name_ok_def name_prefix_def)

lemma full_name_Nil [simp]: "full_name db n = [] \<longleftrightarrow> \<not> name_ok n"
  by (auto simp: full_name_def name_ok_def)

lemma full_name_inj: "\<lbrakk>name_ok n; name_ok m\<rbrakk> \<Longrightarrow> full_name db n = full_name db m \<longleftrightarrow> n = m"
  by (simp add: full_name_ok)

lemma strip_name_prefixed [simp]: "strip_name db (name_prefix db @ n @ EXT) = n"
proof (cases "fdb_name db = []")
  case True
  then show ?thesis by (simp add: strip_name_def name_prefix_def Let_def)
next
  case False
  then have "drop (length (fdb_name db)) (name_prefix db @ n @ EXT) = ''.'' @ n @ EXT"
    by (simp add: name_prefix_def)
  with False show ?thesis by (simp add: strip_name_def Let_def name_prefix_def)
qed

lemma foreach_names_readable:
  assumes "CHR ''/'' \<notin> set (fdb_name db)" and "read_file (full_name db n) fs = Some d" and "unser n \<noteq> None"
  shows "n \<in> set (foreach_names db unser fs)"
proof -
  from assms(2) have n: "name_ok n" by (auto simp: read_file_def split: if_splits)
  let ?d = "name_prefix db @ n @ EXT"
  from assms(2) n have "full_name db n \<in> fst ` set fs"
    by (auto simp: read_file_def split: option.splits if_splits dest!: map_of_SomeD)
      (metis fst_conv imageI)
  moreover have "CHR ''/'' \<notin> set ?d" using n assms(1) by (auto simp: name_ok_def name_prefix_def EXT_def)
  ultimately have "?d \<in> set (dir_names db fs)"
    using n unfolding dir_names_def Let_def set_map set_filter
    by (intro image_eqI[where x = "full_name db n"]) (auto simp: full_name_ok)
  then have "strip_name db ?d \<in> strip_name db ` set (dir_names db fs)" by (rule imageI)
  with n assms(3) show ?thesis by (auto simp: foreach_names_def name_ok_def)
qed

lemma uuid_attr_unserialize_inverse: "uuid_attr_key_unserialize n = Some k \<Longrightarrow> uuid_attr_key_serialize k = n"
proof -
  assume a: "uuid_attr_key_unserialize n = Some k"
  then have "CHR ''.'' \<in> set n"
    by (auto simp: uuid_attr_key_unserialize_def split: option.splits) (metis option.distinct(1) rfind_char_None)
  then obtain u v where "n = u @ CHR ''.'' # v" "CHR ''.'' \<notin> set v" by (meson split_list_last)
  with a show ?thesis by (auto simp: uuid_attr_key_unserialize_def uuid_attr_key_serialize_def)
qed

lemma uuid_attr_serialize_inverse:
  "uuid_attr_key_unserialize (uuid_attr_key_serialize k) = Some k \<longleftrightarrow> CHR ''.'' \<notin> set (snd k)"
proof
  assume "uuid_attr_key_unserialize (uuid_attr_key_serialize k) = Some k"
  moreover have "CHR ''.'' \<in> set (uuid_attr_key_serialize k)" by (simp add: uuid_attr_key_serialize_def)
  then obtain u v where "uuid_attr_key_serialize k = u @ CHR ''.'' # v" "CHR ''.'' \<notin> set v"
    by (meson split_list_last)
  ultimately show "CHR ''.'' \<notin> set (snd k)" by (auto simp: uuid_attr_key_unserialize_def)
next
  assume "CHR ''.'' \<notin> set (snd k)"
  then show "uuid_attr_key_unserialize (uuid_attr_key_serialize k) = Some k"
    by (simp add: uuid_attr_key_unserialize_def uuid_attr_key_serialize_def)
qed

subsection \<open>Files after an operation\<close>

lemma map_of_set_file [simp]: "map_of (set_file n f fs) = (map_of fs)(n \<mapsto> f)"
  by (induction n f fs rule: set_file.induct) auto

lemma map_of_filter_name: "map_of (filter (\<lambda>(m, _). m \<noteq> n) fs) = (map_of fs)(n := None)"
  by (induction fs) auto

lemma fdb_get_put:
  assumes "name_ok n" and "length v < VALUE_LENGTH"
  shows "fdb_get db m Some (snd (fdb_put now db n v fs)) = (if m = n then Some v else fdb_get db m Some fs)"
proof (cases "name_ok m")
  case True
  with assms show ?thesis
    by (simp add: fdb_get_def fdb_put_def save_file_def read_file_def full_name_inj)
next
  case False
  with assms have "full_name db m = []" "m \<noteq> n" by auto
  then show ?thesis by (simp add: fdb_get_def read_file_def)
qed

lemma fdb_get_remove:
  assumes "name_ok n"
  shows "fdb_get db m Some (snd (fdb_remove db n fs)) = (if m = n then None else fdb_get db m Some fs)"
proof (cases "name_ok m")
  case True
  with assms show ?thesis
    by (simp add: fdb_get_def fdb_remove_def remove_file_def read_file_def full_name_inj map_of_filter_name)
next
  case False
  with assms have "full_name db m = []" "m \<noteq> n" by auto
  then show ?thesis by (simp add: fdb_get_def read_file_def)
qed

subsection \<open>What loading the attributes gives\<close>

lemma full_name_state [simp]:
  "full_name (db\<lparr> iterating_state := s, iterated_files := ns \<rparr>) = full_name db"
  "full_name (db\<lparr> iterating_state := s \<rparr>) = full_name db"
  by (simp_all add: full_name_def fun_eq_iff)

definition absorb :: "fdb \<Rightarrow> files \<Rightarrow> string list \<Rightarrow> (uuid_attr \<rightharpoonup> string) \<Rightarrow> (uuid_attr \<rightharpoonup> string)" where
  "absorb db fs ns m =
     fold (\<lambda>n m. case read_file (full_name db n) fs of None \<Rightarrow> m
                 | Some d \<Rightarrow> m(the (uuid_attr_key_unserialize n) \<mapsto> d)) ns m"

lemma next_entry_absorb:
  "next_entry db uuid_attr_key_unserialize string_value_unserialize fs ns = (r, ns') \<Longrightarrow>
   absorb db fs ns m = (case r of None \<Rightarrow> m | Some (k, v) \<Rightarrow> absorb db fs ns' (m(k \<mapsto> v)))"
  by (induction ns) (auto simp: absorb_def string_value_unserialize_def split: option.splits)

lemma load_iterating:
  assumes "iterating_state db = ITERATE"
  shows "fst (load_settings fs db m) = absorb db fs (iterated_files db) m"
  using assms
proof (induction fs db m rule: load_settings.induct)
  case (1 fs db m)
  obtain r ns' where ne: "next_entry db uuid_attr_key_unserialize string_value_unserialize fs (iterated_files db) = (r, ns')"
    by fastforce
  show ?case
  proof (cases r)
    case None
    with ne 1(2) next_entry_absorb[OF ne, of m] show ?thesis
      by (subst load_settings.simps) (simp add: fdb_next_def Let_def)
  next
    case (Some kv)
    obtain k v where kv: "kv = (k, v)" by fastforce
    let ?db' = "db\<lparr> iterating_state := ITERATE, iterated_files := ns' \<rparr>"
    have nx: "fdb_next uuid_attr_key_unserialize string_value_unserialize fs db = (Some (k, v), ?db')"
      using ne Some kv 1(2) by (simp add: fdb_next_def Let_def)
    have "fst (load_settings fs ?db' (m(k \<mapsto> v))) = absorb ?db' fs ns' (m(k \<mapsto> v))"
      using 1(1)[OF nx[symmetric] refl refl] by (simp del: fun_upd_apply)
    moreover have "absorb ?db' fs ns' = absorb db fs ns'" by (simp add: absorb_def fun_eq_iff)
    ultimately show ?thesis
      using nx next_entry_absorb[OF ne, of m] Some kv by (subst load_settings.simps) simp
  qed
qed

lemma load_started:
  assumes "iterating_state db = STARTED"
  shows "fst (load_settings fs db m) = absorb db fs (foreach_names db uuid_attr_key_unserialize fs) m"
proof -
  let ?names = "foreach_names db uuid_attr_key_unserialize fs"
  obtain r ns' where ne: "next_entry db uuid_attr_key_unserialize string_value_unserialize fs ?names = (r, ns')"
    by fastforce
  let ?db' = "db\<lparr> iterating_state := ITERATE, iterated_files := ns' \<rparr>"
  have a: "absorb ?db' fs ns' = absorb db fs ns'" by (simp add: absorb_def fun_eq_iff)
  show ?thesis
    using ne assms next_entry_absorb[OF ne, of m] load_iterating[of ?db' fs]
    by (subst load_settings.simps) (auto simp: fdb_next_def Let_def a split: option.splits)
qed

lemma absorb_lookup:
  assumes "\<forall>n \<in> set ns. uuid_attr_key_unserialize n \<noteq> None"
  shows "absorb db fs ns m k =
    (if uuid_attr_key_serialize k \<in> set ns \<and> CHR ''.'' \<notin> set (snd k)
        \<and> read_file (full_name db (uuid_attr_key_serialize k)) fs \<noteq> None
     then read_file (full_name db (uuid_attr_key_serialize k)) fs else m k)"
  using assms
proof (induction ns arbitrary: m)
  case Nil
  then show ?case by (simp add: absorb_def)
next
  case (Cons n ns)
  then obtain k' where k': "uuid_attr_key_unserialize n = Some k'" by auto
  have n: "uuid_attr_key_serialize k' = n" by (rule uuid_attr_unserialize_inverse[OF k'])
  have key: "n = uuid_attr_key_serialize k \<and> CHR ''.'' \<notin> set (snd k) \<longleftrightarrow> k' = k"
    by (metis k' n option.inject uuid_attr_serialize_inverse)
  let ?m1 = "case read_file (full_name db n) fs of None \<Rightarrow> m | Some d \<Rightarrow> m(k' \<mapsto> d)"
  have step: "absorb db fs (n # ns) m = absorb db fs ns ?m1"
    by (simp add: absorb_def k' split: option.split)
  have ns: "\<forall>n \<in> set ns. uuid_attr_key_unserialize n \<noteq> None" using Cons.prems by simp
  show ?case
  proof (cases "k' = k")
    case True
    with key n show ?thesis
      unfolding step Cons.IH[OF ns] by (auto split: option.split)
  next
    case False
    with key show ?thesis
      unfolding step Cons.IH[OF ns] by (auto split: option.split)
  qed
qed

lemma pa_open_settings:
  "pa_settings (pa_open location fs) k =
    (if CHR ''.'' \<notin> set (snd k)
     then fdb_get (fdb_create ''attr'' False location) (uuid_attr_key_serialize k) Some fs else None)"
proof -
  define db0 where "db0 = fdb_create ''attr'' False location"
  define db where "db = snd (fdb_start db0)"
  define data where "data = read_file (full_name db (uuid_attr_key_serialize k)) fs"
  have st: "iterating_state db = STARTED" and nm: "CHR ''/'' \<notin> set (fdb_name db)"
    by (simp_all add: db_def db0_def fdb_start_def fdb_create_def)
  have "full_name db = full_name db0" by (simp add: db_def fdb_start_def)
  then have get: "fdb_get db0 (uuid_attr_key_serialize k) Some fs = data"
    by (simp add: fdb_get_def data_def split: option.split)
  have "pa_settings (pa_open location fs) k = fst (load_settings fs db Map.empty) k"
    by (simp add: pa_open_def db_def db0_def split: prod.split)
  also have "\<dots> = (if uuid_attr_key_serialize k \<in> set (foreach_names db uuid_attr_key_unserialize fs)
      \<and> CHR ''.'' \<notin> set (snd k) \<and> data \<noteq> None then data else None)"
    unfolding load_started[OF st] data_def by (rule absorb_lookup) (simp add: foreach_names_def)
  also have "\<dots> = (if CHR ''.'' \<notin> set (snd k) then data else None)"
    using foreach_names_readable[OF nm, of "uuid_attr_key_serialize k" fs _ uuid_attr_key_unserialize]
      uuid_attr_serialize_inverse[of k]
    by (cases data) (auto simp: data_def)
  finally show ?thesis using get by (simp add: db0_def)
qed

subsection \<open>Stores of keys and values\<close>

text \<open>
  What the attribute store promises its clients, whatever the entries are kept in: storing
  and removing change exactly the entry of the key. A sequence of operations then has the
  effect it has on a map.
\<close>

datatype ('k, 'v) kv_op = Put 'k 'v | Remove 'k

fun kv_apply :: "('k, 'v) kv_op \<Rightarrow> ('k \<rightharpoonup> 'v) \<Rightarrow> ('k \<rightharpoonup> 'v)" where
  "kv_apply (Put k v) m = m(k \<mapsto> v)"
| "kv_apply (Remove k) m = m(k := None)"

locale kv_store =
  fixes put :: "'k \<Rightarrow> 'v \<Rightarrow> 's \<Rightarrow> 's"
    and remove :: "'k \<Rightarrow> 's \<Rightarrow> 's"
    and entries :: "'s \<Rightarrow> 'k \<rightharpoonup> 'v"
    and key_ok :: "'k \<Rightarrow> bool"
    and value_ok :: "'v \<Rightarrow> bool"
  assumes entries_put: "\<lbrakk>key_ok k; value_ok v\<rbrakk> \<Longrightarrow> entries (put k v s) = (entries s)(k \<mapsto> v)"
    and entries_remove: "key_ok k \<Longrightarrow> entries (remove k s) = (entries s)(k := None)"
begin

fun op_ok :: "('k, 'v) kv_op \<Rightarrow> bool" where
  "op_ok (Put k v) \<longleftrightarrow> key_ok k \<and> value_ok v"
| "op_ok (Remove k) \<longleftrightarrow> key_ok k"

fun run_op :: "('k, 'v) kv_op \<Rightarrow> 's \<Rightarrow> 's" where
  "run_op (Put k v) s = put k v s"
| "run_op (Remove k) s = remove k s"

lemma run_refines_map:
  "\<forall>op \<in> set ops. op_ok op \<Longrightarrow> entries (fold run_op ops s) = fold kv_apply ops (entries s)"
proof (induction ops arbitrary: s)
  case (Cons op ops)
  then have "entries (run_op op s) = kv_apply op (entries s)"
    by (cases op) (simp_all add: entries_put entries_remove)
  with Cons show ?case by simp
qed simp

end

definition attr_key_ok :: "uuid_attr \<Rightarrow> bool" where
  "attr_key_ok k \<longleftrightarrow> CHR ''.'' \<notin> set (snd k) \<and> name_ok (uuid_attr_key_serialize k)"

definition attr_value_ok :: "string \<Rightarrow> bool" where
  "attr_value_ok v \<longleftrightarrow> length v < VALUE_LENGTH"

lemma attr_serialize_inj:
  "\<lbrakk>CHR ''.'' \<notin> set (snd k); CHR ''.'' \<notin> set (snd k')\<rbrakk>
   \<Longrightarrow> uuid_attr_key_serialize k = uuid_attr_key_serialize k' \<longleftrightarrow> k = k'"
  by (metis option.inject uuid_attr_serialize_inverse)

text \<open>The files under the attribute store, seen through what a new instance loads from them.\<close>

interpretation attr_files: kv_store
    "\<lambda>k v fs. snd (fdb_put now (fdb_create ''attr'' False location) (uuid_attr_key_serialize k) v fs)"
    "\<lambda>k fs. snd (fdb_remove (fdb_create ''attr'' False location) (uuid_attr_key_serialize k) fs)"
    "\<lambda>fs. pa_settings (pa_open location fs)" attr_key_ok attr_value_ok for now location
proof (unfold_locales, goal_cases)
  case (1 k v s)
  then show ?case
    by (auto simp: fun_eq_iff pa_open_settings attr_key_ok_def attr_value_ok_def fdb_get_put attr_serialize_inj)
next
  case (2 k s)
  then show ?case
    by (auto simp: fun_eq_iff pa_open_settings attr_key_ok_def fdb_get_remove attr_serialize_inj)
qed

text \<open>A sequence of calls on the attribute store.\<close>

fun pa_apply :: "int \<Rightarrow> (uuid_attr, string) kv_op \<Rightarrow> persistent_attributes \<Rightarrow> persistent_attributes" where
  "pa_apply now (Put (u, attr) v) pa = pa_set_value now u attr v pa"
| "pa_apply now (Remove (u, attr)) pa = pa_remove_value u attr pa"

fun attr_op_ok :: "(uuid_attr, string) kv_op \<Rightarrow> bool" where
  "attr_op_ok (Put k v) \<longleftrightarrow> attr_key_ok k \<and> attr_value_ok v"
| "attr_op_ok (Remove k) \<longleftrightarrow> attr_key_ok k"

lemma full_name_pa_db:
  assumes "fdb_name db = fdb_name db'" "fdb_path db = fdb_path db'"
  shows "full_name db = full_name db'"
  using assms by (simp add: full_name_def fun_eq_iff)

lemma load_settings_db:
  "fdb_name (snd (load_settings fs db m)) = fdb_name db \<and> fdb_path (snd (load_settings fs db m)) = fdb_path db
   \<and> m_with_policy (snd (load_settings fs db m)) = m_with_policy db"
proof (induction fs db m rule: load_settings.induct)
  case (1 fs db m)
  have keep: "fdb_name (snd (fdb_next uk uv fs db)) = fdb_name db \<and> fdb_path (snd (fdb_next uk uv fs db)) = fdb_path db
    \<and> m_with_policy (snd (fdb_next uk uv fs db)) = m_with_policy db"
    for uk :: "string \<Rightarrow> uuid_attr option" and uv :: "string \<Rightarrow> string option"
    by (auto simp: fdb_next_def Let_def split: prod.split option.split)
  obtain r db' where nx: "fdb_next uuid_attr_key_unserialize string_value_unserialize fs db = (r, db')" by fastforce
  show ?case
  proof (cases r)
    case None
    with nx keep[of uuid_attr_key_unserialize string_value_unserialize] show ?thesis
      by (subst (1 2 3) load_settings.simps) simp
  next
    case (Some kv)
    obtain k v where kv: "kv = (k, v)" by fastforce
    have nx': "(Some (k, v), db') = fdb_next uuid_attr_key_unserialize string_value_unserialize fs db"
      using nx Some kv by simp
    from 1[OF nx' refl refl] nx Some kv keep[of uuid_attr_key_unserialize string_value_unserialize] show ?thesis
      by (subst (1 2 3) load_settings.simps) (simp del: fun_upd_apply)
  qed
qed

lemma pa_open_db:
  "fdb_name (pa_db (pa_open location fs)) = ''attr'' \<and> fdb_path (pa_db (pa_open location fs)) = location
   \<and> m_with_policy (pa_db (pa_open location fs)) = False"
  using load_settings_db[of fs "snd (fdb_start (fdb_create ''attr'' False location))" Map.empty]
  by (auto simp: pa_open_def fdb_end_def fdb_start_def fdb_create_def split: prod.splits)

lemma pa_apply_refines:
  assumes "full_name (pa_db pa) = full_name (fdb_create ''attr'' False location)" "\<not> m_with_policy (pa_db pa)"
  shows "pa_files (pa_apply now op pa) = attr_files.run_op now location op (pa_files pa)
    \<and> pa_settings (pa_apply now op pa) = kv_apply op (pa_settings pa) \<and> pa_db (pa_apply now op pa) = pa_db pa"
proof -
  have "fdb_put now (pa_db pa) n v = fdb_put now (fdb_create ''attr'' False location) n v"
    "fdb_remove (pa_db pa) n = fdb_remove (fdb_create ''attr'' False location) n" for n v
    using assms by (simp_all add: fun_eq_iff fdb_put_def fdb_remove_def) (simp add: fdb_create_def)
  then show ?thesis
    by (cases op) (auto simp: pa_set_value_def pa_remove_value_def attr_files.run_op.simps split_paired_all)
qed

lemma pa_run_refines:
  assumes "full_name (pa_db pa) = full_name (fdb_create ''attr'' False location)" "\<not> m_with_policy (pa_db pa)"
  shows "pa_files (fold (pa_apply now) ops pa) = fold (attr_files.run_op now location) ops (pa_files pa)
    \<and> pa_settings (fold (pa_apply now) ops pa) = fold kv_apply ops (pa_settings pa)"
  using assms
proof (induction ops arbitrary: pa)
  case (Cons op ops)
  have step: "pa_files (pa_apply now op pa) = attr_files.run_op now location op (pa_files pa)"
    "pa_settings (pa_apply now op pa) = kv_apply op (pa_settings pa)" "pa_db (pa_apply now op pa) = pa_db pa"
    using pa_apply_refines[OF Cons.prems] by auto
  show ?case using Cons.IH[of "pa_apply now op pa"] Cons.prems by (simp add: step)
qed simp

text \<open>
  C7: the attribute store survives a restart. After any sequence of stores and removals with
  clean keys and values that fit a file, a new instance that reads the directory has exactly
  the settings the running instance has.
\<close>

theorem attributes_survive_restart:
  fixes now :: int and location :: string and fs :: files
  assumes "\<forall>op \<in> set ops. attr_op_ok op"
  defines "pa \<equiv> fold (pa_apply now) ops (pa_open location fs)"
  shows "pa_settings (pa_open location (pa_files pa)) = pa_settings pa"
proof -
  let ?pa0 = "pa_open location fs"
  have db: "full_name (pa_db ?pa0) = full_name (fdb_create ''attr'' False location)" "\<not> m_with_policy (pa_db ?pa0)"
    using pa_open_db[of location fs] by (auto intro!: full_name_pa_db simp: fdb_create_def)
  have ok: "\<forall>op \<in> set ops. attr_files.op_ok op"
  proof
    fix op assume "op \<in> set ops"
    with assms(1) have "attr_op_ok op" by blast
    then show "attr_files.op_ok op" by (cases op) (simp_all add: attr_files.op_ok.simps)
  qed
  have f: "pa_files ?pa0 = fs" by (simp add: pa_open_def split: prod.split)
  show ?thesis
    using pa_run_refines[OF db, of now ops] attr_files.run_refines_map[OF ok, of location now fs] f
    by (simp add: pa_def)
qed

lemma short_value_ok: "length v < 100 \<Longrightarrow> attr_value_ok v"
  by (simp add: attr_value_ok_def VALUE_LENGTH_def)

theorem attributes_survive_restart_witness:
  "pa_settings (pa_open ''/d'' (pa_files (fold (pa_apply 7)
     [Put (''u1'', ''tag'') ''x'', Put (''u2'', ''tag'') ''y'', Remove (''u1'', ''tag'')] (pa_open ''/d'' []))))
   (''u2'', ''tag'') = Some ''y''"
proof -
  let ?ops = "[Put (''u1'', ''tag'') ''x'', Put (''u2'', ''tag'') ''y'', Remove (''u1'', ''tag'')]"
  have "\<forall>op \<in> set ?ops. attr_op_ok op"
    by (simp add: attr_key_ok_def name_ok_def uuid_attr_key_serialize_def short_value_ok)
  from attributes_survive_restart[OF this, where now = 7 and location = "''/d''" and fs = "[]"] show ?thesis
    by (simp add: pa_set_value_def pa_remove_value_def)
qed

subsection \<open>Retention\<close>

text \<open>A pass over the entries that changes, for each name, its own file only.\<close>

lemma foreach_process_files:
  assumes own: "\<And>n fs. name_ok n \<Longrightarrow> map_of (snd (func n fs)) = (map_of fs)(full_name db n := g (map_of fs (full_name db n)))"
    and other: "\<And>n fs. \<lbrakk>\<not> name_ok n; [] \<notin> fst ` set fs\<rbrakk> \<Longrightarrow> snd (func n fs) = fs"
    and "distinct ns" and "[] \<notin> fst ` set fs"
  shows "map_of (snd (foreach_process func ns num fs)) f =
    (if \<exists>n \<in> set ns. name_ok n \<and> f = full_name db n then g (map_of fs f) else map_of fs f)"
  using assms(3,4)
proof (induction ns arbitrary: num fs)
  case (Cons n ns)
  obtain ok fs' where fn: "func n fs = (ok, fs')" by fastforce
  show ?case
  proof (cases "name_ok n")
    case True
    with own[of n fs] fn have m: "map_of fs' = (map_of fs)(full_name db n := g (map_of fs (full_name db n)))" by simp
    have "[] \<notin> fst ` set fs'"
    proof -
      have "map_of fs [] = None" using Cons.prems(2) by (simp add: map_of_eq_None_iff)
      moreover have "[] \<noteq> full_name db n" using True by (metis full_name_Nil)
      ultimately have "map_of fs' [] = None" using m by simp
      then show ?thesis by (simp add: map_of_eq_None_iff)
    qed
    with Cons fn m True show ?thesis by (auto simp: full_name_inj)
  next
    case False
    with other[of n fs] fn Cons.prems(2) have "fs' = fs" by simp
    with Cons fn False show ?thesis by auto
  qed
qed simp

text \<open>What the two retention passes make of a file; \<open>None\<close> when they remove it.\<close>

definition cleaned :: "int \<Rightarrow> int \<Rightarrow> db_file \<Rightarrow> db_file option" where
  "cleaned now interval f =
     (if \<not> file_wgrp f then Some f
      else if file_sticky f then Some (f\<lparr> file_sticky := False, file_ctime := now \<rparr>)
      else if sint (word_of_int (file_ctime f) + word_of_int interval :: 64 word) \<le> now then None else Some f)"

definition wiped :: "int \<Rightarrow> int \<Rightarrow> db_file \<Rightarrow> db_file option" where
  "wiped now interval f =
     (if file_wgrp f \<and> \<not> file_sticky f
         \<and> sint (word_of_int (file_ctime f) + word_of_int interval :: 64 word) \<le> now then None else Some f)"

abbreviation retention_db :: "string \<Rightarrow> fdb" where
  "retention_db location \<equiv> fdb_create ''*retention'' True location"

lemma retention_db_fields [simp]:
  "m_with_policy (retention_db location)" "fdb_name (retention_db location) = []"
  "name_prefix (retention_db location) = []" "fdb_path (retention_db location) = location"
  by (simp_all add: fdb_create_def name_prefix_def)

lemma cleanup_entry_file:
  "name_ok n \<Longrightarrow> map_of (snd (cleanup_entry now (retention_db location) interval n fs)) =
     (map_of fs)(full_name (retention_db location) n :=
        (case map_of fs (full_name (retention_db location) n) of None \<Rightarrow> None | Some f \<Rightarrow> cleaned now interval f))"
  by (auto simp: cleanup_entry_def Let_def file_validity_def invalidate_file_def remove_file_def cleaned_def
      map_of_filter_name fun_eq_iff split: option.splits)

lemma wipe_entry_file:
  "name_ok n \<Longrightarrow> map_of (snd (wipe_entry now (retention_db location) interval n fs)) =
     (map_of fs)(full_name (retention_db location) n :=
        (case map_of fs (full_name (retention_db location) n) of None \<Rightarrow> None | Some f \<Rightarrow> wiped now interval f))"
  by (auto simp: wipe_entry_def Let_def file_validity_def remove_file_def wiped_def
      map_of_filter_name fun_eq_iff split: option.splits)

lemma entry_functions_skip:
  assumes "\<not> name_ok n" and "[] \<notin> fst ` set fs"
  shows "snd (cleanup_entry now (retention_db location) interval n fs) = fs"
    and "snd (wipe_entry now (retention_db location) interval n fs) = fs"
proof -
  have "full_name (retention_db location) n = []" "map_of fs [] = None"
    using assms by (simp_all add: map_of_eq_None_iff)
  then show "snd (cleanup_entry now (retention_db location) interval n fs) = fs"
    and "snd (wipe_entry now (retention_db location) interval n fs) = fs"
    by (simp_all add: cleanup_entry_def wipe_entry_def Let_def file_validity_def del: full_name_Nil)
qed

text \<open>The retention database sees every file of its directory with the extension of entries.\<close>

lemma retention_names:
  assumes "name_ok n"
  shows "n \<in> set (foreach_names (retention_db location) always_match_key_unserialize fs)
     \<longleftrightarrow> full_name (retention_db location) n \<in> fst ` set fs"
proof -
  let ?db = "retention_db location" and ?p = "location @ ''/''"
  have strip: "strip_name ?db d = n \<longleftrightarrow> d = n @ EXT" for d
  proof
    assume "strip_name ?db d = n"
    with assms have "drop (length d - length EXT) d = EXT" "take (length d - length EXT) d = n"
      by (auto simp: strip_name_def Let_def name_ok_def split: if_splits)
    then show "d = n @ EXT" by (metis append_take_drop_id)
  qed (use strip_name_prefixed[of ?db n] in simp)
  have slash: "CHR ''/'' \<notin> set (n @ EXT)" using assms by (auto simp: name_ok_def EXT_def)
  have "n \<in> strip_name ?db ` A \<longleftrightarrow> n @ EXT \<in> A" for A
  proof
    assume "n \<in> strip_name ?db ` A"
    then obtain d where "d \<in> A" "strip_name ?db d = n" by blast
    then show "n @ EXT \<in> A" by (simp add: strip)
  next
    assume "n @ EXT \<in> A"
    moreover have "strip_name ?db (n @ EXT) = n" by (rule iffD2[OF strip refl])
    ultimately show "n \<in> strip_name ?db ` A" by (metis imageI)
  qed
  then have "n \<in> set (foreach_names ?db always_match_key_unserialize fs) \<longleftrightarrow> n @ EXT \<in> set (dir_names ?db fs)"
    using assms by (simp add: foreach_names_def always_match_key_unserialize_def name_ok_def)
  also have "\<dots> \<longleftrightarrow> ?p @ n @ EXT \<in> fst ` set fs"
  proof
    assume "n @ EXT \<in> set (dir_names ?db fs)"
    then obtain f where "f \<in> fst ` set fs" "take (length ?p) f = ?p" "drop (length ?p) f = n @ EXT"
      unfolding dir_names_def Let_def by force
    then show "?p @ n @ EXT \<in> fst ` set fs" by (metis append_take_drop_id)
  next
    assume "?p @ n @ EXT \<in> fst ` set fs"
    with slash show "n @ EXT \<in> set (dir_names ?db fs)"
      unfolding dir_names_def Let_def set_map set_filter
      by (intro image_eqI[where x = "?p @ n @ EXT"]) auto
  qed
  finally show ?thesis using assms by (simp add: full_name_ok)
qed

lemma retention_names_distinct:
  assumes "distinct (map fst fs)"
  shows "distinct (foreach_names (retention_db location) always_match_key_unserialize fs)"
proof -
  let ?db = "retention_db location" and ?p = "location @ ''/''"
  have "distinct (dir_names ?db fs)"
    using assms unfolding dir_names_def Let_def
    by (auto simp: distinct_map intro!: inj_onI) (metis append_take_drop_id)+
  moreover have "inj_on (strip_name ?db) {d. strip_name ?db d \<noteq> []}"
  proof (rule inj_onI)
    fix d e assume "d \<in> {d. strip_name ?db d \<noteq> []}" "e \<in> {d. strip_name ?db d \<noteq> []}"
      and "strip_name ?db d = strip_name ?db e"
    then show "d = e"
      by (auto simp: strip_name_def Let_def split: if_splits) (metis append_take_drop_id)
  qed
  ultimately have "distinct (filter (\<lambda>n. n \<noteq> []) (map (strip_name ?db) (dir_names ?db fs)))"
    by (auto simp: distinct_map filter_map o_def intro: inj_on_subset)
  then show ?thesis by (simp add: foreach_names_def always_match_key_unserialize_def)
qed

lemma retention_pass:
  assumes "distinct (map fst fs)" and "[] \<notin> fst ` set fs" and "name_ok n"
    and "map_of fs (full_name (retention_db location) n) = Some file"
  shows "map_of (snd (invalidate_all now location interval fs)) (full_name (retention_db location) n) = cleaned now interval file"
    and "map_of (snd (remove_outdated now location interval fs)) (full_name (retention_db location) n) = wiped now interval file"
proof -
  let ?f = "full_name (retention_db location) n"
  have "?f \<in> fst ` set fs" using assms(4) by (metis imageI fst_conv map_of_SomeD)
  with assms(3) have n: "n \<in> set (foreach_names (retention_db location) always_match_key_unserialize fs)"
    by (simp add: retention_names)
  show "map_of (snd (invalidate_all now location interval fs)) ?f = cleaned now interval file"
    unfolding invalidate_all_def fdb_cleanup_def fdb_foreach_def
    by (subst foreach_process_files[OF cleanup_entry_file _ retention_names_distinct[OF assms(1)] assms(2)])
      (use n assms in \<open>auto simp: entry_functions_skip\<close>)
  show "map_of (snd (remove_outdated now location interval fs)) ?f = wiped now interval file"
    unfolding remove_outdated_def fdb_wipe_outdated_def fdb_foreach_def
    by (subst foreach_process_files[OF wipe_entry_file _ retention_names_distinct[OF assms(1)] assms(2)])
      (use n assms in \<open>auto simp: entry_functions_skip\<close>)
qed

definition good_dir :: "files \<Rightarrow> bool" where
  "good_dir fs \<longleftrightarrow> distinct (map fst fs) \<and> [] \<notin> fst ` set fs"

lemma set_file_names: "fst ` set (set_file n f fs) = insert n (fst ` set fs)"
  by (induction n f fs rule: set_file.induct) auto

lemma good_dir_set_file: "\<lbrakk>good_dir fs; n \<noteq> []\<rbrakk> \<Longrightarrow> good_dir (set_file n f fs)"
proof -
  assume "good_dir fs" "n \<noteq> []"
  moreover have "distinct (map fst fs) \<Longrightarrow> distinct (map fst (set_file n f fs))"
    by (induction n f fs rule: set_file.induct) (auto simp: set_file_names simp del: set_map simp flip: image_set)
  ultimately show ?thesis by (auto simp: good_dir_def set_file_names)
qed

lemma good_dir_filter: "good_dir fs \<Longrightarrow> good_dir (filter P fs)"
  by (auto simp: good_dir_def distinct_map_filter)

lemma good_dir_cleanup: "good_dir fs \<Longrightarrow> good_dir (snd (cleanup_entry now db interval n fs))"
  by (auto simp: cleanup_entry_def Let_def invalidate_file_def remove_file_def
      split: entity_validity.split option.split intro: good_dir_set_file good_dir_filter)

lemma good_dir_invalidate_all:
  assumes "good_dir fs"
  shows "good_dir (snd (invalidate_all now location interval fs))"
proof -
  have "good_dir (snd (foreach_process (cleanup_entry now db interval) ns num fs))" if "good_dir fs" for db ns num fs
    using that
  proof (induction ns arbitrary: num fs)
    case (Cons n ns)
    then show ?case using good_dir_cleanup[of fs now db interval n] by (auto split: prod.split)
  qed simp
  with assms show ?thesis by (simp add: invalidate_all_def fdb_cleanup_def fdb_foreach_def)
qed

lemma sint_word_of_int: "\<lbrakk>- (2 ^ 63) \<le> x; x < 2 ^ 63\<rbrakk> \<Longrightarrow> sint (word_of_int x :: 64 word) = x"
  using signed_take_bit_int_eq_self[of 63 x] by (simp add: sint_sbintrunc')

lemma sint_sum: "\<lbrakk>0 \<le> a; 0 \<le> b; a + b < 2 ^ 63\<rbrakk> \<Longrightarrow> sint (word_of_int a + word_of_int b :: 64 word) = a + b"
  using sint_word_of_int[of "a + b"] by simp

lemma sint_sum_overflow:
  assumes "2 ^ 63 \<le> a + b" and "a + b < 2 ^ 63 + 2 ^ 64"
  shows "sint (word_of_int a + word_of_int b :: 64 word) = a + b - 2 ^ 64"
proof -
  have "(word_of_int (2 ^ 64) :: 64 word) = 0" by simp
  then have eq: "word_of_int a + word_of_int b = (word_of_int (a + b - 2 ^ 64) :: 64 word)"
    by (simp only: wi_hom_add[symmetric] wi_hom_sub[symmetric]) simp
  show ?thesis unfolding eq by (rule sint_word_of_int) (use assms in simp_all)
qed

text \<open>
  C29: retention in two phases. Invalidating all entries and later removing the outdated ones
  removes a valid entry under the retention policy exactly when the interval has passed since
  the invalidation; before that the entry is only marked.
\<close>

theorem retention_two_phases:
  assumes dir: "good_dir fs" and n: "name_ok n"
    and stored: "map_of fs (full_name (retention_db location) n) = Some file" "file_wgrp file" "file_sticky file"
    and times: "0 \<le> t0" "0 \<le> interval" "t0 + interval < 2 ^ 63"
  shows "map_of (snd (remove_outdated t location interval (snd (invalidate_all t0 location interval fs))))
      (full_name (retention_db location) n)
    = (if t0 + interval \<le> t then None else Some (file\<lparr> file_sticky := False, file_ctime := t0 \<rparr>))"
proof -
  let ?fs = "snd (invalidate_all t0 location interval fs)"
  have "map_of ?fs (full_name (retention_db location) n) = Some (file\<lparr> file_sticky := False, file_ctime := t0 \<rparr>)"
    using dir n stored by (simp add: good_dir_def retention_pass cleaned_def)
  moreover have "good_dir ?fs" using dir by (rule good_dir_invalidate_all)
  ultimately show ?thesis
    using n stored times by (simp add: good_dir_def retention_pass wiped_def sint_sum)
qed

theorem retention_two_phases_witness:
  "map_of (snd (remove_outdated 200 ''/d'' 60 (snd (invalidate_all 100 ''/d'' 60
     [(''/d/x.db'', \<lparr> file_data = ''v'', file_sticky = True, file_wgrp = True, file_ctime = 1 \<rparr>)])))) ''/d/x.db'' = None"
proof -
  let ?f = "\<lparr> file_data = ''v'', file_sticky = True, file_wgrp = True, file_ctime = 1 \<rparr>"
  have x: "full_name (retention_db ''/d'') ''x'' = ''/d/x.db''"
    by (simp add: full_name_def fdb_create_def EXT_def)
  show ?thesis
    using retention_two_phases[of "[(''/d/x.db'', ?f)]" "''x''" "''/d''" ?f 100 60 200]
    by (simp add: x good_dir_def name_ok_def)
qed

text \<open>
  The string form of keys and identifiers can be read back: a resource key whose parent
  has no dot (and whose own UUID has none when it has no parent), and every identifier but 0,
  which stands for no identifier and is rejected.
\<close>

theorem uuid_key_roundtrip:
  assumes "CHR ''.'' \<notin> set (uk_parent k)" and "uk_parent k = [] \<longrightarrow> CHR ''.'' \<notin> set (uk_uuid k)"
  shows "uuid_key_unserialize (uuid_key_serialize k) = Some k
    \<and> id_value_unserialize (id_value_serialize i) = Inr (if i = 0 then None else Some i)"
proof -
  have "uuid_key_unserialize (uuid_key_serialize k) = Some k"
  proof (cases "uk_parent k = []")
    case True
    with assms(2) have "find_char CHR ''.'' (uk_uuid k) = None" by simp
    with True show ?thesis by (simp add: uuid_key_serialize_def uuid_key_unserialize_def del: find_char_None)
  next
    case False
    with assms(1) show ?thesis by (simp add: uuid_key_serialize_def uuid_key_unserialize_def)
  qed
  moreover have "stoul (to_string (unat i)) = Inr i"
    using stoul_to_string[of "unat i"] unsigned_less[of i] by simp
  ultimately show ?thesis by (simp add: id_value_serialize_def id_value_unserialize_def)
qed

theorem uuid_key_roundtrip_witness:
  "uuid_key_unserialize (uuid_key_serialize \<lparr> uk_uuid = ''b.c'', uk_parent = ''a'' \<rparr>) = Some \<lparr> uk_uuid = ''b.c'', uk_parent = ''a'' \<rparr>
   \<and> id_value_unserialize (id_value_serialize 42) = Inr (Some 42)"
  using uuid_key_roundtrip[of "\<lparr> uk_uuid = ''b.c'', uk_parent = ''a'' \<rparr>" 42] by simp

text \<open>
  A value of 65536 bytes or more is stored, and the store is reported as successful, but
  reading the entry back fails.
\<close>

theorem oversized_value_lost:
  assumes "name_ok key" and "VALUE_LENGTH \<le> length value"
  shows "fst (fdb_put now db key value fs) \<and> fdb_get db key Some (snd (fdb_put now db key value fs)) = None"
  using assms by (simp add: fdb_put_def save_file_def fdb_get_def read_file_def)

theorem oversized_value_lost_witness:
  "fdb_get (fdb_create ''attr'' False ''/d'') ''k'' Some
     (snd (fdb_put 1 (fdb_create ''attr'' False ''/d'') ''k'' (replicate 65536 CHR ''x'') [])) = None"
  using oversized_value_lost[of "''k''" "replicate 65536 CHR ''x''" 1 "fdb_create ''attr'' False ''/d''" "[]"]
  by (simp add: name_ok_def VALUE_LENGTH_def)

text \<open>
  C40: with the interval \<open>NEVER\<close>, the default of the validity query and of the clean-up, an
  invalidated entry counts as outdated at once: the sum with its change time overflows (and
  wraps around, as the model takes it).
\<close>

theorem never_is_outdated:
  assumes "map_of fs name = Some f" and "\<not> file_sticky f" and "with_policy \<longrightarrow> file_wgrp f"
    and "1 \<le> file_ctime f" "file_ctime f < 2 ^ 63" "0 \<le> now"
  shows "file_validity now name NEVER with_policy fs = OUTDATED"
proof -
  have "sint (word_of_int (file_ctime f) + word_of_int NEVER :: 64 word) = file_ctime f + NEVER - 2 ^ 64"
    using assms(4,5) by (intro sint_sum_overflow) (simp_all add: NEVER_def)
  also have "\<dots> \<le> now" using assms(5,6) by (simp add: NEVER_def)
  finally show ?thesis using assms(1-3) by (simp add: file_validity_def)
qed

theorem never_is_outdated_witness:
  "file_validity 100 ''f'' NEVER False
     [(''f'', \<lparr> file_data = [], file_sticky = False, file_wgrp = False, file_ctime = 100 \<rparr>)] = OUTDATED"
  using never_is_outdated[of "[(''f'', \<lparr> file_data = [], file_sticky = False, file_wgrp = False, file_ctime = 100 \<rparr>)]" "''f''"]
  by simp

end
