(* ===== verification/Db_Aggregate.thy ===== *)
theory Db_Aggregate
  imports File_Database
begin

text \<open>
  \<open>Aggregate\<close> (\<open>common/database/include/database/aggregate.hpp\<close>): several dependent
  attributes kept in one value of the attribute store, and \<open>DatabaseEntity\<close>, the database of
  one resource that the agents use. An unordered map is the list of its pairs in iteration
  order, with at most one pair per key; a new pair is put last, which is one of the orders the
  container may have.
\<close>

subsection \<open>Aggregates\<close>

type_synonym singles = "(string \<times> string) list"

record aggregate =
  m_singles :: singles
  m_multiples :: "(string \<times> singles) list"

datatype db_exception = ForbiddenKey string | KeyNotFound string | MalformedPair | BadVersion | UnsupportedVersion

definition SEP :: char where
  "SEP = char_of (31 :: nat)"

definition KV_SEP :: char where
  "KV_SEP = CHR ''=''"

definition MULT_MARK :: string where
  "MULT_MARK = ''MULTIPLE''"

definition check_key :: "string \<Rightarrow> db_exception + unit" where
  "check_key key = (if contains MULT_MARK key \<or> KV_SEP \<in> set key then Inl (ForbiddenKey key) else Inr ())"

definition emplace :: "'k \<Rightarrow> 'v \<Rightarrow> ('k \<times> 'v) list \<Rightarrow> ('k \<times> 'v) list" where
  "emplace k v m = (if map_of m k = None then m @ [(k, v)] else m)"

text \<open>\<open>m_multiples[bucket]\<close>, which creates an empty bucket, and a change of that bucket.\<close>

fun at_bucket :: "string \<Rightarrow> (singles \<Rightarrow> singles) \<Rightarrow> (string \<times> singles) list \<Rightarrow> (string \<times> singles) list" where
  "at_bucket b f [] = [(b, f [])]"
| "at_bucket b f ((b', s) # ms) = (if b' = b then (b', f s) # ms else (b', s) # at_bucket b f ms)"

definition bucket :: "aggregate \<Rightarrow> string \<Rightarrow> singles" where
  "bucket a b = (case map_of (m_multiples a) b of Some s \<Rightarrow> s | None \<Rightarrow> [])"

definition agg_put :: "string \<Rightarrow> string \<Rightarrow> aggregate \<Rightarrow> db_exception + aggregate" where
  "agg_put key value a =
     (case check_key key of Inl e \<Rightarrow> Inl e | Inr _ \<Rightarrow> Inr (a\<lparr> m_singles := emplace key value (m_singles a) \<rparr>))"

text \<open>The key under which a bucket keeps a value: the first one in iteration order.\<close>

definition get_key_by_value :: "singles \<Rightarrow> string \<Rightarrow> string option" where
  "get_key_by_value s value = map_option fst (find (\<lambda>(k, v). v = value) s)"

text \<open>Where \<open>find\<close> looks: the single values by key, then the buckets by value.\<close>

datatype agg_position = InSingles string | InBucket string string

fun find_in_buckets :: "string \<Rightarrow> (string \<times> singles) list \<Rightarrow> agg_position option" where
  "find_in_buckets key [] = None"
| "find_in_buckets key ((b, s) # ms) =
     (case get_key_by_value s key of Some k \<Rightarrow> Some (InBucket b k) | None \<Rightarrow> find_in_buckets key ms)"

definition agg_find :: "string \<Rightarrow> aggregate \<Rightarrow> agg_position option" where
  "agg_find key a = (if map_of (m_singles a) key \<noteq> None then Some (InSingles key) else find_in_buckets key (m_multiples a))"

definition agg_get :: "string \<Rightarrow> aggregate \<Rightarrow> db_exception + string" where
  "agg_get key a =
     (case agg_find key a of
        Some (InSingles k) \<Rightarrow> Inr (the (map_of (m_singles a) k))
      | Some (InBucket b k) \<Rightarrow> Inr (the (map_of (bucket a b) k))
      | None \<Rightarrow> Inl (KeyNotFound key))"

definition set_value :: "string \<Rightarrow> string \<Rightarrow> singles \<Rightarrow> singles" where
  "set_value key value s = update_first (\<lambda>(k, _). k = key) (\<lambda>(k, _). (k, value)) s"

definition agg_update :: "string \<Rightarrow> string \<Rightarrow> aggregate \<Rightarrow> db_exception + aggregate" where
  "agg_update key value a =
     (case agg_find key a of
        Some (InSingles k) \<Rightarrow> Inr (a\<lparr> m_singles := set_value k value (m_singles a) \<rparr>)
      | Some (InBucket b k) \<Rightarrow> Inr (a\<lparr> m_multiples := at_bucket b (set_value k value) (m_multiples a) \<rparr>)
      | None \<Rightarrow> Inl (KeyNotFound key))"

definition agg_get_multiple_values :: "aggregate \<Rightarrow> string \<Rightarrow> string list" where
  "agg_get_multiple_values a b = map snd (bucket a b)"

text \<open>\<open>del\<close> erases the single value of the key, and in every bucket the first pair with that value.\<close>

definition erase_value :: "string \<Rightarrow> singles \<Rightarrow> singles" where
  "erase_value value s =
     (case get_key_by_value s value of None \<Rightarrow> s | Some k \<Rightarrow> filter (\<lambda>(k', _). k' \<noteq> k) s)"

definition agg_del :: "string \<Rightarrow> aggregate \<Rightarrow> nat \<times> aggregate" where
  "agg_del key a =
     (let a' = a\<lparr> m_singles := filter (\<lambda>(k, _). k \<noteq> key) (m_singles a),
                  m_multiples := map (\<lambda>(b, s). (b, erase_value key s)) (m_multiples a) \<rparr>
      in ((if map_of (m_singles a) key \<noteq> None then 1 else 0)
            + length (filter (\<lambda>(b, s). get_key_by_value s key \<noteq> None) (m_multiples a)), a'))"

text \<open>The key of an appended value: the first free number from the size of the bucket on.\<close>

definition bucket_key :: "string \<Rightarrow> nat \<Rightarrow> string" where
  "bucket_key b i = b @ ''_'' @ to_string i"

lemma to_string_inj: "to_string i = to_string j \<longleftrightarrow> i = j"
  by (metis digits_value_to_string)

lemma bucket_key_inj: "bucket_key b i = bucket_key b j \<longleftrightarrow> i = j"
  by (simp add: bucket_key_def to_string_inj)

function free_index :: "string \<Rightarrow> nat \<Rightarrow> singles \<Rightarrow> nat" where
  "free_index b i s = (if map_of s (bucket_key b i) \<noteq> None then free_index b (i + 1) s else i)"
  by pat_completeness auto
termination
proof (relation "measure (\<lambda>(b, i, s). card {j. i \<le> j \<and> map_of s (bucket_key b j) \<noteq> None})", goal_cases)
  case (2 b i s)
  let ?A = "\<lambda>i. {j. i \<le> j \<and> map_of s (bucket_key b j) \<noteq> None}"
  have "inj_on (bucket_key b) (?A i)" by (rule inj_onI) (simp add: bucket_key_inj)
  moreover have "bucket_key b ` ?A i \<subseteq> dom (map_of s)" by auto
  ultimately have "finite (?A i)" by (rule inj_on_finite) (rule finite_dom_map_of)
  moreover have "i \<in> ?A i" "i \<notin> ?A (i + 1)" "?A (i + 1) \<subseteq> ?A i" using 2 by auto
  then have "?A (i + 1) \<subset> ?A i" by blast
  ultimately show ?case by (simp add: psubset_card_mono)
qed simp

declare free_index.simps [simp del]

definition agg_append :: "string \<Rightarrow> string \<Rightarrow> aggregate \<Rightarrow> db_exception + aggregate" where
  "agg_append b value a =
     (case check_key b of
        Inl e \<Rightarrow> Inl e
      | Inr _ \<Rightarrow>
          Inr (a\<lparr> m_multiples := at_bucket b
                   (\<lambda>s. emplace (bucket_key b (free_index b (length s) s)) value s) (m_multiples a) \<rparr>))"

subsection \<open>The string form\<close>

definition dump_singles :: "singles \<Rightarrow> string" where
  "dump_singles s = concat (map (\<lambda>(k, v). k @ [KV_SEP] @ v @ [SEP]) s)"

definition dump :: "aggregate \<Rightarrow> string" where
  "dump a =
     to_string 1 @ ''.'' @ to_string 0 @ [SEP] @ dump_singles (m_singles a)
       @ concat (map (\<lambda>(b, s). MULT_MARK @ [KV_SEP] @ b @ [SEP] @ dump_singles s) (m_multiples a))"

text \<open>The version: a number, a dot and a number, each after optional white space.\<close>

definition check_version :: "string \<Rightarrow> db_exception + unit" where
  "check_version version =
     (case scan_int version of
        None \<Rightarrow> Inl BadVersion
      | Some (major, rest) \<Rightarrow>
          (case dropWhile is_space rest of
             [] \<Rightarrow> Inl BadVersion
           | c # rest' \<Rightarrow>
               if c \<noteq> CHR ''.'' then Inl BadVersion
               else case scan_int rest' of
                      None \<Rightarrow> Inl BadVersion
                    | Some (minor, _) \<Rightarrow> if major \<noteq> 1 \<or> minor \<noteq> 0 then Inl UnsupportedVersion else Inr ()))"

text \<open>The lines after the version; once a bucket was met, every line belongs to a bucket.\<close>

fun parse_multiple :: "string \<Rightarrow> string list \<Rightarrow> aggregate \<Rightarrow> db_exception + aggregate" where
  "parse_multiple b [] a = Inr a"
| "parse_multiple b (item # items) a =
     (case find_char KV_SEP item of
        None \<Rightarrow> Inl MalformedPair
      | Some pos \<Rightarrow>
          if contains MULT_MARK item then parse_multiple (drop (pos + 1) item) items a
          else parse_multiple b items
                 (a\<lparr> m_multiples := at_bucket b (emplace (take pos item) (drop (pos + 1) item)) (m_multiples a) \<rparr>))"

fun parse_items :: "string list \<Rightarrow> aggregate \<Rightarrow> db_exception + aggregate" where
  "parse_items [] a = Inr a"
| "parse_items (item # items) a =
     (case find_char KV_SEP item of
        None \<Rightarrow> Inl MalformedPair
      | Some pos \<Rightarrow>
          if contains MULT_MARK item then parse_multiple (drop (pos + 1) item) items a
          else parse_items items (a\<lparr> m_singles := emplace (take pos item) (drop (pos + 1) item) (m_singles a) \<rparr>))"

definition parse :: "string \<Rightarrow> db_exception + aggregate" where
  "parse value =
     (case getlines SEP value of
        [] \<Rightarrow> Inr \<lparr> m_singles = [], m_multiples = [] \<rparr>
      | version # items \<Rightarrow>
          (case check_version version of
             Inl e \<Rightarrow> Inl e
           | Inr _ \<Rightarrow> parse_items items \<lparr> m_singles = [], m_multiples = [] \<rparr>))"

subsection \<open>The database of a resource\<close>

text \<open>
  \<open>DatabaseEntity\<close> reads the aggregate in its constructor and writes it in its destructor,
  also when the operation in between threw. The attribute store is the state.
\<close>

definition entity_open :: "string \<Rightarrow> uuid \<Rightarrow> persistent_attributes \<Rightarrow> db_exception + aggregate" where
  "entity_open nm u pa = (case pa_get_value pa u nm of None \<Rightarrow> parse [] | Some s \<Rightarrow> parse s)"

definition with_entity ::
    "int \<Rightarrow> string \<Rightarrow> uuid \<Rightarrow> (aggregate \<Rightarrow> db_exception + aggregate) \<Rightarrow> (persistent_attributes, db_exception, unit) eff" where
  "with_entity now nm u f pa =
     (case entity_open nm u pa of
        Inl e \<Rightarrow> (Inl e, pa)
      | Inr a \<Rightarrow> (case f a of
                   Inl e \<Rightarrow> (Inl e, pa_set_value now u nm (dump a) pa)
                 | Inr a' \<Rightarrow> (Inr (), pa_set_value now u nm (dump a') pa)))"

text \<open>\<open>put\<close> updates an existing key and stores a new one.\<close>

definition entity_put :: "string \<Rightarrow> string \<Rightarrow> aggregate \<Rightarrow> db_exception + aggregate" where
  "entity_put property value a =
     (case agg_update property value a of Inr a' \<Rightarrow> Inr a' | Inl _ \<Rightarrow> agg_put property value a)"

definition entity_del :: "string \<Rightarrow> aggregate \<Rightarrow> db_exception + aggregate" where
  "entity_del property a = Inr (snd (agg_del property a))"

definition entity_remove :: "string \<Rightarrow> uuid \<Rightarrow> (persistent_attributes, db_exception, unit) eff" where
  "entity_remove nm u pa =
     (case entity_open nm u pa of Inl e \<Rightarrow> (Inl e, pa) | Inr _ \<Rightarrow> (Inr (), pa_remove_value u nm pa))"

subsection \<open>The string form can be read back\<close>

definition pair_item :: "string \<times> string \<Rightarrow> string" where
  "pair_item kv = fst kv @ [KV_SEP] @ snd kv"

definition bucket_item :: "string \<Rightarrow> string" where
  "bucket_item b = MULT_MARK @ [KV_SEP] @ b"

definition clean_pair :: "string \<times> string \<Rightarrow> bool" where
  "clean_pair kv \<longleftrightarrow> KV_SEP \<notin> set (fst kv) \<and> SEP \<notin> set (fst kv) \<and> SEP \<notin> set (snd kv) \<and> \<not> contains MULT_MARK (pair_item kv)"

definition clean_singles :: "singles \<Rightarrow> bool" where
  "clean_singles s \<longleftrightarrow> list_all clean_pair s \<and> distinct (map fst s)"

definition clean_aggregate :: "aggregate \<Rightarrow> bool" where
  "clean_aggregate a \<longleftrightarrow> clean_singles (m_singles a) \<and> distinct (map fst (m_multiples a))
     \<and> list_all (\<lambda>(b, s). SEP \<notin> set b \<and> clean_singles s) (m_multiples a)"

definition agg_items :: "aggregate \<Rightarrow> string list" where
  "agg_items a = map pair_item (m_singles a)
     @ concat (map (\<lambda>(b, s). bucket_item b # map pair_item s) (m_multiples a))"

lemma sep_facts [simp]: "SEP \<noteq> KV_SEP" "KV_SEP \<noteq> SEP" "SEP \<notin> set MULT_MARK" "KV_SEP \<notin> set MULT_MARK"
  by (simp_all add: SEP_def KV_SEP_def MULT_MARK_def char_of_def bit_numeral_rec)

lemma find_sep_pair [simp]: "KV_SEP \<notin> set (fst kv) \<Longrightarrow> find_char KV_SEP (pair_item kv) = Some (length (fst kv))"
  by (simp add: pair_item_def)

lemma find_sep_bucket [simp]: "find_char KV_SEP (bucket_item b) = Some (length MULT_MARK)"
  by (simp add: bucket_item_def)

lemma contains_mark_bucket [simp]: "contains MULT_MARK (bucket_item b)"
  using contains_append[of MULT_MARK "[]" "[KV_SEP] @ b"] by (simp add: bucket_item_def)

lemma dump_as_items: "dump a = concat (map (\<lambda>item. item @ [SEP]) (''1.0'' # agg_items a))"
proof -
  have s: "dump_singles s = concat (map (\<lambda>item. item @ [SEP]) (map pair_item s))" for s
    by (induction s) (auto simp: dump_singles_def pair_item_def)
  have m: "concat (map (\<lambda>(b, s). MULT_MARK @ [KV_SEP] @ b @ [SEP] @ dump_singles s) ms)
    = concat (map (\<lambda>item. item @ [SEP]) (concat (map (\<lambda>(b, s). bucket_item b # map pair_item s) ms)))" for ms
    by (induction ms) (auto simp: s bucket_item_def)
  have v: "to_string 1 @ ''.'' @ to_string 0 @ xs = ''1.0'' @ xs" for xs
    unfolding append_assoc[symmetric] by (rule arg_cong[where f = "\<lambda>p. p @ xs"]) code_simp
  show ?thesis unfolding dump_def v m by (simp add: s agg_items_def)
qed

lemma sep_not_in_version: "SEP \<noteq> CHR ''1''" "SEP \<noteq> CHR ''.''" "SEP \<noteq> CHR ''0''"
  by code_simp+

lemma clean_pair_no_sep: "clean_pair kv \<Longrightarrow> SEP \<notin> set (pair_item kv)"
  by (auto simp: clean_pair_def pair_item_def)

lemma items_no_sep:
  assumes "clean_aggregate a"
  shows "\<forall>item \<in> set (''1.0'' # agg_items a). SEP \<notin> set item"
proof -
  have s: "\<forall>item \<in> set (map pair_item s). SEP \<notin> set item" if "clean_singles s" for s
    using that clean_pair_no_sep by (auto simp: clean_singles_def list_all_iff)
  have "\<forall>item \<in> set (concat (map (\<lambda>(b, s). bucket_item b # map pair_item s) ms)). SEP \<notin> set item"
    if "list_all (\<lambda>(b, s). SEP \<notin> set b \<and> clean_singles s) ms" for ms
    using that
  proof (induction ms)
    case (Cons bs ms)
    then show ?case using s[of "snd bs"] by (cases bs) (auto simp: bucket_item_def)
  qed simp
  with s[of "m_singles a"] assms sep_not_in_version show ?thesis
    by (auto simp: agg_items_def clean_aggregate_def)
qed

lemma emplace_fresh: "k \<notin> fst ` set m \<Longrightarrow> emplace k v m = m @ [(k, v)]"
  by (simp add: emplace_def map_of_eq_None_iff)

lemma at_bucket_fresh: "b \<notin> fst ` set ms \<Longrightarrow> at_bucket b f ms = ms @ [(b, f [])]"
  by (induction b f ms rule: at_bucket.induct) auto

lemma at_bucket_last: "b \<notin> fst ` set ms \<Longrightarrow> at_bucket b f (ms @ [(b, s)]) = ms @ [(b, f s)]"
  by (induction b f ms rule: at_bucket.induct) auto

lemma parse_items_singles:
  "\<lbrakk>list_all clean_pair s; distinct (map fst (m_singles a @ s))\<rbrakk>
   \<Longrightarrow> parse_items (map pair_item s @ items) a = parse_items items (a\<lparr> m_singles := m_singles a @ s \<rparr>)"
proof (induction s arbitrary: a)
  case (Cons kv s)
  obtain k v where kv: "kv = (k, v)" by fastforce
  from Cons.prems kv have "emplace k v (m_singles a) = m_singles a @ [(k, v)]" by (intro emplace_fresh) auto
  with Cons kv show ?case by (simp add: clean_pair_def) (simp add: pair_item_def)
qed simp

lemma parse_multiple_known:
  "\<lbrakk>list_all clean_pair s; distinct (map fst (acc @ s)); m_multiples a = ms @ [(b, acc)]; b \<notin> fst ` set ms\<rbrakk>
   \<Longrightarrow> parse_multiple b (map pair_item s @ items) a = parse_multiple b items (a\<lparr> m_multiples := ms @ [(b, acc @ s)] \<rparr>)"
proof (induction s arbitrary: a acc)
  case Nil
  then have "a\<lparr> m_multiples := ms @ [(b, acc)] \<rparr> = a" by (cases a) simp
  then show ?case by simp
next
  case (Cons kv s)
  obtain k v where kv: "kv = (k, v)" by fastforce
  let ?a = "a\<lparr> m_multiples := ms @ [(b, acc @ [(k, v)])] \<rparr>"
  have "emplace k v acc = acc @ [(k, v)]" using Cons.prems(2) kv by (intro emplace_fresh) auto
  then have "parse_multiple b (map pair_item (kv # s) @ items) a = parse_multiple b (map pair_item s @ items) ?a"
    using Cons.prems kv by (simp add: clean_pair_def at_bucket_last) (simp add: pair_item_def)
  also have "\<dots> = parse_multiple b items (?a\<lparr> m_multiples := ms @ [(b, (acc @ [(k, v)]) @ s)] \<rparr>)"
    using Cons.prems kv by (intro Cons.IH) auto
  finally show ?case by (simp add: kv)
qed

lemma parse_multiple_bucket:
  assumes "clean_singles s" and "b \<notin> fst ` set (m_multiples a)"
  shows "parse_multiple b (map pair_item s @ items) a =
    parse_multiple b items (a\<lparr> m_multiples := m_multiples a @ (if s = [] then [] else [(b, s)]) \<rparr>)"
proof (cases s)
  case Nil
  then show ?thesis by simp
next
  case (Cons kv s')
  obtain k v where kv: "kv = (k, v)" by fastforce
  let ?a = "a\<lparr> m_multiples := m_multiples a @ [(b, [(k, v)])] \<rparr>"
  have "parse_multiple b (map pair_item s @ items) a = parse_multiple b (map pair_item s' @ items) ?a"
    using assms kv Cons by (simp add: clean_singles_def clean_pair_def at_bucket_fresh emplace_def) (simp add: pair_item_def)
  also have "\<dots> = parse_multiple b items (?a\<lparr> m_multiples := m_multiples a @ [(b, [(k, v)] @ s')] \<rparr>)"
    using assms kv Cons by (intro parse_multiple_known) (auto simp: clean_singles_def)
  finally show ?thesis using kv Cons by simp
qed

lemma parse_buckets:
  "\<lbrakk>list_all (\<lambda>(b, s). clean_singles s) ms; distinct (map fst (m_multiples a @ ms))\<rbrakk>
   \<Longrightarrow> parse_multiple b (concat (map (\<lambda>(b, s). bucket_item b # map pair_item s) ms)) a
     = Inr (a\<lparr> m_multiples := m_multiples a @ filter (\<lambda>(b, s). s \<noteq> []) ms \<rparr>)"
proof (induction ms arbitrary: a b)
  case (Cons bs ms)
  obtain b' s where bs: "bs = (b', s)" by fastforce
  let ?a = "a\<lparr> m_multiples := m_multiples a @ (if s = [] then [] else [(b', s)]) \<rparr>"
  have "drop (Suc (length MULT_MARK)) (bucket_item b') = b'" by (simp add: bucket_item_def)
  then have "parse_multiple b (concat (map (\<lambda>(b, s). bucket_item b # map pair_item s) (bs # ms))) a
    = parse_multiple b' (concat (map (\<lambda>(b, s). bucket_item b # map pair_item s) ms)) ?a"
    using Cons.prems bs by (simp add: parse_multiple_bucket)
  also have "\<dots> = Inr (?a\<lparr> m_multiples := m_multiples ?a @ filter (\<lambda>(b, s). s \<noteq> []) ms \<rparr>)"
    using Cons.prems bs by (intro Cons.IH) auto
  finally show ?case by (simp add: bs)
qed simp

lemma check_version_1_0: "check_version ''1.0'' = Inr ()"
proof -
  have "''1.0'' = to_string 1 @ ''.'' @ to_string 0 @ []" by code_simp
  moreover have "scan_int (to_string 1 @ ''.'' @ to_string 0 @ []) = Some (1, ''.'' @ to_string 0 @ [])"
    unfolding scan_int_def by (subst scan_number_to_string) (simp_all add: is_digit_def)
  moreover have "scan_int (to_string 0 @ []) = Some (0, [])"
    unfolding scan_int_def by (subst scan_number_to_string) simp_all
  ultimately show ?thesis by (simp add: check_version_def is_space_def)
qed

lemma parse_dump:
  assumes "clean_aggregate a"
  shows "parse (dump a) = Inr (a\<lparr> m_multiples := filter (\<lambda>(b, s). s \<noteq> []) (m_multiples a) \<rparr>)"
proof -
  let ?e = "\<lparr> m_singles = [], m_multiples = [] \<rparr>" and ?ms = "m_multiples a"
  let ?items = "concat (map (\<lambda>(b, s). bucket_item b # map pair_item s) ?ms)"
  have "getlines SEP (dump a) = ''1.0'' # agg_items a"
    using getlines_concat[OF items_no_sep[OF assms], of "[]"] by (simp add: dump_as_items)
  then have "parse (dump a) = parse_items (map pair_item (m_singles a) @ ?items) ?e"
    by (simp add: parse_def check_version_1_0 agg_items_def)
  also have "\<dots> = parse_items ?items (?e\<lparr> m_singles := m_singles a \<rparr>)"
    using assms by (subst parse_items_singles) (auto simp: clean_aggregate_def clean_singles_def)
  also have "\<dots> = parse_multiple [] ?items (?e\<lparr> m_singles := m_singles a \<rparr>)"
    by (cases ?ms) (auto simp: split: prod.splits)
  also have "\<dots> = Inr (\<lparr> m_singles = m_singles a, m_multiples = filter (\<lambda>(b, s). s \<noteq> []) ?ms \<rparr>)"
    using assms by (subst parse_buckets) (auto simp: clean_aggregate_def list_all_iff)
  finally show ?thesis by simp
qed

subsection \<open>What the aggregates guarantee\<close>

lemma free_index_free: "map_of s (bucket_key b (free_index b i s)) = None"
  by (induction b i s rule: free_index.induct) (subst free_index.simps, auto)

lemma map_of_at_bucket:
  "map_of (at_bucket b f ms) b' =
    (if b' = b then Some (f (case map_of ms b of Some s \<Rightarrow> s | None \<Rightarrow> [])) else map_of ms b')"
  by (induction b f ms rule: at_bucket.induct) auto

lemma map_of_filter_empty:
  "distinct (map fst ms) \<Longrightarrow>
   (case map_of (filter (\<lambda>(b, s). s \<noteq> []) ms) b of Some s \<Rightarrow> s | None \<Rightarrow> [])
   = (case map_of ms b of Some s \<Rightarrow> s | None \<Rightarrow> [])"
proof (induction ms)
  case (Cons bs ms)
  obtain b' s where bs: "bs = (b', s)" by fastforce
  have "map_of (filter (\<lambda>(b, s). s \<noteq> []) ms) b' = None \<and> map_of ms b' = None"
    using Cons.prems bs by (auto simp: map_of_eq_None_iff)
  with Cons bs show ?case by auto
qed simp

text \<open>
  C24: what an aggregate writes it reads back. When no text has the separator, no key has the
  equals sign and no pair the bucket mark, parsing the dump gives all single values and the
  same values in every bucket.
\<close>

theorem aggregate_roundtrip:
  assumes "clean_aggregate a"
  shows "\<exists>a'. parse (dump a) = Inr a' \<and> m_singles a' = m_singles a
    \<and> (\<forall>b. agg_get_multiple_values a' b = agg_get_multiple_values a b)"
proof -
  have "distinct (map fst (m_multiples a))" using assms by (simp add: clean_aggregate_def)
  then show ?thesis
    using parse_dump[OF assms] by (simp add: agg_get_multiple_values_def bucket_def map_of_filter_empty)
qed

definition example_aggregate :: aggregate where
  "example_aggregate = \<lparr> m_singles = [(''role'', ''x=1'')], m_multiples = [(''e'', [(''e_0'', ''u1''), (''e_1'', ''u2'')])] \<rparr>"

theorem aggregate_roundtrip_witness:
  "\<exists>a'. parse (dump example_aggregate) = Inr a' \<and> agg_get_multiple_values a' ''e'' = [''u1'', ''u2'']"
proof -
  have "clean_aggregate example_aggregate" by code_simp
  from aggregate_roundtrip[OF this] show ?thesis
    by (auto simp: example_aggregate_def agg_get_multiple_values_def bucket_def)
qed

text \<open>
  A value that contains the bucket mark, which the key check does not look at, is lost:
  an aggregate that holds only this value is read back empty.
\<close>

theorem marked_value_lost:
  assumes "KV_SEP \<notin> set k" "SEP \<notin> set k" "SEP \<notin> set v" "contains MULT_MARK v"
  shows "parse (dump \<lparr> m_singles = [(k, v)], m_multiples = [] \<rparr>) = Inr \<lparr> m_singles = [], m_multiples = [] \<rparr>"
proof -
  let ?a = "\<lparr> m_singles = [(k, v)], m_multiples = [] \<rparr>"
  have items: "agg_items ?a = [pair_item (k, v)]" by (simp add: agg_items_def)
  have "SEP \<notin> set (pair_item (k, v))" using assms by (simp add: pair_item_def)
  then have "getlines SEP (dump ?a) = [''1.0'', pair_item (k, v)]"
    using getlines_concat[of "[''1.0'', pair_item (k, v)]" SEP "[]"] sep_not_in_version
    by (simp add: dump_as_items items)
  moreover have "contains MULT_MARK (pair_item (k, v))"
    using assms(4) contains_appendI[of MULT_MARK "k @ [KV_SEP]" v] by (simp add: pair_item_def)
  ultimately show ?thesis using assms(1) by (simp add: parse_def check_version_1_0)
qed

theorem marked_value_lost_witness:
  "parse (dump \<lparr> m_singles = [(''tag'', ''MULTIPLE drives'')], m_multiples = [] \<rparr>) = Inr \<lparr> m_singles = [], m_multiples = [] \<rparr>"
proof (rule marked_value_lost)
  show "KV_SEP \<notin> set ''tag''" "SEP \<notin> set ''tag''" "SEP \<notin> set ''MULTIPLE drives''" "contains MULT_MARK ''MULTIPLE drives''"
    by code_simp+
qed

text \<open>
  Buckets behave as lists of values. Appending adds the value to its bucket under a key
  that was free and changes no other bucket; deleting a value removes one occurrence of it
  from every bucket.
\<close>

lemma erase_value_values:
  "distinct (map fst s) \<Longrightarrow> map snd (erase_value v s) = remove1 v (map snd s)"
proof (induction s)
  case (Cons kv s)
  obtain k w where kv: "kv = (k, w)" by fastforce
  have keep: "filter (\<lambda>(k', _). k' \<noteq> k) s = s" using Cons.prems kv by (intro filter_True) force
  show ?case
  proof (cases "w = v")
    case True
    with kv keep show ?thesis by (simp add: erase_value_def get_key_by_value_def)
  next
    case False
    then have e: "get_key_by_value (kv # s) v = get_key_by_value s v" by (simp add: get_key_by_value_def kv)
    have "k \<noteq> k'" if "get_key_by_value s v = Some k'" for k'
    proof -
      from that obtain x where "find (\<lambda>(k, v'). v' = v) s = Some x" "fst x = k'"
        by (auto simp: get_key_by_value_def)
      then have "k' \<in> fst ` set s" using find_in_set by fastforce
      with Cons.prems kv show ?thesis by auto
    qed
    then have "erase_value v (kv # s) = kv # erase_value v s"
      unfolding erase_value_def e by (simp add: kv split: option.split)
    with False kv Cons show ?thesis by simp
  qed
qed (simp add: erase_value_def get_key_by_value_def)

theorem bucket_append_del:
  assumes "agg_append b v a = Inr a'" and "distinct (map fst (bucket a' c))"
  shows "agg_get_multiple_values a' c = agg_get_multiple_values a c @ (if c = b then [v] else [])
    \<and> agg_get_multiple_values (snd (agg_del v a')) c = remove1 v (agg_get_multiple_values a' c)
    \<and> m_singles a' = m_singles a"
proof -
  have a': "a' = a\<lparr> m_multiples := at_bucket b (\<lambda>s. emplace (bucket_key b (free_index b (length s) s)) v s) (m_multiples a) \<rparr>"
    using assms(1) by (simp add: agg_append_def split: sum.splits)
  have "agg_get_multiple_values a' c = agg_get_multiple_values a c @ (if c = b then [v] else [])"
    by (auto simp: a' agg_get_multiple_values_def bucket_def map_of_at_bucket emplace_def free_index_free
        split: option.split)
  moreover have "bucket (snd (agg_del v a')) c = erase_value v (bucket a' c)"
  proof -
    have "erase_value v [] = []" by (simp add: erase_value_def get_key_by_value_def)
    then show ?thesis by (simp add: agg_del_def Let_def bucket_def map_of_map split: option.split)
  qed
  then have "agg_get_multiple_values (snd (agg_del v a')) c = remove1 v (agg_get_multiple_values a' c)"
    using erase_value_values[OF assms(2)] by (simp add: agg_get_multiple_values_def)
  ultimately show ?thesis by (simp add: a')
qed

theorem bucket_append_del_witness:
  "\<exists>a'. agg_append ''e'' ''u3'' example_aggregate = Inr a' \<and> agg_get_multiple_values a' ''e'' = [''u1'', ''u2'', ''u3'']"
proof -
  let ?a' = "\<lparr> m_singles = [(''role'', ''x=1'')], m_multiples = [(''e'', [(''e_0'', ''u1''), (''e_1'', ''u2''), (''e_2'', ''u3'')])] \<rparr>"
  have "agg_append ''e'' ''u3'' example_aggregate = Inr ?a'" by code_simp
  moreover from bucket_append_del[OF this, of "''e''"] have "agg_get_multiple_values ?a' ''e'' = [''u1'', ''u2'', ''u3'']"
    by (simp add: bucket_def example_aggregate_def agg_get_multiple_values_def)
  ultimately show ?thesis by blast
qed

end
