(* ===== verification/Pnc_Model.thy ===== *)
theory Pnc_Model
  imports Generic_Manager Many_To_Many Db_Aggregate
begin

text \<open>
  The object model of the PNC (pooled NVMe controller) agent, whose PCIe switch connects
  downstream ports with devices to the upstream ports of hosts: the resources it keeps with
  the fields its logic reads, the whole state of the agent as one record, the predicates on
  endpoints and zones (\<open>endpoint.cpp\<close>, \<open>zone.cpp\<close>) and \<open>ModelTool\<close>
  (\<open>agent/pnc/src/tools/model_tool.cpp\<close>). The hardware is a component of type \<open>'h\<close> of the state.
\<close>

subsection \<open>Resources\<close>

datatype entity_role = Initiator | Target | Both

datatype pcie_port_type = UpstreamPort | DownstreamPort | InterswitchPort | ManagementPort
  | BidirectionalPort | UnconfiguredPort

datatype platform_type = EDK | MF3 | OtherPlatform

record connected_entity =
  m_entity_role :: "entity_role option"
  m_entity :: "uuid option"

record endpoint = resource +
  m_connected_entities :: "connected_entity list"

record zone = resource +
  m_zone_id :: "u8 option"
  m_switch_uuid :: uuid

record port = resource +
  m_port_type :: "pcie_port_type option"
  m_phys_port_id :: u32
  m_width :: "u32 option"
  m_max_width :: "u32 option"
  m_speed_gbps :: "rat option"
  m_max_speed_gbps :: "rat option"

record drive = resource +
  m_predicted_media_life_left :: "int option"
  m_failure_predicted :: "bool option"
  m_erased :: bool
  m_is_being_erased :: bool
  m_is_in_warning_state :: bool
  m_is_in_critical_discovery_state :: bool
  m_is_being_discovered :: bool
  m_dsp_port_uuids :: "uuid list"
  m_last_smart_health :: health

record processor = resource +
  proc_dsp_port_uuids :: "uuid list"
  proc_is_being_discovered :: bool
  proc_erased :: bool

record pcie_function = resource +
  m_dsp_port_uuid :: uuid

record switch = resource +
  m_memory_path :: string
  m_bridge_path :: string

record chassis = resource +
  m_platform :: platform_type

datatype notification = Notify_Add | Notify_Update | Notify_Remove

type_synonym event_data = "uuid \<times> component \<times> notification \<times> uuid"

subsection \<open>The state of the agent\<close>

record 'h pnc =
  agent_managers :: "resource manager"
  systems :: "resource manager"
  storages :: "resource manager"
  fabrics :: "resource manager"
  chassis_table :: "chassis manager"
  switches :: "switch manager"
  ports :: "port manager"
  endpoints :: "endpoint manager"
  zones :: "zone manager"
  drives :: "drive manager"
  processors :: "processor manager"
  pcie_functions :: "pcie_function manager"
  endpoint_port :: m2m
  zone_endpoint :: m2m
  drive_function :: m2m
  processor_function :: m2m
  events :: "event_data list"
  attributes :: persistent_attributes
  clock :: int
  hardware :: 'h

datatype pnc_exception =
    PncError string
  | InvalidValue string
  | RuntimeError string
  | InvalidArgument string
  | BadOptionalAccess
  | ModelError model_exception
  | DbError db_exception
  | UndefinedBehaviour
  | OutOfFuel

text \<open>
  The last two are not exceptions: an access outside an array, after which C++ promises
  nothing, and a polling loop that the chosen number of rounds did not end. No handler
  catches them.
\<close>

definition catchable :: "pnc_exception \<Rightarrow> bool" where
  "catchable e \<longleftrightarrow> e \<noteq> UndefinedBehaviour \<and> e \<noteq> OutOfFuel"

definition try_catch ::
    "('s, pnc_exception, 'a) eff \<Rightarrow> (pnc_exception \<Rightarrow> ('s, pnc_exception, 'a) eff) \<Rightarrow> ('s, pnc_exception, 'a) eff" where
  "try_catch m h = ecatch m (\<lambda>e. if catchable e then h e else ethrow e)"

type_synonym ('h, 'a) pnc_eff = "('h pnc, pnc_exception, 'a) eff"

text \<open>Reading an entry of a table, and writing one through its reference.\<close>

definition pnc_get :: "('h pnc \<Rightarrow> 'r resource_scheme manager) \<Rightarrow> uuid \<Rightarrow> ('h, 'r resource_scheme) pnc_eff" where
  "pnc_get table u s = (case get_entry (table s) u of Inl e \<Rightarrow> (Inl (ModelError e), s) | Inr r \<Rightarrow> (Inr r, s))"

definition pnc_edit ::
    "('h pnc \<Rightarrow> 'r resource_scheme manager) \<Rightarrow> (('r resource_scheme manager \<Rightarrow> 'r resource_scheme manager) \<Rightarrow> 'h pnc \<Rightarrow> 'h pnc)
       \<Rightarrow> uuid \<Rightarrow> ('r resource_scheme \<Rightarrow> 'r resource_scheme) \<Rightarrow> ('h, unit) pnc_eff" where
  "pnc_edit table update_table u f s =
     (case get_entry_reference u f (table s) of
        (Inl e, _) \<Rightarrow> (Inl (ModelError e), s)
      | (Inr _, t) \<Rightarrow> (Inr (), update_table (\<lambda>_. t) s))"

definition opt_value :: "'a option \<Rightarrow> ('h, 'a) pnc_eff" where
  "opt_value x s = (case x of Some v \<Rightarrow> (Inr v, s) | None \<Rightarrow> (Inl BadOptionalAccess, s))"

definition pnc_send_event :: "uuid \<Rightarrow> component \<Rightarrow> notification \<Rightarrow> uuid \<Rightarrow> ('h, unit) pnc_eff" where
  "pnc_send_event u c n parent = emodify (\<lambda>s. s\<lparr> events := events s @ [(u, c, n, parent)] \<rparr>)"

text \<open>New resources, with the generated UUID as an argument, and the agent before discovery.\<close>

definition new_endpoint :: "uuid \<Rightarrow> uuid \<Rightarrow> endpoint" where
  "new_endpoint v1_uuid parent_uuid =
     resource.extend (new_resource v1_uuid parent_uuid ''Fabric'') (endpoint.fields [])"

definition new_zone :: "uuid \<Rightarrow> uuid \<Rightarrow> zone" where
  "new_zone v1_uuid parent_uuid = resource.extend (new_resource v1_uuid parent_uuid ''Fabric'') (zone.fields None [])"

definition new_port :: "uuid \<Rightarrow> uuid \<Rightarrow> port" where
  "new_port v1_uuid parent_uuid =
     resource.extend (new_resource v1_uuid parent_uuid ''Switch'') (port.fields None 0 None None None None)"

text \<open>A switch with fixed paths, for examples.\<close>

definition new_switch :: "uuid \<Rightarrow> switch" where
  "new_switch v1_uuid = resource.extend (new_resource v1_uuid [] ''Fabric'') (switch.fields ''/mem'' ''/bridge'')"

definition empty_pnc :: "'h \<Rightarrow> 'h pnc" where
  "empty_pnc h =
     \<lparr> agent_managers = empty_manager, systems = empty_manager, storages = empty_manager, fabrics = empty_manager,
       chassis_table = empty_manager, switches = empty_manager, ports = empty_manager, endpoints = empty_manager,
       zones = empty_manager, drives = empty_manager, processors = empty_manager, pcie_functions = empty_manager,
       endpoint_port = [], zone_endpoint = [], drive_function = [], processor_function = [],
       events = [], attributes = pa_open ''settings'' [], clock = 0, hardware = h \<rparr>"

subsection \<open>Endpoints and zones\<close>

definition is_in_role :: "entity_role \<Rightarrow> endpoint \<Rightarrow> bool" where
  "is_in_role role e \<longleftrightarrow> list_ex (\<lambda>c. m_entity_role c = Some role) (m_connected_entities e)"

definition is_target :: "endpoint \<Rightarrow> bool" where
  "is_target e \<longleftrightarrow> is_in_role Target e \<or> is_in_role Both e"

definition is_initiator :: "endpoint \<Rightarrow> bool" where
  "is_initiator e \<longleftrightarrow> is_in_role Initiator e \<or> is_in_role Both e"

definition endpoint_is_target :: "uuid \<Rightarrow> ('h, bool) pnc_eff" where
  "endpoint_is_target u = ebind (pnc_get endpoints u) (\<lambda>e. eret (is_target e))"

definition endpoint_is_initiator :: "uuid \<Rightarrow> ('h, bool) pnc_eff" where
  "endpoint_is_initiator u = ebind (pnc_get endpoints u) (\<lambda>e. eret (is_initiator e))"

definition has_entity :: "uuid \<Rightarrow> uuid \<Rightarrow> ('h, bool) pnc_eff" where
  "has_entity endpoint_uuid resource_uuid =
     ebind (pnc_get endpoints endpoint_uuid) (\<lambda>e.
       eret (list_ex (\<lambda>c. m_entity c = Some resource_uuid) (m_connected_entities e)))"

text \<open>\<open>std::find_if\<close> with a predicate that may throw.\<close>

fun any_matches :: "(uuid \<Rightarrow> ('h, bool) pnc_eff) \<Rightarrow> uuid list \<Rightarrow> ('h, bool) pnc_eff" where
  "any_matches p [] = eret False"
| "any_matches p (u # us) = ebind (p u) (\<lambda>b. if b then eret True else any_matches p us)"

definition is_resource_in_endpoint :: "uuid \<Rightarrow> ('h, bool) pnc_eff" where
  "is_resource_in_endpoint resource_uuid =
     ebind (eget (\<lambda>s. get_keys (\<lambda>_. True) (m_manager_data (endpoints s))))
       (any_matches (\<lambda>u. has_entity u resource_uuid))"

definition is_bound_to_zone :: "uuid \<Rightarrow> ('h, bool) pnc_eff" where
  "is_bound_to_zone u = eget (\<lambda>s. m2m_get_parents (zone_endpoint s) u \<noteq> [])"

definition is_initiator_in_zone :: "uuid \<Rightarrow> ('h, bool) pnc_eff" where
  "is_initiator_in_zone z = ebind (eget (\<lambda>s. m2m_get_children (zone_endpoint s) z)) (any_matches endpoint_is_initiator)"

definition is_target_in_zone :: "uuid \<Rightarrow> ('h, bool) pnc_eff" where
  "is_target_in_zone z = ebind (eget (\<lambda>s. m2m_get_children (zone_endpoint s) z)) (any_matches endpoint_is_target)"

text \<open>A loop that collects a list from each element.\<close>

fun efor_concat :: "('x \<Rightarrow> ('h, 'a list) pnc_eff) \<Rightarrow> 'x list \<Rightarrow> ('h, 'a list) pnc_eff" where
  "efor_concat body [] = eret []"
| "efor_concat body (x # xs) = ebind (body x) (\<lambda>a. ebind (efor_concat body xs) (\<lambda>as. eret (a @ as)))"

definition get_connected_devices :: "uuid \<Rightarrow> ('h, uuid list) pnc_eff" where
  "get_connected_devices zone_uuid =
     ebind (eget (\<lambda>s. m2m_get_children (zone_endpoint s) zone_uuid))
       (efor_concat (\<lambda>u. ebind (endpoint_is_target u) (\<lambda>t.
          if t then ebind (pnc_get endpoints u) (\<lambda>e. efor_concat (\<lambda>c. ebind (opt_value (m_entity c)) (\<lambda>v. eret [v])) (m_connected_entities e))
          else eret [])))"

subsection \<open>ModelTool: looking resources up\<close>

definition generic_get_uuid :: "string \<Rightarrow> ('h pnc \<Rightarrow> 'r resource_scheme manager) \<Rightarrow> ('h, uuid) pnc_eff" where
  "generic_get_uuid resource_name table s =
     (case get_keys (\<lambda>_. True) (m_manager_data (table s)) of
        [] \<Rightarrow> (Inl (RuntimeError (''Unable to get '' @ resource_name @ '': none found!'')), s)
      | [k] \<Rightarrow> (Inr k, s)
      | _ \<Rightarrow> (Inl (RuntimeError (''Unable to get '' @ resource_name @ '': too many entries!'')), s))"

definition get_manager_uuid :: "('h, uuid) pnc_eff" where
  "get_manager_uuid = generic_get_uuid ''manager'' agent_managers"

definition get_system_uuid :: "('h, uuid) pnc_eff" where
  "get_system_uuid = generic_get_uuid ''system'' systems"

definition get_storage_uuid :: "('h, uuid) pnc_eff" where
  "get_storage_uuid = generic_get_uuid ''storage subsystem'' storages"

definition get_chassis_uuid :: "('h, uuid) pnc_eff" where
  "get_chassis_uuid = generic_get_uuid ''chassis'' chassis_table"

definition get_fabric_uuid :: "('h, uuid) pnc_eff" where
  "get_fabric_uuid = generic_get_uuid ''fabric'' fabrics"

definition get_switch_uuid :: "('h, uuid) pnc_eff" where
  "get_switch_uuid = generic_get_uuid ''switch'' switches"

text \<open>A port that waits for its place in the tree has no parent. \<open>None\<close>: the function returns false.\<close>

definition get_port_by_phys_id :: "u32 \<Rightarrow> bool \<Rightarrow> ('h, port option) pnc_eff" where
  "get_port_by_phys_id phy_port_id is_temporary =
     ebind (eget (\<lambda>s. get_keys (\<lambda>p. phy_port_id = m_phys_port_id p
          \<and> (is_temporary \<and> m_parent_uuid p = [] \<or> \<not> is_temporary \<and> m_parent_uuid p \<noteq> []))
        (m_manager_data (ports s)))) (\<lambda>key.
       if length key = 1 then ebind (pnc_get ports (hd key)) (\<lambda>p. eret (Some p)) else eret None)"

definition get_zone_by_id :: "uuid \<Rightarrow> u32 \<Rightarrow> ('h, zone option) pnc_eff" where
  "get_zone_by_id switch_uuid zone_id =
     ebind (eget (\<lambda>s. get_keys (\<lambda>z. map_option unat (m_zone_id z) = Some (unat zone_id) \<and> switch_uuid = m_switch_uuid z)
        (m_manager_data (zones s)))) (\<lambda>key.
       if length key = 1 then ebind (pnc_get zones (hd key)) (\<lambda>z. eret (Some z)) else eret None)"

definition get_functions_by_dsp_port_uuid :: "'h pnc \<Rightarrow> uuid \<Rightarrow> uuid list" where
  "get_functions_by_dsp_port_uuid s port_uuid =
     get_keys (\<lambda>f. m_dsp_port_uuid f = port_uuid) (m_manager_data (pcie_functions s))"

definition get_endpoints_by_device_uuid :: "'h pnc \<Rightarrow> uuid \<Rightarrow> uuid list" where
  "get_endpoints_by_device_uuid s device_uuid =
     get_keys (\<lambda>e. list_ex (\<lambda>c. m_entity c = Some device_uuid) (m_connected_entities e)) (m_manager_data (endpoints s))"

text \<open>Drives first, then processors: the device types the agent supports.\<close>

definition get_devices_by_dsp_port_uuid :: "'h pnc \<Rightarrow> uuid \<Rightarrow> uuid list" where
  "get_devices_by_dsp_port_uuid s port_uuid =
     get_keys (\<lambda>d. port_uuid \<in> set (m_dsp_port_uuids d)) (m_manager_data (drives s))
     @ get_keys (\<lambda>p. port_uuid \<in> set (proc_dsp_port_uuids p)) (m_manager_data (processors s))"

definition get_ports_by_device_uuid :: "uuid \<Rightarrow> ('h, uuid list) pnc_eff" where
  "get_ports_by_device_uuid device_uuid =
     ebind (eget (\<lambda>s. m2m_get_children (drive_function s) device_uuid)) (\<lambda>functions_drive.
     ebind (eget (\<lambda>s. m2m_get_children (processor_function s) device_uuid)) (\<lambda>functions_processor.
     ebind (efor_concat (\<lambda>u. ebind (pnc_get pcie_functions u) (\<lambda>f. eret [m_dsp_port_uuid f])) (functions_drive @ functions_processor)) (\<lambda>found.
       eret (fold insort_insert found []))))"

definition get_ports_uuids_by_endpoint_uuid :: "'h pnc \<Rightarrow> uuid \<Rightarrow> uuid list" where
  "get_ports_uuids_by_endpoint_uuid s endpoint_uuid = m2m_get_children (endpoint_port s) endpoint_uuid"

definition get_switch_for_device_uuid :: "uuid \<Rightarrow> ('h, uuid) pnc_eff" where
  "get_switch_for_device_uuid u =
     ebind (get_ports_by_device_uuid u) (\<lambda>ps.
       case ps of
         [] \<Rightarrow> ethrow (RuntimeError ''No pcie functions for a device'')
       | p # _ \<Rightarrow> ebind (pnc_get ports p) (\<lambda>port. eret (m_parent_uuid port)))"

definition exists_in_components :: "'h pnc \<Rightarrow> uuid \<Rightarrow> bool" where
  "exists_in_components s u \<longleftrightarrow> entry_exists (drives s) u \<or> entry_exists (processors s) u"

text \<open>\<open>std::copy_if\<close> with a lookup that may throw; only the first connected entity counts.\<close>

definition first_role :: "endpoint \<Rightarrow> entity_role option" where
  "first_role e = (case m_connected_entities e of [] \<Rightarrow> None | c # _ \<Rightarrow> m_entity_role c)"

definition get_endpoints_with_role :: "entity_role \<Rightarrow> uuid list \<Rightarrow> ('h, uuid list) pnc_eff" where
  "get_endpoints_with_role role us =
     efor_concat (\<lambda>u. ebind (pnc_get endpoints u) (\<lambda>e. eret (if first_role e = Some role then [u] else []))) us"

subsection \<open>ModelTool: changing resources\<close>

definition healthy :: "state \<Rightarrow> status" where
  "healthy st = \<lparr> status_state = st, status_health = Some Health_OK \<rparr>"

definition set_status :: "status \<Rightarrow> 'r resource_scheme \<Rightarrow> bool \<times> 'r resource_scheme" where
  "set_status st r = (if m_status r \<noteq> st then (True, r\<lparr> m_status := st \<rparr>) else (False, r))"

definition set_status_offline :: "'r resource_scheme \<Rightarrow> bool \<times> 'r resource_scheme" where
  "set_status_offline r = set_status \<lparr> status_state = State_StandbyOffline, status_health = Some Health_Critical \<rparr> r"

definition set_port_width_and_speed :: "u32 \<Rightarrow> u32 \<Rightarrow> rat \<Rightarrow> rat \<Rightarrow> port \<Rightarrow> bool \<times> port" where
  "set_port_width_and_speed width max_width speed max_speed p =
     (m_width p \<noteq> Some width \<or> m_max_width p \<noteq> Some max_width \<or> m_speed_gbps p \<noteq> Some speed \<or> m_max_speed_gbps p \<noteq> Some max_speed,
      p\<lparr> m_width := Some width, m_max_width := Some max_width, m_speed_gbps := Some speed, m_max_speed_gbps := Some max_speed \<rparr>)"

text \<open>What \<open>update_drive_status\<close> does to the drive, and whether an event has to be sent.\<close>

definition drive_status_update :: "status \<Rightarrow> int \<Rightarrow> drive \<Rightarrow> bool \<times> drive" where
  "drive_status_update st media_life_left d0 =
     (let d = d0\<lparr> m_last_smart_health := the (status_health st) \<rparr>
      in if m_is_being_erased d \<or> m_is_in_critical_discovery_state d then (False, d)
         else
           let life_changed = (m_predicted_media_life_left d \<noteq> Some media_life_left);
               d1 = (if life_changed then d\<lparr> m_predicted_media_life_left := Some media_life_left,
                                             m_failure_predicted := Some (media_life_left \<le> 0) \<rparr> else d);
               status_changed = (\<not> m_is_in_warning_state d1 \<and> m_status d1 \<noteq> st);
               d2 = (if status_changed then d1\<lparr> m_status := st \<rparr> else d1)
           in (life_changed \<or> status_changed, d2))"

definition update_drive_status :: "uuid \<Rightarrow> status \<Rightarrow> int \<Rightarrow> ('h, unit) pnc_eff" where
  "update_drive_status drive_uuid st media_life_left s =
     (case find (any_uuid_matches drive_uuid) (m_manager_data (drives s)) of
        None \<Rightarrow> (Inl (ModelError (InvalidUuid EntryNotFound drive_uuid)), s)
      | Some d \<Rightarrow>
          if status_health st = None then (Inl BadOptionalAccess, s)
          else (case pnc_edit drives drives_update drive_uuid (\<lambda>d. snd (drive_status_update st media_life_left d)) s of
                  (Inl e, s') \<Rightarrow> (Inl e, s')
                | (Inr _, s') \<Rightarrow>
                    if fst (drive_status_update st media_life_left d)
                    then pnc_send_event drive_uuid ''Drive'' Notify_Update (m_parent_uuid d) s'
                    else (Inr (), s')))"

definition set_drive_status :: "uuid \<Rightarrow> status \<Rightarrow> ('h, unit) pnc_eff" where
  "set_drive_status drive_uuid st =
     ebind (pnc_get drives drive_uuid) (\<lambda>d.
     ebind (opt_value (m_predicted_media_life_left d)) (\<lambda>life. update_drive_status drive_uuid st life))"

definition degenerate_endpoint :: "uuid \<Rightarrow> uuid list \<Rightarrow> ('h, unit) pnc_eff" where
  "degenerate_endpoint endpoint_uuid device_list =
     eseq (pnc_edit endpoints endpoints_update endpoint_uuid (\<lambda>e.
             e\<lparr> m_status := healthy State_Disabled,
                m_connected_entities := map (\<lambda>c. if \<exists>d \<in> set device_list. m_entity c = Some d then c\<lparr> m_entity := None \<rparr> else c)
                                            (m_connected_entities e) \<rparr>))
     (ebind (pnc_get endpoints endpoint_uuid) (\<lambda>e.
        pnc_send_event endpoint_uuid ''Endpoint'' Notify_Update (m_parent_uuid e)))"

definition regenerate_endpoint :: "uuid \<Rightarrow> uuid \<Rightarrow> ('h, unit) pnc_eff" where
  "regenerate_endpoint endpoint_uuid drive_uuid =
     eseq (pnc_edit endpoints endpoints_update endpoint_uuid (\<lambda>e.
             e\<lparr> m_status := healthy State_Enabled,
                m_connected_entities := map (\<lambda>c. if m_entity c = None \<and> m_entity_role c = Some Target then c\<lparr> m_entity := Some drive_uuid \<rparr> else c)
                                            (m_connected_entities e) \<rparr>))
     (ebind (pnc_get endpoints endpoint_uuid) (\<lambda>e.
        pnc_send_event endpoint_uuid ''Endpoint'' Notify_Update (m_parent_uuid e)))"

text \<open>The variadic template: a drive is marked and the result is false; otherwise a processor is tried.\<close>

definition set_device_is_being_discovered :: "uuid \<Rightarrow> bool \<Rightarrow> ('h, bool) pnc_eff" where
  "set_device_is_being_discovered device_uuid flag s =
     (if entry_exists (drives s) device_uuid
      then (case pnc_edit drives drives_update device_uuid (\<lambda>d. d\<lparr> m_is_being_discovered := flag \<rparr>) s of
              (Inl e, s') \<Rightarrow> (Inl e, s') | (Inr _, s') \<Rightarrow> (Inr False, s'))
      else if entry_exists (processors s) device_uuid
      then (case pnc_edit processors processors_update device_uuid (\<lambda>p. p\<lparr> proc_is_being_discovered := flag \<rparr>) s of
              (Inl e, s') \<Rightarrow> (Inl e, s') | (Inr _, s') \<Rightarrow> (Inr True, s'))
      else (Inr False, s))"

definition set_drive_in_warning_state :: "uuid \<Rightarrow> bool \<Rightarrow> ('h, unit) pnc_eff" where
  "set_drive_in_warning_state u flag = pnc_edit drives drives_update u (\<lambda>d. d\<lparr> m_is_in_warning_state := flag \<rparr>)"

definition set_drive_being_erased :: "uuid \<Rightarrow> bool \<Rightarrow> ('h, unit) pnc_eff" where
  "set_drive_being_erased u flag = pnc_edit drives drives_update u (\<lambda>d. d\<lparr> m_is_being_erased := flag \<rparr>)"

definition set_drive_erased :: "uuid \<Rightarrow> bool \<Rightarrow> ('h, unit) pnc_eff" where
  "set_drive_erased u flag = pnc_edit drives drives_update u (\<lambda>d. d\<lparr> m_erased := flag \<rparr>)"

definition remove_temporary_ports :: "('h, unit) pnc_eff" where
  "remove_temporary_ports = emodify (\<lambda>s. s\<lparr> ports := remove_by_parent [] (ports s) \<rparr>)"

subsection \<open>The databases of resources\<close>

text \<open>One operation on the database of a resource, and a read, after which the database is written back too.\<close>

definition pnc_entity :: "string \<Rightarrow> uuid \<Rightarrow> (aggregate \<Rightarrow> db_exception + aggregate) \<Rightarrow> ('h, unit) pnc_eff" where
  "pnc_entity nm u f s =
     (case with_entity (clock s) nm u f (attributes s) of
        (Inl e, pa) \<Rightarrow> (Inl (DbError e), s\<lparr> attributes := pa \<rparr>)
      | (Inr _, pa) \<Rightarrow> (Inr (), s\<lparr> attributes := pa \<rparr>))"

definition pnc_entity_read :: "string \<Rightarrow> uuid \<Rightarrow> (aggregate \<Rightarrow> db_exception + 'a) \<Rightarrow> ('h, 'a) pnc_eff" where
  "pnc_entity_read nm u get s =
     (case entity_open nm u (attributes s) of
        Inl e \<Rightarrow> (Inl (DbError e), s)
      | Inr a \<Rightarrow> (case get a of Inl e \<Rightarrow> Inl (DbError e) | Inr x \<Rightarrow> Inr x,
                  s\<lparr> attributes := pa_set_value (clock s) u nm (dump a) (attributes s) \<rparr>))"

definition pnc_entity_remove :: "string \<Rightarrow> uuid \<Rightarrow> ('h, unit) pnc_eff" where
  "pnc_entity_remove nm u s =
     (case entity_remove nm u (attributes s) of
        (Inl e, pa) \<Rightarrow> (Inl (DbError e), s\<lparr> attributes := pa \<rparr>)
      | (Inr _, pa) \<Rightarrow> (Inr (), s\<lparr> attributes := pa \<rparr>))"

definition DRIVE_ERASED :: string where
  "DRIVE_ERASED = ''drive_erased''"

definition DRIVES :: string where
  "DRIVES = ''drives''"

definition flag_string :: "bool \<Rightarrow> string" where
  "flag_string b = (if b then ''1'' else ''0'')"

text \<open>The templates for drives, whose parent is the chassis.\<close>

definition update_device_erased :: "uuid \<Rightarrow> bool \<Rightarrow> ('h, unit) pnc_eff" where
  "update_device_erased device_uuid erased =
     eseq (pnc_edit drives drives_update device_uuid (\<lambda>d. d\<lparr> m_erased := erased \<rparr>))
       (pnc_entity ''drive'' device_uuid (entity_put DRIVE_ERASED (flag_string erased)))"

definition sync_device_with_db :: "uuid \<Rightarrow> drive \<Rightarrow> ('h, drive) pnc_eff" where
  "sync_device_with_db parent_uuid device =
     ebind (pnc_entity_read ''chassis'' parent_uuid (\<lambda>a. Inr (agg_get_multiple_values a DRIVES))) (\<lambda>db_uuids.
       if get_uuid device \<in> set db_uuids
       then ebind (pnc_entity_read ''drive'' (get_uuid device) (agg_get DRIVE_ERASED)) (\<lambda>v.
              eret (device\<lparr> m_erased := (v = ''1'') \<rparr>))
       else eseq (pnc_entity ''drive'' (get_uuid device) (entity_put DRIVE_ERASED (flag_string (m_erased device))))
           (eseq (pnc_entity ''chassis'' parent_uuid (agg_append DRIVES (get_uuid device)))
             (eret device)))"

definition remove_device_from_db :: "uuid \<Rightarrow> uuid \<Rightarrow> ('h, unit) pnc_eff" where
  "remove_device_from_db device_uuid parent_uuid =
     eseq (pnc_entity ''chassis'' parent_uuid (entity_del device_uuid)) (pnc_entity_remove ''drive'' device_uuid)"

end
