(* ===== verification/Mrpc.thy ===== *)
theory Mrpc
  imports Pnc_Model
begin

text \<open>
  The register interface of the PCIe switch (\<open>agent/pnc/src/gas\<close>): the commands of its MRPC
  (memory-mapped remote procedure call) region with their byte layouts, the polling loop
  that runs a command, the top-level and partition registers, and the two-wire interface
  behind it. The access to the memory of the device is a parameter: a record of functions.
  Locks and waiting times are not modelled.
\<close>

unbundle bit_operations_syntax

subsection \<open>The access interface\<close>

text \<open>
  \<open>iface_read\<close> takes the size and the offset and gives the byte at every index;
  \<open>indeterminate\<close> is the value of the bytes of a buffer that the code never sets, and
  \<open>poll_limit\<close> bounds the rounds of the polling loops.
\<close>

record 'h access_interface =
  iface_init :: "string \<Rightarrow> 'h \<Rightarrow> (pnc_exception + unit) \<times> 'h"
  iface_read :: "nat \<Rightarrow> nat \<Rightarrow> 'h \<Rightarrow> (pnc_exception + (nat \<Rightarrow> u8)) \<times> 'h"
  iface_write :: "u8 list \<Rightarrow> nat \<Rightarrow> 'h \<Rightarrow> (pnc_exception + unit) \<times> 'h"
  indeterminate :: u8
  poll_limit :: nat

type_synonym ('h, 'a) hw_eff = "('h, pnc_exception, 'a) eff"

definition read_bytes :: "'h access_interface \<Rightarrow> nat \<Rightarrow> nat \<Rightarrow> ('h, u8 list) hw_eff" where
  "read_bytes i nbytes offset = ebind (iface_read i nbytes offset) (\<lambda>f. eret (map f [0..<nbytes]))"

definition MRPC_INPUT_DATA_REG_OFFSET :: nat where
  "MRPC_INPUT_DATA_REG_OFFSET = 0x0"

definition MRPC_OUTPUT_DATA_REG_OFFSET :: nat where
  "MRPC_OUTPUT_DATA_REG_OFFSET = 0x400"

definition MRPC_COMMAND_REG_OFFSET :: nat where
  "MRPC_COMMAND_REG_OFFSET = 0x800"

definition MRPC_STATUS_REG_OFFSET :: nat where
  "MRPC_STATUS_REG_OFFSET = 0x804"

definition MRPC_COMMAND_RETURN_VALUE_REG_OFFSET :: nat where
  "MRPC_COMMAND_RETURN_VALUE_REG_OFFSET = 0x808"

definition TOP_SETTING_REG_OFFSET :: nat where
  "TOP_SETTING_REG_OFFSET = 0x1000"

definition SWITCH_EVENT_REG_OFFSET :: nat where
  "SWITCH_EVENT_REG_OFFSET = 0x1800"

definition PARTITION_REG_OFFSET :: nat where
  "PARTITION_REG_OFFSET = 0x4000"

definition NTB_MEM_MAPPED_REG_OFFSET :: nat where
  "NTB_MEM_MAPPED_REG_OFFSET = 0x10000"

definition CSR_REG_OFFSET :: nat where
  "CSR_REG_OFFSET = 0x134000"

definition PM85X6_PHY_PORTS_NUMBER :: nat where
  "PM85X6_PHY_PORTS_NUMBER = 48"

definition PM85X6_MAX_PARTITIONS_NUMBER :: nat where
  "PM85X6_MAX_PARTITIONS_NUMBER = 48"

definition PARTITION_USED_REG_SIZE :: nat where
  "PARTITION_USED_REG_SIZE = 24 + 47 * 4"

subsection \<open>Running a command\<close>

text \<open>\<open>CommandStatus\<close> is an enumeration of bytes: the four bytes read are cut to the lowest.\<close>

abbreviation (input) Status_IDLE :: u8 where "Status_IDLE \<equiv> 0"
abbreviation (input) Status_IN_PROGRESS :: u8 where "Status_IN_PROGRESS \<equiv> 1"
abbreviation (input) Status_DONE :: u8 where "Status_DONE \<equiv> 2"
abbreviation (input) Status_FAILED :: u8 where "Status_FAILED \<equiv> 0xff"

definition le32 :: "u8 list \<Rightarrow> u32" where
  "le32 bs = ucast (bs ! 0) OR push_bit 8 (ucast (bs ! 1)) OR push_bit 16 (ucast (bs ! 2)) OR push_bit 24 (ucast (bs ! 3))"

definition mrpc_run :: "'h access_interface \<Rightarrow> u8 \<Rightarrow> ('h, unit) hw_eff" where
  "mrpc_run i code = iface_write i [code] MRPC_COMMAND_REG_OFFSET"

definition read_status :: "'h access_interface \<Rightarrow> ('h, u8) hw_eff" where
  "read_status i = ebind (read_bytes i 4 MRPC_STATUS_REG_OFFSET) (\<lambda>bs. eret (ucast (le32 bs)))"

text \<open>The loop that waits while the command is in progress, and the tries after a failure.\<close>

fun poll_status :: "'h access_interface \<Rightarrow> nat \<Rightarrow> ('h, u8) hw_eff" where
  "poll_status i 0 = ethrow OutOfFuel"
| "poll_status i (Suc n) =
     ebind (read_status i) (\<lambda>st. if st = Status_IN_PROGRESS then poll_status i n else eret st)"

fun retry_status :: "'h access_interface \<Rightarrow> nat \<Rightarrow> u8 \<Rightarrow> ('h, u8) hw_eff" where
  "retry_status i 0 st = eret st"
| "retry_status i (Suc tries) st =
     (if st = Status_FAILED then ebind (read_status i) (retry_status i tries) else eret st)"

text \<open>A command: its code, what it writes, what it reads and its output before anything was read.\<close>

record ('h, 'o) mrpc_command =
  command_code :: u8
  write_input :: "('h, unit) hw_eff"
  read_output :: "('h, 'o) hw_eff"
  initial_output :: 'o

definition execute_cmd :: "'h access_interface \<Rightarrow> ('h, 'o) mrpc_command \<Rightarrow> ('h, u8 \<times> 'o) hw_eff" where
  "execute_cmd i cmd =
     eseq (write_input cmd)
    (eseq (mrpc_run i (command_code cmd))
    (ebind (poll_status i (poll_limit i)) (\<lambda>st.
     ebind (retry_status i 3 st) (\<lambda>status.
       if status = Status_FAILED then eret (status, initial_output cmd)
       else ebind (read_output cmd) (\<lambda>out. eret (status, out))))))"

subsection \<open>The commands\<close>

definition PORT_PARTITION_P2P_BINDING :: u8 where
  "PORT_PARTITION_P2P_BINDING = 0x0C"

definition read_return_value :: "'h access_interface \<Rightarrow> ('h, u32) hw_eff" where
  "read_return_value i = ebind (read_bytes i 4 MRPC_COMMAND_RETURN_VALUE_REG_OFFSET) (\<lambda>bs. eret (le32 bs))"

definition bind_port_cmd :: "'h access_interface \<Rightarrow> u8 \<Rightarrow> u8 \<Rightarrow> u8 \<Rightarrow> ('h, u32) mrpc_command" where
  "bind_port_cmd i partition_id logical_bridge_id phy_port_id =
     \<lparr> command_code = PORT_PARTITION_P2P_BINDING,
       write_input = iface_write i [0, partition_id, logical_bridge_id, phy_port_id] MRPC_INPUT_DATA_REG_OFFSET,
       read_output = read_return_value i,
       initial_output = 0 \<rparr>"

definition unbind_port_cmd :: "'h access_interface \<Rightarrow> u8 \<Rightarrow> u8 \<Rightarrow> u8 \<Rightarrow> ('h, u32) mrpc_command" where
  "unbind_port_cmd i partition_id logical_bridge_id option_code =
     \<lparr> command_code = PORT_PARTITION_P2P_BINDING,
       write_input = iface_write i [1, partition_id, logical_bridge_id, option_code] MRPC_INPUT_DATA_REG_OFFSET,
       read_output = read_return_value i,
       initial_output = 0 \<rparr>"

record port_binding =
  pb_phy_port_id :: u8
  pb_partition_id :: u8
  pb_logical_bridge_id :: u8
  pb_state_operation_result :: u8

record port_binding_info =
  pbi_ret_value :: u32
  pbi_info_count :: u8
  pbi_entries :: "port_binding list"

definition no_binding :: port_binding where
  "no_binding = \<lparr> pb_phy_port_id = 0, pb_partition_id = 0, pb_logical_bridge_id = 0, pb_state_operation_result = 0 \<rparr>"

text \<open>The output structure is filled with zero bytes; the entries that were read overwrite its front.\<close>

definition fill :: "'a \<Rightarrow> 'a list \<Rightarrow> 'a list" where
  "fill zero xs = xs @ replicate (PM85X6_PHY_PORTS_NUMBER - length xs) zero"

fun port_bindings_of :: "u8 list \<Rightarrow> port_binding list" where
  "port_bindings_of (a # b # c # d # bs) =
     \<lparr> pb_phy_port_id = a, pb_partition_id = b, pb_logical_bridge_id = c, pb_state_operation_result = d \<rparr> # port_bindings_of bs"
| "port_bindings_of _ = []"

definition port_binding_info_output :: "'h access_interface \<Rightarrow> ('h, port_binding_info) hw_eff" where
  "port_binding_info_output i =
     ebind (read_return_value i) (\<lambda>ret.
       if ret = 0
       then ebind (read_bytes i 1 MRPC_OUTPUT_DATA_REG_OFFSET) (\<lambda>c.
              if unat (c ! 0) > PM85X6_PHY_PORTS_NUMBER
              then ethrow (RuntimeError ''Too many ports on binding list.'')
              else ebind (read_bytes i (unat (c ! 0) * 4) (MRPC_OUTPUT_DATA_REG_OFFSET + 4)) (\<lambda>bs.
                     eret \<lparr> pbi_ret_value = ret, pbi_info_count = c ! 0, pbi_entries = fill no_binding (port_bindings_of bs) \<rparr>))
       else eret \<lparr> pbi_ret_value = ret, pbi_info_count = 0, pbi_entries = fill no_binding [] \<rparr>)"

definition port_binding_info_cmd :: "'h access_interface \<Rightarrow> u8 \<Rightarrow> ('h, port_binding_info) mrpc_command" where
  "port_binding_info_cmd i phy_port_id =
     \<lparr> command_code = PORT_PARTITION_P2P_BINDING,
       write_input = iface_write i [2, phy_port_id, indeterminate i, indeterminate i] MRPC_INPUT_DATA_REG_OFFSET,
       read_output = port_binding_info_output i,
       initial_output = \<lparr> pbi_ret_value = 0, pbi_info_count = 0, pbi_entries = fill no_binding [] \<rparr> \<rparr>"

record partition_binding =
  ptb_phy_port_id :: u8
  ptb_state_operation_result :: u8

record partition_binding_info =
  ptbi_ret_value :: u32
  ptbi_partition_id :: u8
  ptbi_logical_bridge_count :: u8
  ptbi_entries :: "partition_binding list"

definition no_partition_binding :: partition_binding where
  "no_partition_binding = \<lparr> ptb_phy_port_id = 0, ptb_state_operation_result = 0 \<rparr>"

fun partition_bindings_of :: "u8 list \<Rightarrow> partition_binding list" where
  "partition_bindings_of (a # b # bs) = \<lparr> ptb_phy_port_id = a, ptb_state_operation_result = b \<rparr> # partition_bindings_of bs"
| "partition_bindings_of _ = []"

text \<open>There is no check of the number of bridges: more than 48 entries overrun the output structure.\<close>

definition partition_binding_info_output :: "'h access_interface \<Rightarrow> ('h, partition_binding_info) hw_eff" where
  "partition_binding_info_output i =
     ebind (read_return_value i) (\<lambda>ret.
       if ret = 0
       then ebind (read_bytes i 1 MRPC_OUTPUT_DATA_REG_OFFSET) (\<lambda>p.
            ebind (read_bytes i 1 (MRPC_OUTPUT_DATA_REG_OFFSET + 1)) (\<lambda>c.
            ebind (read_bytes i (unat (c ! 0) * 2) (MRPC_OUTPUT_DATA_REG_OFFSET + 4)) (\<lambda>bs.
              if unat (c ! 0) > PM85X6_PHY_PORTS_NUMBER then ethrow UndefinedBehaviour
              else eret \<lparr> ptbi_ret_value = ret, ptbi_partition_id = p ! 0, ptbi_logical_bridge_count = c ! 0,
                          ptbi_entries = fill no_partition_binding (partition_bindings_of bs) \<rparr>)))
       else eret \<lparr> ptbi_ret_value = ret, ptbi_partition_id = 0, ptbi_logical_bridge_count = 0,
                   ptbi_entries = fill no_partition_binding [] \<rparr>)"

definition partition_binding_info_cmd :: "'h access_interface \<Rightarrow> u8 \<Rightarrow> ('h, partition_binding_info) mrpc_command" where
  "partition_binding_info_cmd i partition_id =
     \<lparr> command_code = PORT_PARTITION_P2P_BINDING,
       write_input = iface_write i [3, partition_id, indeterminate i, indeterminate i] MRPC_INPUT_DATA_REG_OFFSET,
       read_output = partition_binding_info_output i,
       initial_output = \<lparr> ptbi_ret_value = 0, ptbi_partition_id = 0, ptbi_logical_bridge_count = 0,
                          ptbi_entries = fill no_partition_binding [] \<rparr> \<rparr>"

record link_status =
  ls_ret_value :: u32
  ls_port_id :: u8
  ls_partition_id :: u8
  ls_logical_bridge_id :: u8
  ls_stack_id_port_id :: u8
  ls_cfg_link_width :: u8
  ls_neg_link_width :: u8
  ls_ups_flag :: u8
  ls_linkup_link_rate :: u8
  ls_major :: u8
  ls_minor :: u8

definition link_status_of :: "u32 \<Rightarrow> u8 list \<Rightarrow> link_status" where
  "link_status_of ret b =
     \<lparr> ls_ret_value = ret, ls_port_id = b ! 0, ls_partition_id = b ! 1, ls_logical_bridge_id = b ! 2,
       ls_stack_id_port_id = b ! 3, ls_cfg_link_width = b ! 4, ls_neg_link_width = b ! 5, ls_ups_flag = b ! 6,
       ls_linkup_link_rate = b ! 7, ls_major = b ! 8, ls_minor = b ! 9 \<rparr>"

definition le64_bytes :: "u64 \<Rightarrow> u8 list" where
  "le64_bytes w = map (\<lambda>k. ucast (drop_bit (8 * k) w)) [0..<8]"

definition link_status_retrieve_cmd :: "'h access_interface \<Rightarrow> u64 \<Rightarrow> ('h, link_status) mrpc_command" where
  "link_status_retrieve_cmd i input_data =
     \<lparr> command_code = 0x1C,
       write_input = iface_write i (le64_bytes input_data) MRPC_INPUT_DATA_REG_OFFSET,
       read_output = ebind (read_return_value i) (\<lambda>ret.
         if ret = 0 then ebind (read_bytes i 10 MRPC_OUTPUT_DATA_REG_OFFSET) (\<lambda>b. eret (link_status_of ret b))
         else eret (link_status_of ret (replicate 10 0))),
       initial_output = link_status_of 0 (replicate 10 0) \<rparr>"

subsection \<open>The two-wire interface\<close>

definition TWI_DATA_MAX_SIZE :: nat where
  "TWI_DATA_MAX_SIZE = 1012"

definition twi_header :: "u8 \<Rightarrow> u8 \<Rightarrow> u16 \<Rightarrow> u16 \<Rightarrow> u16 \<Rightarrow> bool \<Rightarrow> u8 list" where
  "twi_header sub_command twi_port slave_addr offset bytes_num is_16bit_offset =
     [sub_command, twi_port, ucast slave_addr, ucast (drop_bit 8 slave_addr), ucast offset, ucast (drop_bit 8 offset), 0, 0,
      ucast bytes_num, ucast (drop_bit 8 bytes_num), 0, (if is_16bit_offset then 2 else 1)]"

definition twi_access_write_cmd ::
    "'h access_interface \<Rightarrow> u8 \<Rightarrow> u16 \<Rightarrow> u16 \<Rightarrow> u8 list \<Rightarrow> u16 \<Rightarrow> bool \<Rightarrow> ('h, u32) mrpc_command" where
  "twi_access_write_cmd i port address offset data nbytes is_16bit_offset =
     \<lparr> command_code = 1,
       write_input =
         (if unat nbytes > TWI_DATA_MAX_SIZE then ethrow (RuntimeError ''Write data is too large.'')
          else iface_write i (twi_header 1 port address offset nbytes is_16bit_offset @ take (unat nbytes) data) MRPC_INPUT_DATA_REG_OFFSET),
       read_output = read_return_value i,
       initial_output = 0 \<rparr>"

definition twi_access_read_cmd ::
    "'h access_interface \<Rightarrow> u8 \<Rightarrow> u16 \<Rightarrow> u16 \<Rightarrow> u16 \<Rightarrow> bool \<Rightarrow> ('h, u32 \<times> u8 list) mrpc_command" where
  "twi_access_read_cmd i port address offset nbytes is_16bit_offset =
     \<lparr> command_code = 1,
       write_input =
         (if unat nbytes > TWI_DATA_MAX_SIZE then ethrow (RuntimeError ''Requested read data is too large.'')
          else iface_write i (twi_header 0 port address offset nbytes is_16bit_offset @ [0]) MRPC_INPUT_DATA_REG_OFFSET),
       read_output =
         (if unat nbytes > TWI_DATA_MAX_SIZE then ethrow (RuntimeError ''Requested read data is too large.'')
          else ebind (read_return_value i) (\<lambda>ret.
                 if ret = 0 then ebind (read_bytes i (unat nbytes) MRPC_OUTPUT_DATA_REG_OFFSET) (\<lambda>bs. eret (ret, bs))
                 else eret (ret, replicate (unat nbytes) 0))),
       initial_output = (0, replicate (unat nbytes) 0) \<rparr>"

definition gas_i2c_write :: "'h access_interface \<Rightarrow> u8 \<Rightarrow> u16 \<Rightarrow> u16 \<Rightarrow> u8 list \<Rightarrow> u16 \<Rightarrow> bool \<Rightarrow> ('h, unit) hw_eff" where
  "gas_i2c_write i port address offset data nbytes is_16bit_offset =
     ebind (execute_cmd i (twi_access_write_cmd i port address offset data nbytes is_16bit_offset)) (\<lambda>(status, ret).
       if status \<noteq> Status_DONE then ethrow (RuntimeError ''Cannot execute GAS TWI write command.'')
       else if ret \<noteq> 0 then ethrow (RuntimeError ''TWI writing failed.'')
       else eret ())"

text \<open>\<open>memcpy_s\<close> refuses a copy of no bytes.\<close>

definition gas_i2c_read :: "'h access_interface \<Rightarrow> u8 \<Rightarrow> u16 \<Rightarrow> u16 \<Rightarrow> u16 \<Rightarrow> bool \<Rightarrow> ('h, u8 list) hw_eff" where
  "gas_i2c_read i port address offset nbytes is_16bit_offset =
     ebind (execute_cmd i (twi_access_read_cmd i port address offset nbytes is_16bit_offset)) (\<lambda>(status, ret, bs).
       if status \<noteq> Status_DONE then ethrow (RuntimeError ''Cannot execute GAS TWI read command.'')
       else if ret \<noteq> 0 then ethrow (RuntimeError ''TWI reading failed.'')
       else if nbytes = 0 then ethrow (RuntimeError ''Cannot access TWI read result: '')
       else eret bs)"

subsection \<open>The registers\<close>

text \<open>The fields of the top-level and partition registers that the agent reads, and the bytes of the configuration space.\<close>

record gas_registers =
  top_current_partition_id :: u8
  partition_ports_number :: u32
  partition_usp_inst_id :: u32
  csr_raw :: "u8 list"

definition empty_gas :: gas_registers where
  "empty_gas = \<lparr> top_current_partition_id = 0, partition_ports_number = 0, partition_usp_inst_id = 0, csr_raw = replicate 192 0 \<rparr>"

text \<open>\<open>read_register\<close> turns every exception of the interface into a failed status.\<close>

definition read_register :: "'h access_interface \<Rightarrow> nat \<Rightarrow> nat \<Rightarrow> string \<Rightarrow> ('h, u8 list) hw_eff" where
  "read_register i nbytes offset msg = try_catch (read_bytes i nbytes offset) (\<lambda>_. ethrow (RuntimeError msg))"

definition read_top :: "'h access_interface \<Rightarrow> gas_registers \<Rightarrow> ('h, gas_registers) hw_eff" where
  "read_top i gas =
     ebind (read_register i (SWITCH_EVENT_REG_OFFSET - TOP_SETTING_REG_OFFSET) TOP_SETTING_REG_OFFSET
              ''GAS error: cannot read TOP data.'') (\<lambda>bs.
       eret (gas\<lparr> top_current_partition_id := bs ! 8 \<rparr>))"

definition read_partition :: "'h access_interface \<Rightarrow> u8 \<Rightarrow> gas_registers \<Rightarrow> ('h, gas_registers) hw_eff" where
  "read_partition i partition_id gas =
     ebind (read_register i PARTITION_USED_REG_SIZE
              (PARTITION_REG_OFFSET + ((NTB_MEM_MAPPED_REG_OFFSET - PARTITION_REG_OFFSET) div PM85X6_MAX_PARTITIONS_NUMBER) * unat partition_id)
              (''GAS error: cannot read Partition Configuration data, partitionId = '' @ to_string (unat partition_id))) (\<lambda>bs.
       eret (gas\<lparr> partition_ports_number := le32 (drop 8 bs), partition_usp_inst_id := le32 (drop 16 bs) \<rparr>))"

definition read_csr :: "'h access_interface \<Rightarrow> u8 \<Rightarrow> gas_registers \<Rightarrow> ('h, gas_registers) hw_eff" where
  "read_csr i instance_id gas =
     ebind (read_register i 192 (CSR_REG_OFFSET + 4096 * unat instance_id + 64)
              (''GAS error: cannot read CSR data, instanceId = '' @ to_string (unat instance_id))) (\<lambda>bs.
       eret (gas\<lparr> csr_raw := bs \<rparr>))"

definition get_default :: "'h access_interface \<Rightarrow> string \<Rightarrow> ('h, gas_registers) hw_eff" where
  "get_default i path =
     try_catch (eseq (iface_init i path) (eret empty_gas)) (\<lambda>_. ethrow (RuntimeError ''Cannot initialize PCIe interface: ''))"

subsection \<open>Binding states\<close>

definition get_operation_result_enum :: "u8 \<Rightarrow> u8" where
  "get_operation_result_enum operation_state = operation_state AND 0x0f"

definition get_binding_state_enum :: "u8 \<Rightarrow> u8" where
  "get_binding_state_enum operation_state = drop_bit 4 (operation_state AND 0xf0)"

abbreviation (input) Result_SUCCESS :: u8 where "Result_SUCCESS \<equiv> 0"
abbreviation (input) Result_FAILED :: u8 where "Result_FAILED \<equiv> 1"
abbreviation (input) Result_IN_PROGRESS :: u8 where "Result_IN_PROGRESS \<equiv> 2"

definition NO_PORT_ASSIGNED :: u8 where
  "NO_PORT_ASSIGNED = 0xff"

definition int_to_string :: "int \<Rightarrow> string" where
  "int_to_string n = (if n < 0 then ''-'' @ to_string (nat (- n)) else to_string (nat n))"

definition p2p_binding_result :: "(u32 \<times> string) list" where
  "p2p_binding_result =
     [(0x0, ''Command succeeded''), (0x1, ''Physical port already bound''),
      (0x2, ''Logical bridge binding instance already bound''), (0x3, ''Partition does not exist''),
      (0x4, ''Physical port does not exist''), (0x5, ''Physical port disabled''),
      (0x6, ''No logical bridge binding instance''), (0x7, ''Bind/unbind in progress''),
      (0x8, ''Bind/unbind target is USP''), (0x9, ''Sub command does not exist''),
      (0xA, ''Physical port link active''), (0xB, ''Logical bridge binding instance not bound to physical port''),
      (0xC, ''Invalid unbind option'')]"

definition get_p2p_binding_command_result :: "u32 \<Rightarrow> string" where
  "get_p2p_binding_command_result v =
     (case map_of p2p_binding_result v of Some s \<Rightarrow> s | None \<Rightarrow> ''Unknown value: '' @ int_to_string (sint v))"

definition operation_result_names :: "(u8 \<times> string) list" where
  "operation_result_names = [(0, ''Success''), (1, ''Failed''), (2, ''In progress''), (0xf, ''N/A'')]"

definition get_operation_result :: "u8 \<Rightarrow> string" where
  "get_operation_result operation_state =
     (case map_of operation_result_names (get_operation_result_enum operation_state) of
        Some s \<Rightarrow> s | None \<Rightarrow> ''Unknown value: '' @ to_string (unat operation_state))"

definition binding_state_names :: "(u8 \<times> string) list" where
  "binding_state_names = [(0, ''Unbound''), (1, ''Bound''), (0xf, ''N/A'')]"

definition get_binding_state :: "u8 \<Rightarrow> string" where
  "get_binding_state operation_state =
     (case map_of binding_state_names (get_binding_state_enum operation_state) of
        Some s \<Rightarrow> s | None \<Rightarrow> ''Unknown value: '' @ to_string (unat operation_state))"

subsection \<open>Running a command returns\<close>

lemma le32_low: "ucast (le32 bs) = bs ! 0"
  by (rule bit_word_eqI) (simp add: le32_def bit_simps)

text \<open>A device whose status register can be read: \<open>status h\<close> is the byte read, \<open>next h\<close> the device afterwards.\<close>

definition status_readable :: "'h access_interface \<Rightarrow> ('h \<Rightarrow> u8) \<Rightarrow> ('h \<Rightarrow> 'h) \<Rightarrow> bool" where
  "status_readable i status nxt \<longleftrightarrow>
     (\<forall>h. \<exists>f. iface_read i 4 MRPC_STATUS_REG_OFFSET h = (Inr f, nxt h) \<and> f 0 = status h)"

lemma read_status_eq: "status_readable i status nxt \<Longrightarrow> read_status i h = (Inr (status h), nxt h)"
  unfolding status_readable_def read_status_def read_bytes_def
  by (drule spec[of _ h]) (auto simp: eff_simps le32_low upt_rec)

lemma poll_status_ends:
  assumes "status_readable i status nxt" "\<forall>k < n. status ((nxt ^^ k) h) = Status_IN_PROGRESS"
    and "status ((nxt ^^ n) h) \<noteq> Status_IN_PROGRESS" "n < limit"
  shows "poll_status i limit h = (Inr (status ((nxt ^^ n) h)), (nxt ^^ Suc n) h)"
  using assms(2-)
proof (induction n arbitrary: h limit)
  case 0
  then show ?case by (cases limit) (simp_all add: eff_simps read_status_eq[OF assms(1)])
next
  case (Suc n)
  from Suc.prems(1) have busy: "status h = Status_IN_PROGRESS" by force
  have shift: "(nxt ^^ k) (nxt h) = (nxt ^^ Suc k) h" for k by (simp add: funpow_swap1)
  obtain l where l: "limit = Suc l" using Suc.prems(3) by (cases limit) auto
  have "poll_status i l (nxt h) = (Inr (status ((nxt ^^ n) (nxt h))), (nxt ^^ Suc n) (nxt h))"
    using Suc.prems l by (intro Suc.IH) (auto simp: shift simp del: funpow.simps)
  with busy l show ?case by (simp add: eff_simps read_status_eq[OF assms(1)] shift del: funpow.simps)
qed

lemma retry_status_eq:
  assumes "status_readable i status nxt" "\<forall>k < j. status ((nxt ^^ k) h) = Status_FAILED" "status ((nxt ^^ j) h) \<noteq> Status_FAILED" "j < tries"
  shows "retry_status i tries Status_FAILED h = (Inr (status ((nxt ^^ j) h)), (nxt ^^ Suc j) h)"
  using assms(2-)
proof (induction j arbitrary: h tries)
  case 0
  then obtain t where "tries = Suc t" by (cases tries) auto
  with 0 show ?case by (cases t) (simp_all add: eff_simps read_status_eq[OF assms(1)])
next
  case (Suc j)
  from Suc.prems(1) have failed: "status h = Status_FAILED" by force
  have shift: "(nxt ^^ k) (nxt h) = (nxt ^^ Suc k) h" for k by (simp add: funpow_swap1)
  obtain t where t: "tries = Suc t" using Suc.prems(3) by (cases tries) auto
  have "retry_status i t Status_FAILED (nxt h) = (Inr (status ((nxt ^^ j) (nxt h))), (nxt ^^ Suc j) (nxt h))"
    using Suc.prems t by (intro Suc.IH) (auto simp: shift simp del: funpow.simps)
  with failed t show ?case by (simp add: eff_simps read_status_eq[OF assms(1)] shift del: funpow.simps)
qed

lemma retry_status_exhausted:
  assumes "status_readable i status nxt" "\<forall>k < tries. status ((nxt ^^ k) h) = Status_FAILED"
  shows "retry_status i tries Status_FAILED h = (Inr Status_FAILED, (nxt ^^ tries) h)"
  using assms(2)
proof (induction tries arbitrary: h)
  case (Suc t)
  have shift: "(nxt ^^ k) (nxt h) = (nxt ^^ Suc k) h" for k by (simp add: funpow_swap1)
  from Suc.prems have failed: "status h = Status_FAILED" by force
  have "retry_status i t Status_FAILED (nxt h) = (Inr Status_FAILED, (nxt ^^ t) (nxt h))"
    using Suc.prems by (intro Suc.IH) (auto simp: shift simp del: funpow.simps)
  with failed show ?case by (simp add: eff_simps read_status_eq[OF assms(1)] shift del: funpow.simps)
qed simp

lemma execute_cmd_started:
  assumes "write_input cmd h = (Inr (), h1)" "iface_write i [command_code cmd] MRPC_COMMAND_REG_OFFSET h1 = (Inr (), h2)"
    and "poll_status i (poll_limit i) h2 = (Inr st, h3)" "retry_status i 3 st h3 = (Inr st', h4)"
  shows "execute_cmd i cmd h =
    (if st' = Status_FAILED then (Inr (st', initial_output cmd), h4)
     else case read_output cmd h4 of (Inl e, h5) \<Rightarrow> (Inl e, h5) | (Inr out, h5) \<Rightarrow> (Inr (st', out), h5))"
  using assms by (simp add: execute_cmd_def mrpc_run_def eff_simps split: prod.split sum.split)

lemma retry_status_done: "st \<noteq> Status_FAILED \<Longrightarrow> retry_status i tries st h = (Inr st, h)"
  by (cases tries) simp_all

lemma retry_status_after:
  assumes r: "status_readable i status nxt" and f: "\<forall>k < j. status ((nxt ^^ (n + k)) h) = Status_FAILED" and le: "j \<le> 4"
    and ok: "j < 4 \<longrightarrow> status ((nxt ^^ (n + j)) h) \<noteq> Status_FAILED"
  shows "retry_status i 3 (status ((nxt ^^ n) h)) ((nxt ^^ Suc n) h) =
    (Inr (status ((nxt ^^ (n + min j 3)) h)), (nxt ^^ Suc (n + min j 3)) h)"
proof (cases j)
  case 0
  with ok show ?thesis by (simp add: retry_status_done)
next
  case (Suc m)
  have shift: "(nxt ^^ k) ((nxt ^^ Suc n) h) = (nxt ^^ (n + Suc k)) h" for k
    by (simp add: funpow_add[symmetric, THEN fun_cong, unfolded comp_apply] add.commute del: funpow.simps)
  have fm: "\<forall>k < m. status ((nxt ^^ k) ((nxt ^^ Suc n) h)) = Status_FAILED"
    using f Suc by (auto simp: shift simp del: funpow.simps)
  have first: "status ((nxt ^^ n) h) = Status_FAILED" using f Suc by force
  show ?thesis
  proof (cases "m < 3")
    case True
    then have "status ((nxt ^^ m) ((nxt ^^ Suc n) h)) \<noteq> Status_FAILED" using ok Suc by (simp add: shift del: funpow.simps)
    from retry_status_eq[OF r fm this True] first Suc True show ?thesis by (simp add: shift min_def del: funpow.simps)
  next
    case False
    with le Suc have m: "m = 3" by simp
    have last: "status ((nxt ^^ (n + 3)) h) = Status_FAILED" using f Suc m by simp
    from retry_status_exhausted[OF r fm[unfolded m]] first last Suc m show ?thesis by (simp add: shift add.commute del: funpow.simps)
  qed
qed

lemma poll_status_exhausted:
  assumes "status_readable i status nxt" "\<forall>k < limit. status ((nxt ^^ k) h) = Status_IN_PROGRESS"
  shows "poll_status i limit h = (Inl OutOfFuel, (nxt ^^ limit) h)"
  using assms(2)
proof (induction limit arbitrary: h)
  case (Suc limit)
  have shift: "(nxt ^^ k) (nxt h) = (nxt ^^ Suc k) h" for k by (simp add: funpow_swap1)
  from Suc.prems have busy: "status h = Status_IN_PROGRESS" by force
  have "poll_status i limit (nxt h) = (Inl OutOfFuel, (nxt ^^ limit) (nxt h))"
    using Suc.prems by (intro Suc.IH) (auto simp: shift simp del: funpow.simps)
  with busy show ?case by (simp add: eff_simps read_status_eq[OF assms(1)] shift del: funpow.simps)
qed simp

text \<open>
  C32: What a command that was written and started ends with, for every sequence of status values.
  Let n be the number of readings in progress at the start, up to the limit of the model, and j the number
  of readings that follow with a failure, up to four. When n reaches the limit, the agent is still
  waiting (the loop of the code has no limit: a device that stays in progress is waited for without end). Otherwise
  up to three failures are forgiven: a fourth returns the failure without any output read; before
  that, the first other status is returned with the output of the command. That status need
  not be \<open>DONE\<close>: \<open>IDLE\<close> ends the wait although the comment says it is waited for, and
  \<open>IN_PROGRESS\<close> after a failure is taken as the end as well.
\<close>

theorem execute_cmd_outcome:
  assumes "write_input cmd h = (Inr (), h1)" "iface_write i [command_code cmd] MRPC_COMMAND_REG_OFFSET h1 = (Inr (), h2)"
    and "status_readable i status nxt"
    and "\<forall>k < n. status ((nxt ^^ k) h2) = Status_IN_PROGRESS" "n \<le> poll_limit i"
    and "n < poll_limit i \<longrightarrow> status ((nxt ^^ n) h2) \<noteq> Status_IN_PROGRESS"
    and "\<forall>k < j. status ((nxt ^^ (n + k)) h2) = Status_FAILED" "j \<le> 4"
    and "j < 4 \<longrightarrow> status ((nxt ^^ (n + j)) h2) \<noteq> Status_FAILED"
  shows "execute_cmd i cmd h =
    (if n = poll_limit i then (Inl OutOfFuel, (nxt ^^ n) h2)
     else if j = 4 then (Inr (Status_FAILED, initial_output cmd), (nxt ^^ (n + 4)) h2)
     else case read_output cmd ((nxt ^^ (n + j + 1)) h2) of
            (Inl e, h5) \<Rightarrow> (Inl e, h5)
          | (Inr out, h5) \<Rightarrow> (Inr (status ((nxt ^^ (n + j)) h2), out), h5))"
proof (cases "n = poll_limit i")
  case True
  then have "poll_status i (poll_limit i) h2 = (Inl OutOfFuel, (nxt ^^ n) h2)"
    using poll_status_exhausted[OF assms(3), of "poll_limit i" h2] assms(4) by simp
  then show ?thesis using True assms(1,2) by (simp add: execute_cmd_def mrpc_run_def eff_simps)
next
  case limit: False
  then have "n < poll_limit i" "status ((nxt ^^ n) h2) \<noteq> Status_IN_PROGRESS" using assms(5,6) by simp_all
  from poll_status_ends[OF assms(3,4) this(2,1)]
  have p: "poll_status i (poll_limit i) h2 = (Inr (status ((nxt ^^ n) h2)), (nxt ^^ Suc n) h2)" .
  note r = retry_status_after[OF assms(3,7,8,9)]
  have last: "status ((nxt ^^ (n + min j 3)) h2) = Status_FAILED \<longleftrightarrow> j = 4"
  proof (cases "j = 4")
    case True
    with assms(7)[rule_format, of 3] show ?thesis by simp
  next
    case False
    with assms(8,9) show ?thesis by (simp add: min_def)
  qed
  show ?thesis
  proof (cases "j = 4")
    case True
    with execute_cmd_started[OF assms(1,2) p r] last limit show ?thesis by (simp add: add.commute del: funpow.simps)
  next
    case False
    with assms(8) have "min j 3 = j" by simp
    note start = execute_cmd_started[OF assms(1,2) p r, unfolded this]
    from last False \<open>min j 3 = j\<close> start limit show ?thesis by (simp del: funpow.simps)
  qed
qed

text \<open>A device that is busy twice, fails once and is done: its state is the number of status reads.\<close>

definition counting_device :: "nat access_interface" where
  "counting_device =
     \<lparr> iface_init = \<lambda>_ h. (Inr (), h),
       iface_read = \<lambda>_ offset h. if offset = MRPC_STATUS_REG_OFFSET
         then (Inr (\<lambda>k. if k = 0 then (if h < 2 then 1 else if h = 2 then 0xff else 2) else 0), Suc h)
         else (Inr (\<lambda>_. 0), h),
       iface_write = \<lambda>_ _ h. (Inr (), h), indeterminate = 0, poll_limit = 5 \<rparr>"

theorem execute_cmd_outcome_witness:
  "execute_cmd counting_device (bind_port_cmd counting_device 3 1 8) 0 = (Inr (Status_DONE, 0), 4)"
proof -
  let ?st = "\<lambda>h :: nat. if h < 2 then 1 else if h = 2 then 0xff else 2 :: u8"
  have pow: "(Suc ^^ k) 0 = k" for k by (induction k) auto
  have readable: "status_readable counting_device ?st Suc"
    by (simp add: status_readable_def counting_device_def)
  have "execute_cmd counting_device (bind_port_cmd counting_device 3 1 8) 0 =
    (if 2 = poll_limit counting_device then (Inl OutOfFuel, (Suc ^^ 2) 0)
     else if 1 = (4 :: nat) then (Inr (Status_FAILED, initial_output (bind_port_cmd counting_device 3 1 8)), (Suc ^^ (2 + 4)) 0)
     else case read_output (bind_port_cmd counting_device 3 1 8) ((Suc ^^ (2 + 1 + 1)) 0) of
            (Inl e, h5) \<Rightarrow> (Inl e, h5)
          | (Inr out, h5) \<Rightarrow> (Inr (?st ((Suc ^^ (2 + 1)) 0), out), h5))"
    by (rule execute_cmd_outcome[OF _ _ readable])
      (simp_all add: pow counting_device_def bind_port_cmd_def del: funpow.simps)
  moreover have "read_output (bind_port_cmd counting_device 3 1 8) 4 = (Inr 0, 4)"
    by (simp add: bind_port_cmd_def read_return_value_def read_bytes_def counting_device_def eff_simps
        MRPC_COMMAND_RETURN_VALUE_REG_OFFSET_def MRPC_STATUS_REG_OFFSET_def le32_def upt_rec)
  ultimately show ?thesis by (simp add: pow counting_device_def del: funpow.simps)
qed

text \<open>
  The two queries treat the number of entries the device reports differently. For both,
  a number of at most 48 is accepted; for a larger one the query of a port throws, while the
  query of a partition writes past the end of its output structure.
\<close>

theorem unchecked_bridge_count:
  assumes "\<And>k offset h. iface_read i k offset h = (Inr (\<lambda>j. memory (offset + j)), h)"
    and "\<And>j. j < 4 \<Longrightarrow> memory (MRPC_COMMAND_RETURN_VALUE_REG_OFFSET + j) = 0"
    and "48 < unat (memory MRPC_OUTPUT_DATA_REG_OFFSET)" "48 < unat (memory (MRPC_OUTPUT_DATA_REG_OFFSET + 1))"
  shows "port_binding_info_output i h = (Inl (RuntimeError ''Too many ports on binding list.''), h)
    \<and> partition_binding_info_output i h = (Inl UndefinedBehaviour, h)"
proof -
  have "read_return_value i h = (Inr 0, h)"
    using assms(2)[of 0] assms(2)[of 1] assms(2)[of 2] assms(2)[of 3]
    by (simp add: read_return_value_def read_bytes_def assms(1) eff_simps le32_def upt_rec numeral_3_eq_3)
  with assms(3,4) show ?thesis
    by (simp add: port_binding_info_output_def partition_binding_info_output_def read_bytes_def assms(1) eff_simps
        PM85X6_PHY_PORTS_NUMBER_def)
qed

definition flat_device :: "(nat \<Rightarrow> u8) \<Rightarrow> unit access_interface" where
  "flat_device memory =
     \<lparr> iface_init = \<lambda>_ h. (Inr (), h), iface_read = \<lambda>_ offset h. (Inr (\<lambda>j. memory (offset + j)), h),
       iface_write = \<lambda>_ _ h. (Inr (), h), indeterminate = 0, poll_limit = 1 \<rparr>"

theorem unchecked_bridge_count_witness:
  "port_binding_info_output (flat_device (\<lambda>a. if a < 0x500 then 49 else 0)) () = (Inl (RuntimeError ''Too many ports on binding list.''), ())
   \<and> partition_binding_info_output (flat_device (\<lambda>a. if a < 0x500 then 49 else 0)) () = (Inl UndefinedBehaviour, ())"
  by (rule unchecked_bridge_count[where memory = "\<lambda>a. if a < 0x500 then 49 else 0"])
    (simp_all add: flat_device_def MRPC_COMMAND_RETURN_VALUE_REG_OFFSET_def MRPC_OUTPUT_DATA_REG_OFFSET_def)

end
