(* ===== verification/Gas_Tool.thy ===== *)
theory Gas_Tool
  imports Mrpc
begin

text \<open>
  \<open>GasTool\<close> (\<open>agent/pnc/src/tools/gas_tool.cpp\<close>): binding ports of the switch to partitions
  and releasing them, on top of the commands of \<open>Mrpc\<close>. Operations that also read the model
  of the agent run on its whole state. Not modelled: the release of the NVMe driver of the
  management host, which works on sysfs.
\<close>

definition on_hw :: "('h, 'a) hw_eff \<Rightarrow> ('h, 'a) pnc_eff" where
  "on_hw m s = (case m (hardware s) of (r, h) \<Rightarrow> (r, s\<lparr> hardware := h \<rparr>))"

text \<open>An element of one of the fixed arrays of 48 entries.\<close>

definition entry_at :: "'a list \<Rightarrow> nat \<Rightarrow> ('s, pnc_exception, 'a) eff" where
  "entry_at xs k = (if k < PM85X6_PHY_PORTS_NUMBER then eret (xs ! k) else ethrow UndefinedBehaviour)"

subsection \<open>Queries\<close>

definition read_csr_for_usp_port :: "'h access_interface \<Rightarrow> u8 \<Rightarrow> gas_registers \<Rightarrow> ('h, bool \<times> gas_registers) hw_eff" where
  "read_csr_for_usp_port i partition_id gas h =
     (case read_partition i partition_id gas h of
        (Inl e, h') \<Rightarrow> (if catchable e then (Inr (False, gas), h') else (Inl e, h'))
      | (Inr gas', h') \<Rightarrow>
          if partition_usp_inst_id gas' = 0xFFFFFFFF then (Inr (False, gas'), h')
          else (case read_csr i (ucast (partition_usp_inst_id gas')) gas' h' of
                  (Inl e, h'') \<Rightarrow> (if catchable e then (Inr (False, gas'), h'') else (Inl e, h''))
                | (Inr gas'', h'') \<Rightarrow> (Inr (True, gas''), h'')))"

definition get_port_binding_info :: "'h access_interface \<Rightarrow> u8 \<Rightarrow> ('h, port_binding_info) hw_eff" where
  "get_port_binding_info i physical_id =
     ebind (execute_cmd i (port_binding_info_cmd i physical_id)) (\<lambda>(status, out).
       if status \<noteq> Status_DONE
       then ethrow (PncError (''Cannot execute PartitionBindingInfo command. MRPC status code: '' @ to_string (unat status)))
       else if pbi_ret_value out \<noteq> 0
       then ethrow (PncError (''Cannot execute PortBindingInfo command. Command status code: ''
              @ get_p2p_binding_command_result (pbi_ret_value out)))
       else eret out)"

definition get_all_port_binding_info :: "'h access_interface \<Rightarrow> ('h, port_binding_info) hw_eff" where
  "get_all_port_binding_info i = get_port_binding_info i 0xFF"

definition get_partition_binding_info :: "'h access_interface \<Rightarrow> u8 \<Rightarrow> ('h, partition_binding_info) hw_eff" where
  "get_partition_binding_info i partition_id =
     ebind (execute_cmd i (partition_binding_info_cmd i partition_id)) (\<lambda>(status, out).
       if status \<noteq> Status_DONE
       then ethrow (PncError (''Cannot execute PartitionBindingInfo command. MRPC status code: '' @ to_string (unat status)))
       else if ptbi_ret_value out \<noteq> 0
       then ethrow (PncError (''Cannot execute PartitionBindingInfo command. Command status code: ''
              @ get_p2p_binding_command_result (ptbi_ret_value out)))
       else eret out)"

text \<open>The number of ports is unsigned: with no port at all the bound wraps round.\<close>

definition bridge_num_to_phys_port_id :: "'h access_interface \<Rightarrow> gas_registers \<Rightarrow> u8 \<Rightarrow> ('h, u8) hw_eff" where
  "bridge_num_to_phys_port_id i gas bridge_num =
     (if ucast bridge_num \<ge> partition_ports_number gas - 1
      then ethrow (RuntimeError ''Bridge number out of range'')
      else ebind (get_partition_binding_info i (top_current_partition_id gas)) (\<lambda>out.
           ebind (entry_at (ptbi_entries out) (unat bridge_num + 1)) (\<lambda>b. eret (ptb_phy_port_id b))))"

definition get_link_status :: "'h access_interface \<Rightarrow> u8 \<Rightarrow> ('h, link_status) hw_eff" where
  "get_link_status i phys_port_id =
     (if unat phys_port_id \<ge> PM85X6_PHY_PORTS_NUMBER then ethrow (RuntimeError ''Incorrect PCIe port Id'')
      else ebind (execute_cmd i (link_status_retrieve_cmd i (push_bit (unat phys_port_id) 1))) (\<lambda>(status, out).
             if status \<noteq> Status_DONE \<or> ls_ret_value out \<noteq> 0
             then ethrow (RuntimeError ''Cannot get PCIe Port Link status.'')
             else eret out))"

definition get_logical_bridge_for_port :: "port_binding_info \<Rightarrow> ('s, pnc_exception, u8) eff" where
  "get_logical_bridge_for_port pbi =
     (if pbi_info_count pbi \<noteq> 1 then ethrow (RuntimeError ''Incorrect port binding info'')
      else if pb_partition_id (pbi_entries pbi ! 0) = 0xFF \<or> pb_logical_bridge_id (pbi_entries pbi ! 0) = 0xFF
      then ethrow (RuntimeError ''Incorrect port binding info'')
      else eret (pb_logical_bridge_id (pbi_entries pbi ! 0)))"

text \<open>The bridges of a partition other than bridge 0, in order, and which of them hold no port.\<close>

fun first_free_bridge :: "partition_binding list \<Rightarrow> nat \<Rightarrow> nat \<Rightarrow> nat option" where
  "first_free_bridge entries bridge_id 0 = None"
| "first_free_bridge entries bridge_id (Suc n) =
     (if ptb_phy_port_id (entries ! bridge_id) = NO_PORT_ASSIGNED then Some bridge_id
      else first_free_bridge entries (bridge_id + 1) n)"

definition get_available_bridge_id :: "partition_binding_info \<Rightarrow> ('s, pnc_exception, u8) eff" where
  "get_available_bridge_id pbi =
     (case first_free_bridge (ptbi_entries pbi) 1 (unat (ptbi_logical_bridge_count pbi) - 1) of
        Some bridge_id \<Rightarrow> eret (of_nat bridge_id)
      | None \<Rightarrow> ethrow (PncError ''No logical bridge available in the partition.''))"

fun count_free_bridges :: "partition_binding list \<Rightarrow> nat \<Rightarrow> nat \<Rightarrow> u8 \<Rightarrow> u8" where
  "count_free_bridges entries bridge_id 0 available_bridges = available_bridges"
| "count_free_bridges entries bridge_id (Suc n) available_bridges =
     count_free_bridges entries (bridge_id + 1) n
       (if ptb_phy_port_id (entries ! bridge_id) = NO_PORT_ASSIGNED then available_bridges + 1 else available_bridges)"

definition get_available_bridges_count :: "partition_binding_info \<Rightarrow> u8" where
  "get_available_bridges_count pbi = count_free_bridges (ptbi_entries pbi) 1 (unat (ptbi_logical_bridge_count pbi) - 1) 0"

text \<open>
  The presence register has the bits in the opposite order. The complement of the 16-bit
  value is taken on \<open>int\<close> and then widened to 64 bits with its sign.
\<close>

definition reverse_byte :: "u8 \<Rightarrow> u8" where
  "reverse_byte lsb_byte = foldl (\<lambda>acc k. if bit lsb_byte k then set_bit (7 - k) acc else acc) 0 [0..<8]"

definition presence_mask :: "u8 \<Rightarrow> u8 \<Rightarrow> u64" where
  "presence_mask ports_0_14 ports_32_46 =
     (let all_ports = (ucast (reverse_byte ports_0_14) :: u16) OR push_bit 8 (ucast (reverse_byte ports_32_46))
      in scast (NOT (ucast all_ports :: u32)))"

definition get_presence_bitmask :: "'h access_interface \<Rightarrow> ('h, u64) hw_eff" where
  "get_presence_bitmask i =
     ebind (gas_i2c_read i 0x2 0x0040 0 1 False) (\<lambda>ports_0_14.
     ebind (gas_i2c_read i 0x1 0x0040 0 1 False) (\<lambda>ports_32_46.
       eret (presence_mask (ports_0_14 ! 0) (ports_32_46 ! 0))))"

subsection \<open>Binding and unbinding a port\<close>

text \<open>The loops ask until the operation is no longer in progress.\<close>

fun poll_binding :: "'h access_interface \<Rightarrow> u8 \<Rightarrow> u8 \<Rightarrow> nat \<Rightarrow> ('h, u8) hw_eff" where
  "poll_binding i partition_id bridge_id 0 = ethrow OutOfFuel"
| "poll_binding i partition_id bridge_id (Suc n) =
     ebind (get_partition_binding_info i partition_id) (\<lambda>out.
     ebind (entry_at (ptbi_entries out) (unat bridge_id)) (\<lambda>b.
       let result = get_operation_result_enum (ptb_state_operation_result b)
       in if result = Result_IN_PROGRESS then poll_binding i partition_id bridge_id n else eret result))"

definition check_port_binding_result :: "'h access_interface \<Rightarrow> u8 \<Rightarrow> u8 \<Rightarrow> ('h, unit) hw_eff" where
  "check_port_binding_result i partition_id bridge_id =
     ebind (get_partition_binding_info i partition_id) (\<lambda>_.
     ebind (poll_binding i partition_id bridge_id (poll_limit i)) (\<lambda>result.
       if result \<noteq> Result_SUCCESS
       then ethrow (PncError (''Binding port failed. Command result : '' @ get_operation_result result))
       else eret ()))"

fun poll_unbinding :: "'h access_interface \<Rightarrow> u8 \<Rightarrow> nat \<Rightarrow> ('h, u8) hw_eff" where
  "poll_unbinding i phys_port_id 0 = ethrow OutOfFuel"
| "poll_unbinding i phys_port_id (Suc n) =
     ebind (get_port_binding_info i phys_port_id) (\<lambda>out.
       let result = get_operation_result_enum (pb_state_operation_result (pbi_entries out ! 0))
       in if result = Result_IN_PROGRESS then poll_unbinding i phys_port_id n else eret result)"

definition check_port_unbinding_result :: "'h access_interface \<Rightarrow> u8 \<Rightarrow> ('h, unit) hw_eff" where
  "check_port_unbinding_result i phys_port_id =
     ebind (get_port_binding_info i phys_port_id) (\<lambda>_.
     ebind (poll_unbinding i phys_port_id (poll_limit i)) (\<lambda>result.
       if result \<noteq> Result_SUCCESS
       then ethrow (PncError (''Unbinding port failed. Command result '' @ get_operation_result result))
       else eret ()))"

definition bind_to_partition :: "'h access_interface \<Rightarrow> u8 \<Rightarrow> u8 \<Rightarrow> u8 \<Rightarrow> ('h, unit) hw_eff" where
  "bind_to_partition i phys_port_id partition_id bridge_id =
     ebind (execute_cmd i (bind_port_cmd i partition_id bridge_id phys_port_id)) (\<lambda>(status, ret_value).
       if status \<noteq> Status_DONE
       then ethrow (PncError (''Cannot bind function to partition. MRPC status code: '' @ to_string (unat status)))
       else if ret_value \<noteq> 0
       then ethrow (PncError (''Cannot bind function to partition. Command status code: '' @ get_p2p_binding_command_result ret_value))
       else check_port_binding_result i partition_id bridge_id)"

definition unbind_from_partition :: "'h access_interface \<Rightarrow> u8 \<Rightarrow> u8 \<Rightarrow> ('h, unit) hw_eff" where
  "unbind_from_partition i partition_id bridge_id =
     ebind (get_partition_binding_info i partition_id) (\<lambda>partition_info.
     ebind (entry_at (ptbi_entries partition_info) (unat bridge_id)) (\<lambda>b.
     ebind (execute_cmd i (unbind_port_cmd i partition_id bridge_id 2)) (\<lambda>(gas_ret, cmd_ret).
       if gas_ret \<noteq> Status_DONE
       then ethrow (PncError (''Cannot execute UnbindPort command. MRPC status code: '' @ to_string (unat gas_ret)))
       else if cmd_ret \<noteq> 0
       then ethrow (PncError (''Cannot execute UnbindPort command. Command status code: '' @ get_p2p_binding_command_result cmd_ret))
       else check_port_unbinding_result i (ptb_phy_port_id b))))"

subsection \<open>Endpoints, zones and devices\<close>

text \<open>Zone, initiator endpoint, port, physical port, binding: the first binding found gives the partition.\<close>

fun partition_of_ports :: "port_binding list \<Rightarrow> uuid list \<Rightarrow> ('h, u8 option) pnc_eff" where
  "partition_of_ports bindings [] = eret None"
| "partition_of_ports bindings (port_uuid # ports_uuids) =
     ebind (pnc_get ports port_uuid) (\<lambda>p.
       case find (\<lambda>b. unat (pb_phy_port_id b) = unat (m_phys_port_id p)) bindings of
         Some b \<Rightarrow> eret (Some (pb_partition_id b))
       | None \<Rightarrow> partition_of_ports bindings ports_uuids)"

fun partition_of_endpoints :: "port_binding list \<Rightarrow> uuid list \<Rightarrow> ('h, u8 option) pnc_eff" where
  "partition_of_endpoints bindings [] = eret None"
| "partition_of_endpoints bindings (endpoint_uuid # endpoints_uuids) =
     ebind (pnc_get endpoints endpoint_uuid) (\<lambda>e.
       if first_role e = Some Initiator
       then ebind (eget (\<lambda>s. m2m_get_children (endpoint_port s) endpoint_uuid)) (\<lambda>ps.
            ebind (partition_of_ports bindings ps) (\<lambda>found.
              case found of Some p \<Rightarrow> eret (Some p) | None \<Rightarrow> partition_of_endpoints bindings endpoints_uuids))
       else partition_of_endpoints bindings endpoints_uuids)"

definition get_partition_id_by_zone :: "'h access_interface \<Rightarrow> uuid \<Rightarrow> ('h, u8 option) pnc_eff" where
  "get_partition_id_by_zone i zone_uuid =
     ebind (eget (\<lambda>s. entry_exists (zones s) zone_uuid)) (\<lambda>known.
       if \<not> known then ethrow (ModelError (InvalidUuid EntryNotFound zone_uuid))
       else ebind (try_catch (ebind (on_hw (get_all_port_binding_info i)) (\<lambda>out. eret (Some out))) (\<lambda>_. eret None)) (\<lambda>cmd.
              case cmd of
                None \<Rightarrow> eret None
              | Some out \<Rightarrow>
                  ebind (eget (\<lambda>s. m2m_get_children (zone_endpoint s) zone_uuid))
                    (partition_of_endpoints (pbi_entries out))))"

definition phys_id8 :: "port \<Rightarrow> u8" where
  "phys_id8 p = ucast (m_phys_port_id p)"

definition bind_endpoint_to_zone :: "'h access_interface \<Rightarrow> uuid \<Rightarrow> uuid \<Rightarrow> ('h, unit) pnc_eff" where
  "bind_endpoint_to_zone i zone_uuid endpoint_uuid =
     ebind (pnc_get zones zone_uuid) (\<lambda>z.
     ebind (get_partition_id_by_zone i (get_uuid z)) (\<lambda>partition_id.
       case partition_id of
         None \<Rightarrow> eret ()
       | Some part_id \<Rightarrow>
           ebind (on_hw (get_partition_binding_info i part_id)) (\<lambda>part_bi.
           ebind (eget (\<lambda>s. m2m_get_children (endpoint_port s) endpoint_uuid)) (\<lambda>ps.
             if unat (get_available_bridges_count part_bi) < length ps
             then ethrow (PncError ''Not enough empty bridges available in the partition'')
             else efor (\<lambda>port_uuid.
                    ebind (pnc_get ports port_uuid) (\<lambda>p.
                    ebind (on_hw (get_port_binding_info i (phys_id8 p))) (\<lambda>_.
                    ebind (get_available_bridge_id part_bi) (\<lambda>bridge_id.
                      on_hw (bind_to_partition i (phys_id8 p) part_id bridge_id))))) ps))))"

definition unbind_endpoint_from_zone :: "'h access_interface \<Rightarrow> uuid \<Rightarrow> uuid \<Rightarrow> ('h, unit) pnc_eff" where
  "unbind_endpoint_from_zone i zone_uuid endpoint_uuid =
     ebind (pnc_get zones zone_uuid) (\<lambda>_.
     ebind (eget (\<lambda>s. m2m_get_children (endpoint_port s) endpoint_uuid))
       (efor (\<lambda>port_uuid.
          ebind (pnc_get ports port_uuid) (\<lambda>p.
          ebind (on_hw (get_port_binding_info i (phys_id8 p))) (\<lambda>pbi.
            on_hw (unbind_from_partition i (pb_partition_id (pbi_entries pbi ! 0)) (pb_logical_bridge_id (pbi_entries pbi ! 0))))))))"

definition bind_device_to_mgmt_partition :: "'h access_interface \<Rightarrow> gas_registers \<Rightarrow> uuid \<Rightarrow> ('h, unit) pnc_eff" where
  "bind_device_to_mgmt_partition i gas0 device_uuid =
     ebind (on_hw (read_top i gas0)) (\<lambda>gas.
     ebind (eget (\<lambda>s. exists_in_components s device_uuid)) (\<lambda>known.
       if \<not> known then ethrow (PncError (''PCIe device with UUID = ['' @ [CHR 0x27] @ device_uuid @ [CHR 0x27] @ ''] not found.''))
       else ebind (get_ports_by_device_uuid device_uuid) (\<lambda>ps.
              case ps of
                [] \<Rightarrow> ethrow (PncError ''Cannot bind PCIe device to mgmt zone: pcie function not found'')
              | port_uuid # _ \<Rightarrow>
                  ebind (pnc_get ports port_uuid) (\<lambda>p.
                  ebind (on_hw (get_partition_binding_info i (top_current_partition_id gas))) (\<lambda>part_bi.
                  ebind (get_available_bridge_id part_bi) (\<lambda>bridge_id.
                  ebind (on_hw (get_port_binding_info i (phys_id8 p))) (\<lambda>port_bi.
                    if pb_partition_id (pbi_entries port_bi ! 0) = NO_PORT_ASSIGNED
                    then on_hw (bind_to_partition i (phys_id8 p) (top_current_partition_id gas) bridge_id)
                    else ethrow (PncError (''Cannot bind device to mgmt zone. Port already bound to partition ''
                           @ to_string (unat (pb_partition_id (pbi_entries port_bi ! 0)))))))))))) "

definition unbind_device_from_mgmt_partition :: "'h access_interface \<Rightarrow> gas_registers \<Rightarrow> uuid \<Rightarrow> ('h, unit) pnc_eff" where
  "unbind_device_from_mgmt_partition i gas0 device_uuid =
     ebind (on_hw (read_top i gas0)) (\<lambda>_.
     ebind (eget (\<lambda>s. exists_in_components s device_uuid)) (\<lambda>known.
       if \<not> known then ethrow (PncError (''Device with UUID = ['' @ [CHR 0x27] @ device_uuid @ [CHR 0x27] @ ''] not found.''))
       else ebind (get_ports_by_device_uuid device_uuid) (\<lambda>ps.
              case ps of
                [] \<Rightarrow> ethrow (PncError ''Cannot unbind PCIe device from mgmt zone: pcie function not found'')
              | port_uuid # _ \<Rightarrow>
                  ebind (pnc_get ports port_uuid) (\<lambda>p.
                  ebind (on_hw (get_port_binding_info i (phys_id8 p))) (\<lambda>pbi.
                    if pb_partition_id (pbi_entries pbi ! 0) \<noteq> NO_PORT_ASSIGNED
                    then on_hw (unbind_from_partition i (pb_partition_id (pbi_entries pbi ! 0)) (pb_logical_bridge_id (pbi_entries pbi ! 0)))
                    else eret ())))))"

definition get_gas :: "'h access_interface \<Rightarrow> uuid \<Rightarrow> ('h, gas_registers) pnc_eff" where
  "get_gas i switch_uuid =
     ebind (pnc_get switches switch_uuid) (\<lambda>sw.
     ebind (on_hw (get_default i (m_memory_path sw))) (\<lambda>gas0.
     ebind (on_hw (read_top i gas0)) (\<lambda>gas.
       on_hw (read_partition i (top_current_partition_id gas) gas))))"

subsection \<open>Free bridges and presence\<close>

definition bridge_free :: "partition_binding_info \<Rightarrow> nat \<Rightarrow> bool" where
  "bridge_free pbi b \<longleftrightarrow> ptb_phy_port_id (ptbi_entries pbi ! b) = NO_PORT_ASSIGNED"

lemma upt_add_Suc: "[b..<b + Suc n] = b # [b + Suc 0..<b + Suc 0 + n]"
  by (simp add: upt_conv_Cons del: upt_Suc)

lemma first_free_bridge_find:
  "first_free_bridge es b n = find (\<lambda>k. ptb_phy_port_id (es ! k) = NO_PORT_ASSIGNED) [b..<b + n]"
  by (induction n arbitrary: b) (simp_all add: upt_add_Suc del: upt_Suc add_Suc_right)

lemma count_free_bridges_filter:
  "count_free_bridges es b n acc = acc + of_nat (length (filter (\<lambda>k. ptb_phy_port_id (es ! k) = NO_PORT_ASSIGNED) [b..<b + n]))"
  by (induction n arbitrary: b acc) (simp_all add: upt_add_Suc del: upt_Suc add_Suc_right)

text \<open>
  Choosing a bridge and counting the free ones agree. The bridge chosen in a partition is
  the first one after bridge 0, the upstream port, that holds no port, the choice fails
  exactly when there is none, and the number reported is exact: its 8 bits do not wrap.
\<close>

theorem available_bridges:
  "get_available_bridge_id pbi s =
     (case find (bridge_free pbi) [1..<unat (ptbi_logical_bridge_count pbi)] of
        Some b \<Rightarrow> (Inr (of_nat b), s)
      | None \<Rightarrow> (Inl (PncError ''No logical bridge available in the partition.''), s))
   \<and> unat (get_available_bridges_count pbi) = length (filter (bridge_free pbi) [1..<unat (ptbi_logical_bridge_count pbi)])
   \<and> ((\<exists>b. fst (get_available_bridge_id pbi s) = Inr b) \<longleftrightarrow> get_available_bridges_count pbi > 0)"
proof -
  let ?n = "unat (ptbi_logical_bridge_count pbi)"
  let ?free = "filter (bridge_free pbi) [1..<?n]"
  have range: "[1..<1 + (?n - 1)] = [1..<?n]" by (cases "?n = 0") auto
  have "?n < 256" using unsigned_less[of "ptbi_logical_bridge_count pbi", where ?'a = nat] by simp
  moreover have "length ?free \<le> ?n - 1" using length_filter_le[of "bridge_free pbi" "[1..<?n]"] by simp
  ultimately have small: "length ?free < 2 ^ 8" by simp
  have count: "get_available_bridges_count pbi = of_nat (length ?free)"
    by (simp add: get_available_bridges_count_def count_free_bridges_filter bridge_free_def[abs_def] range[simplified])
  then have unat_count: "unat (get_available_bridges_count pbi) = length ?free"
    using small by (simp add: unsigned_of_nat take_bit_nat_eq_self)
  have choice: "get_available_bridge_id pbi s =
     (case find (bridge_free pbi) [1..<?n] of
        Some b \<Rightarrow> (Inr (of_nat b), s)
      | None \<Rightarrow> (Inl (PncError ''No logical bridge available in the partition.''), s))"
    by (simp add: get_available_bridge_id_def first_free_bridge_find bridge_free_def[abs_def] range[simplified] split: option.split)
  have "(\<exists>b. fst (get_available_bridge_id pbi s) = Inr b) \<longleftrightarrow> find (bridge_free pbi) [1..<?n] \<noteq> None"
    by (simp add: choice split: option.split)
  also have "\<dots> \<longleftrightarrow> ?free \<noteq> []" by (auto simp: find_None_iff filter_empty_conv)
  also have "\<dots> \<longleftrightarrow> get_available_bridges_count pbi > 0"
    using unat_count by (simp add: word_less_nat_alt)
  finally show ?thesis using choice unat_count by blast
qed

lemma reverse_byte_bit: "bit (reverse_byte b) k \<longleftrightarrow> k < 8 \<and> bit b (7 - k)"
proof -
  have gen: "bit (foldl (\<lambda>acc k. if bit b k then set_bit (7 - k) acc else acc) acc ks) j \<longleftrightarrow>
      bit acc j \<or> (\<exists>i \<in> set ks. bit b i \<and> j = 7 - i)" if "j < 8" for acc :: u8 and ks j
    using that by (induction ks arbitrary: acc) (auto simp: bit_set_bit_iff possible_bit_word)
  show ?thesis
  proof (cases "k < 8")
    case True
    have "(\<exists>i \<in> {0..<8}. bit b i \<and> k = 7 - i) \<longleftrightarrow> bit b (7 - k)"
    proof
      show "\<exists>i \<in> {0..<8}. bit b i \<and> k = 7 - i" if "bit b (7 - k)"
        using that True by (intro bexI[of _ "7 - k"]) auto
    qed (use True in force)
    with True show ?thesis by (simp add: reverse_byte_def gen)
  next
    case False
    then show ?thesis using bit_imp_le_length[of "reverse_byte b" k] by auto
  qed
qed

text \<open>
  What the bits of the presence mask mean. Bit k of the first eight, and bit k of the next
  eight, is set when the register has a 0 at the mirrored place; every bit from 16 on is
  set whatever is plugged in, because the complement is widened with its sign.
\<close>

lemma presence_mask_bits:
  "bit (presence_mask a b) k \<longleftrightarrow>
     (if k < 8 then \<not> bit a (7 - k) else if k < 16 then \<not> bit b (15 - k) else k < 64)"
  by (simp add: presence_mask_def Let_def bit_simps reverse_byte_bit) (auto simp: min_def)

subsection \<open>Endpoints with several ports\<close>

text \<open>What the operations of \<open>GasTool\<close> leave alone: the model of the agent.\<close>

definition only_hardware :: "('h, 'a) pnc_eff \<Rightarrow> bool" where
  "only_hardware m \<longleftrightarrow> (\<forall>s. \<exists>h. snd (m s) = s\<lparr> hardware := h \<rparr>)"

lemma hardware_self: "s\<lparr> hardware := hardware s \<rparr> = s"
  by (cases s) simp

lemma only_hardwareE: "only_hardware m \<Longrightarrow> m s = (r, s') \<Longrightarrow> (\<And>h. s' = s\<lparr> hardware := h \<rparr> \<Longrightarrow> thesis) \<Longrightarrow> thesis"
  by (metis only_hardware_def snd_conv)

lemma only_hardware_same: "(\<And>s. snd (m s) = s) \<Longrightarrow> only_hardware m"
  unfolding only_hardware_def by (metis hardware_self)

lemma only_hardware_eret [simp]: "only_hardware (eret a)"
  and only_hardware_ethrow [simp]: "only_hardware (ethrow e)"
  and only_hardware_Pair [simp]: "only_hardware (Pair r)"
  and only_hardware_eget [simp]: "only_hardware (eget f)"
  and only_hardware_pnc_get [simp]: "only_hardware (pnc_get table u)"
  by (auto intro!: only_hardware_same simp: pnc_get_def split: sum.split)

lemma only_hardware_on_hw [simp]: "only_hardware (on_hw m)"
  by (auto simp: only_hardware_def on_hw_def split: prod.splits)

lemma only_hardware_step:
  assumes "snd ms = s\<lparr> hardware := h \<rparr>" "only_hardware f"
  shows "\<exists>h. snd (f (snd ms)) = s\<lparr> hardware := h \<rparr>"
proof -
  from assms(2) obtain h' where "snd (f (snd ms)) = (snd ms)\<lparr> hardware := h' \<rparr>" unfolding only_hardware_def by blast
  with assms(1) have "snd (f (snd ms)) = s\<lparr> hardware := h' \<rparr>" by simp
  then show ?thesis ..
qed

lemma only_hardware_bind [intro]:
  assumes "only_hardware m" "\<And>a. only_hardware (f a)"
  shows "only_hardware (ebind m f)"
  unfolding only_hardware_def
proof
  fix s
  obtain h where h: "snd (m s) = s\<lparr> hardware := h \<rparr>" using assms(1) unfolding only_hardware_def by blast
  show "\<exists>h. snd (ebind m f s) = s\<lparr> hardware := h \<rparr>"
  proof (cases "fst (m s)")
    case (Inl e)
    then have "snd (ebind m f s) = snd (m s)" by (cases "m s") (simp add: eff_simps)
    with h show ?thesis by metis
  next
    case (Inr a)
    then have "snd (ebind m f s) = snd (f a (snd (m s)))" by (cases "m s") (simp add: eff_simps)
    with only_hardware_step[OF h assms(2)] show ?thesis by metis
  qed
qed

lemma only_hardware_try:
  assumes "only_hardware m" "\<And>e. only_hardware (f e)"
  shows "only_hardware (try_catch m f)"
  unfolding only_hardware_def
proof
  fix s
  obtain h where h: "snd (m s) = s\<lparr> hardware := h \<rparr>" using assms(1) unfolding only_hardware_def by blast
  show "\<exists>h. snd (try_catch m f s) = s\<lparr> hardware := h \<rparr>"
  proof (cases "fst (m s)")
    case (Inr a)
    then have "snd (try_catch m f s) = snd (m s)" by (cases "m s") (simp add: try_catch_def eff_simps)
    with h show ?thesis by metis
  next
    case (Inl e)
    then have "snd (try_catch m f s) = (if catchable e then snd (f e (snd (m s))) else snd (m s))"
      by (cases "m s") (simp add: try_catch_def eff_simps)
    with h only_hardware_step[OF h assms(2)] show ?thesis by metis
  qed
qed

lemma only_hardware_partition_of_ports: "only_hardware (partition_of_ports bindings ps)"
  by (induction ps) (auto split: option.split)

lemma only_hardware_partition_of_endpoints: "only_hardware (partition_of_endpoints bindings es)"
  by (induction es) (auto split: option.split intro!: only_hardware_bind only_hardware_partition_of_ports)

lemma only_hardware_get_partition_id: "only_hardware (get_partition_id_by_zone i z)"
  unfolding get_partition_id_by_zone_def
  by (auto split: option.split intro!: only_hardware_bind only_hardware_try only_hardware_partition_of_endpoints)

text \<open>
  The documented behaviour of the switch: binding a port to a bridge that is taken does not
  succeed, a successful binding takes the bridge, and queries release no bridge.
\<close>

definition exclusive_bridges :: "'h access_interface \<Rightarrow> ('h \<Rightarrow> u8 \<Rightarrow> u8 \<Rightarrow> bool) \<Rightarrow> bool" where
  "exclusive_bridges i taken \<longleftrightarrow>
     (\<forall>h h' p b port. execute_cmd i (bind_port_cmd i p b port) h = (Inr (Status_DONE, 0), h') \<longrightarrow> \<not> taken h p b \<and> taken h' p b)
   \<and> (\<forall>h p b port. taken h p b \<longrightarrow> taken (snd (execute_cmd i (port_binding_info_cmd i port) h)) p b)
   \<and> (\<forall>h p b q. taken h p b \<longrightarrow> taken (snd (execute_cmd i (partition_binding_info_cmd i q) h)) p b)"

lemma get_port_binding_info_device:
  "snd (get_port_binding_info i port h) = snd (execute_cmd i (port_binding_info_cmd i port) h)"
  by (simp add: get_port_binding_info_def eff_simps split: prod.split sum.split)

lemma get_partition_binding_info_device:
  "snd (get_partition_binding_info i q h) = snd (execute_cmd i (partition_binding_info_cmd i q) h)"
  by (simp add: get_partition_binding_info_def eff_simps split: prod.split sum.split)

text \<open>An operation of the device that releases no bridge.\<close>

definition keeps :: "('h \<Rightarrow> bool) \<Rightarrow> ('h, 'a) hw_eff \<Rightarrow> bool" where
  "keeps P m \<longleftrightarrow> (\<forall>h. P h \<longrightarrow> P (snd (m h)))"

lemma keeps_simps [simp]: "keeps P (eret a)" "keeps P (ethrow e)" "keeps P (Pair r)"
  by (simp_all add: keeps_def)

lemma keeps_entry_at [simp]: "keeps P (entry_at xs k)"
  by (simp add: entry_at_def)

lemma keeps_ebind [intro]: "keeps P m \<Longrightarrow> (\<And>a. keeps P (f a)) \<Longrightarrow> keeps P (ebind m f)"
  unfolding keeps_def by (simp add: eff_simps split: prod.split sum.split) (metis snd_conv)

lemma keeps_port_info: "exclusive_bridges i taken \<Longrightarrow> keeps (\<lambda>h. taken h p b) (get_port_binding_info i port)"
  by (simp add: keeps_def get_port_binding_info_device exclusive_bridges_def)

lemma keeps_partition_info: "exclusive_bridges i taken \<Longrightarrow> keeps (\<lambda>h. taken h p b) (get_partition_binding_info i q)"
  by (simp add: keeps_def get_partition_binding_info_device exclusive_bridges_def)

lemma keeps_check_binding:
  assumes "exclusive_bridges i taken"
  shows "keeps (\<lambda>h. taken h p b) (check_port_binding_result i q c)"
proof -
  note info = keeps_partition_info[OF assms]
  have "keeps (\<lambda>h. taken h p b) (poll_binding i q c n)" for n
    by (induction n) (auto simp: Let_def intro!: keeps_ebind info)
  then show ?thesis
    unfolding check_port_binding_result_def by (auto intro!: keeps_ebind info)
qed

lemma bind_to_partition_takes:
  assumes excl: "exclusive_bridges i taken" and "bind_to_partition i port p b h = (Inr (), h')"
  shows "\<not> taken h p b \<and> taken h' p b"
proof -
  obtain r h1 where e: "execute_cmd i (bind_port_cmd i p b port) h = (r, h1)" by fastforce
  with assms(2) have "r = Inr (Status_DONE, 0)" and c: "check_port_binding_result i p b h1 = (Inr (), h')"
    by (auto simp: bind_to_partition_def eff_simps split: sum.splits if_splits)
  with e excl have "\<not> taken h p b \<and> taken h1 p b" unfolding exclusive_bridges_def by blast
  with keeps_check_binding[OF excl, of p b p b] c show ?thesis unfolding keeps_def by (metis snd_conv)
qed

text \<open>The body of the loop over the ports, with the bindings of the partition read before the loop.\<close>

definition bind_one_port :: "'h access_interface \<Rightarrow> u8 \<Rightarrow> partition_binding_info \<Rightarrow> uuid \<Rightarrow> ('h, unit) pnc_eff" where
  "bind_one_port i part_id part_bi port_uuid =
     ebind (pnc_get ports port_uuid) (\<lambda>p.
     ebind (on_hw (get_port_binding_info i (phys_id8 p))) (\<lambda>_.
     ebind (get_available_bridge_id part_bi) (\<lambda>bridge_id.
       on_hw (bind_to_partition i (phys_id8 p) part_id bridge_id))))"

lemma bind_one_port_takes:
  assumes excl: "exclusive_bridges i taken" and ok: "bind_one_port i part_id part_bi u s = (Inr (), s')"
    and b: "get_available_bridge_id part_bi s = (Inr b, s)"
  shows "\<not> taken (hardware s) part_id b \<and> taken (hardware s') part_id b"
proof -
  have bridge: "get_available_bridge_id part_bi x = (Inr b, x)" for x :: "'a pnc"
    using b by (simp add: get_available_bridge_id_def split: option.splits)
  obtain p where p: "pnc_get ports u s = (Inr p, s)"
    using ok by (auto simp: bind_one_port_def eff_simps pnc_get_def split: sum.splits)
  obtain r h1 where h1: "get_port_binding_info i (phys_id8 p) (hardware s) = (r, h1)" by fastforce
  with ok p obtain h2 where h2: "bind_to_partition i (phys_id8 p) part_id b h1 = (Inr (), h2)" and s': "hardware s' = h2"
    by (auto simp: bind_one_port_def eff_simps on_hw_def bridge split: sum.splits prod.splits)
  from keeps_port_info[OF excl, of part_id b "phys_id8 p"] h1 have "taken (hardware s) part_id b \<longrightarrow> taken h1 part_id b"
    unfolding keeps_def by (metis snd_conv)
  with bind_to_partition_takes[OF excl h2] s' show ?thesis by blast
qed

lemma two_ports_fail:
  assumes excl: "exclusive_bridges i taken" and len: "length us \<ge> 2"
  shows "efor (bind_one_port i part_id part_bi) us s \<noteq> (Inr (), s')"
proof
  assume ok: "efor (bind_one_port i part_id part_bi) us s = (Inr (), s')"
  from len obtain u v rest where us: "us = u # v # rest" by (cases us; cases "tl us") auto
  from ok us obtain s1 s2 where
    1: "bind_one_port i part_id part_bi u s = (Inr (), s1)" and 2: "bind_one_port i part_id part_bi v s1 = (Inr (), s2)"
    by (auto simp: eff_simps split: sum.splits prod.splits)
  obtain b where b: "get_available_bridge_id part_bi x = (Inr b, x)" for x :: "'a pnc"
    using 1 by (auto simp: bind_one_port_def get_available_bridge_id_def eff_simps split: sum.splits prod.splits option.splits)
  from bind_one_port_takes[OF excl 1 b] bind_one_port_takes[OF excl 2 b] show False by blast
qed

text \<open>
  C33: An endpoint with two or more ports is never bound to a zone that has a partition. The
  bindings of the partition are read once before the loop over the ports, so every port
  asks for the same bridge, and the switch refuses the second one.
\<close>

theorem multi_port_endpoint_not_bound:
  fixes s :: "'h pnc"
  assumes "exclusive_bridges i taken"
    and "get_entry (zones s) zone_uuid = Inr z" "fst (get_partition_id_by_zone i (get_uuid z) s) = Inr (Some part_id)"
    and "length (m2m_get_children (endpoint_port s) endpoint_uuid) \<ge> 2"
  shows "isl (fst (bind_endpoint_to_zone i zone_uuid endpoint_uuid s))"
proof -
  obtain s1 where s1: "get_partition_id_by_zone i (get_uuid z) s = (Inr (Some part_id), s1)"
    using assms(3) by (metis prod.collapse)
  from only_hardware_get_partition_id s1 obtain h where h: "s1 = s\<lparr> hardware := h \<rparr>" by (rule only_hardwareE)
  obtain r h2 where q: "get_partition_binding_info i part_id h = (r, h2)" by fastforce
  let ?ps = "m2m_get_children (endpoint_port s) endpoint_uuid"
  have loop: "fst (efor (bind_one_port i part_id part_bi) ?ps s') \<noteq> Inr ()" for part_bi s'
    using two_ports_fail[OF assms(1,4)] by (metis prod.collapse)
  have "fst (bind_endpoint_to_zone i zone_uuid endpoint_uuid s) \<noteq> Inr ()"
    using loop unfolding bind_endpoint_to_zone_def bind_one_port_def[abs_def]
    by (cases r) (simp_all add: ebind_apply pnc_get_def assms(2) s1 on_hw_def h q)
  then show ?thesis by (cases "fst (bind_endpoint_to_zone i zone_uuid endpoint_uuid s)") auto
qed

text \<open>A switch with one partition of four bridges, and an agent with a zone and an endpoint of two ports.\<close>

record sim_switch =
  sim_input :: "u8 list"
  sim_ret :: u8
  sim_out :: "u8 list"
  sim_bound :: "(u8 \<times> u8 \<times> u8) list"

definition sim_bridge :: "(u8 \<times> u8 \<times> u8) list \<Rightarrow> u8 \<Rightarrow> u8 \<Rightarrow> u8" where
  "sim_bridge bound p b = (case find (\<lambda>(p', b', _). p' = p \<and> b' = b) bound of Some (_, _, port) \<Rightarrow> port | None \<Rightarrow> 0xFF)"

fun sim_process :: "u8 list \<Rightarrow> sim_switch \<Rightarrow> sim_switch" where
  "sim_process [sub, x, b, port] h =
     (if sub = 0 then (if \<exists>q. (x, b, q) \<in> set (sim_bound h) then h\<lparr> sim_ret := 2 \<rparr>
                       else h\<lparr> sim_ret := 0, sim_bound := (x, b, port) # sim_bound h \<rparr>)
      else if sub = 2 then h\<lparr> sim_ret := 0, sim_out := [1, 0, 0, 0, 8, 3, 0, 0] \<rparr>
      else h\<lparr> sim_ret := 0, sim_out := [x, 4, 0, 0] @ concat (map (\<lambda>b. [sim_bridge (sim_bound h) x b, 0]) [0, 1, 2, 3]) \<rparr>)"
| "sim_process _ h = h"

definition sim_iface :: "sim_switch access_interface" where
  "sim_iface =
     \<lparr> iface_init = \<lambda>_ h. (Inr (), h),
       iface_read = \<lambda>_ offset h.
         (if offset = MRPC_STATUS_REG_OFFSET then (Inr (\<lambda>k. if k = 0 then 2 else 0), h)
          else if offset = MRPC_COMMAND_RETURN_VALUE_REG_OFFSET then (Inr (\<lambda>k. if k = 0 then sim_ret h else 0), h)
          else (Inr (\<lambda>k. sim_out h ! (offset - MRPC_OUTPUT_DATA_REG_OFFSET + k)), h)),
       iface_write = \<lambda>bs offset h.
         (if offset = MRPC_INPUT_DATA_REG_OFFSET then (Inr (), h\<lparr> sim_input := bs \<rparr>) else (Inr (), sim_process (sim_input h) h)),
       indeterminate = 0, poll_limit = 1 \<rparr>"

definition sim_taken :: "sim_switch \<Rightarrow> u8 \<Rightarrow> u8 \<Rightarrow> bool" where
  "sim_taken h p b \<longleftrightarrow> (\<exists>q. (p, b, q) \<in> set (sim_bound h))"

definition initiator_entity :: connected_entity where
  "initiator_entity = \<lparr> m_entity_role = Some Initiator, m_entity = None \<rparr>"

definition sim_agent :: "sim_switch pnc" where
  "sim_agent = (empty_pnc \<lparr> sim_input = [], sim_ret = 0, sim_out = [], sim_bound = [] \<rparr>)\<lparr>
     zones := \<lparr> m_manager_data = [new_zone ''z'' ''f''], m_current_epoch = 1 \<rparr>,
     endpoints := \<lparr> m_manager_data = [(new_endpoint ''i'' ''f'')\<lparr> m_connected_entities := [initiator_entity] \<rparr>, new_endpoint ''t'' ''f''],
                    m_current_epoch = 1 \<rparr>,
     ports := \<lparr> m_manager_data = [(new_port ''p8'' ''s'')\<lparr> m_phys_port_id := 8 \<rparr>, (new_port ''p10'' ''s'')\<lparr> m_phys_port_id := 10 \<rparr>,
                                 (new_port ''p12'' ''s'')\<lparr> m_phys_port_id := 12 \<rparr>], m_current_epoch = 1 \<rparr>,
     zone_endpoint := [(''z'', ''i'', [])],
     endpoint_port := [(''i'', ''p8'', []), (''t'', ''p10'', []), (''t'', ''p12'', [])] \<rparr>"

lemmas sim_offsets = MRPC_STATUS_REG_OFFSET_def MRPC_COMMAND_RETURN_VALUE_REG_OFFSET_def MRPC_OUTPUT_DATA_REG_OFFSET_def
  MRPC_INPUT_DATA_REG_OFFSET_def MRPC_COMMAND_REG_OFFSET_def

lemma sim_status: "status_readable sim_iface (\<lambda>_. Status_DONE) (\<lambda>h. h)"
  by (simp add: status_readable_def sim_iface_def)

lemma sim_limit: "poll_limit sim_iface = 1"
  by (simp add: sim_iface_def)

lemma sim_execute:
  assumes "write_input cmd h = (Inr (), h1)"
  shows "execute_cmd sim_iface cmd h =
    (case read_output cmd (sim_process (sim_input h1) h1) of (Inl e, h') \<Rightarrow> (Inl e, h') | (Inr out, h') \<Rightarrow> (Inr (Status_DONE, out), h'))"
proof -
  have run: "iface_write sim_iface [command_code cmd] MRPC_COMMAND_REG_OFFSET h1 = (Inr (), sim_process (sim_input h1) h1)"
    by (simp add: sim_iface_def sim_offsets)
  have "poll_status sim_iface (poll_limit sim_iface) (sim_process (sim_input h1) h1) = (Inr Status_DONE, sim_process (sim_input h1) h1)"
    using poll_status_ends[OF sim_status, where n = 0 and limit = 1] by (simp add: sim_limit del: poll_status.simps)
  from execute_cmd_started[OF assms run this retry_status_done] show ?thesis by simp
qed

lemma sim_read_bytes:
  "read_bytes sim_iface n MRPC_STATUS_REG_OFFSET h = (Inr (map (\<lambda>k. if k = 0 then 2 else 0) [0..<n]), h)"
  "read_bytes sim_iface n MRPC_COMMAND_RETURN_VALUE_REG_OFFSET h = (Inr (map (\<lambda>k. if k = 0 then sim_ret h else 0) [0..<n]), h)"
  "read_bytes sim_iface n MRPC_OUTPUT_DATA_REG_OFFSET h = (Inr (map (\<lambda>k. sim_out h ! k) [0..<n]), h)"
  "read_bytes sim_iface n (MRPC_OUTPUT_DATA_REG_OFFSET + 1) h = (Inr (map (\<lambda>k. sim_out h ! (1 + k)) [0..<n]), h)"
  "read_bytes sim_iface n (MRPC_OUTPUT_DATA_REG_OFFSET + 4) h = (Inr (map (\<lambda>k. sim_out h ! (4 + k)) [0..<n]), h)"
  by (simp_all add: read_bytes_def sim_iface_def eff_simps sim_offsets)

lemma sim_return_value: "read_return_value sim_iface h = (Inr (ucast (sim_ret h)), h)"
  by (simp add: read_return_value_def sim_read_bytes eff_simps le32_def upt_rec)

lemma sim_write: "iface_write sim_iface bs MRPC_INPUT_DATA_REG_OFFSET h = (Inr (), h\<lparr> sim_input := bs \<rparr>)"
  by (simp add: sim_iface_def)

lemma sim_execute_bytes:
  assumes "write_input cmd = iface_write sim_iface bs MRPC_INPUT_DATA_REG_OFFSET"
  shows "execute_cmd sim_iface cmd h =
    (case read_output cmd (sim_process bs (h\<lparr> sim_input := bs \<rparr>)) of
       (Inl e, h') \<Rightarrow> (Inl e, h') | (Inr out, h') \<Rightarrow> (Inr (Status_DONE, out), h'))"
  using sim_execute[of cmd h "h\<lparr> sim_input := bs \<rparr>"] assms by (simp add: sim_write)

lemma sim_bind:
  "execute_cmd sim_iface (bind_port_cmd sim_iface p b port) h =
     (let h1 = sim_process [0, p, b, port] (h\<lparr> sim_input := [0, p, b, port] \<rparr>) in (Inr (Status_DONE, ucast (sim_ret h1)), h1))"
  using sim_execute_bytes[of "bind_port_cmd sim_iface p b port" "[0, p, b, port]" h]
  by (simp add: bind_port_cmd_def sim_return_value Let_def del: sim_process.simps)

lemma sim_port_info_bound:
  "sim_bound (snd (execute_cmd sim_iface (port_binding_info_cmd sim_iface port) h)) = sim_bound h"
  using sim_execute_bytes[of "port_binding_info_cmd sim_iface port" "[2, port, indeterminate sim_iface, indeterminate sim_iface]" h]
  by (simp add: port_binding_info_cmd_def port_binding_info_output_def eff_simps sim_return_value sim_read_bytes)

lemma sim_partition_info_bound:
  "sim_bound (snd (execute_cmd sim_iface (partition_binding_info_cmd sim_iface q) h)) = sim_bound h"
  using sim_execute_bytes[of "partition_binding_info_cmd sim_iface q" "[3, q, indeterminate sim_iface, indeterminate sim_iface]" h]
  by (simp add: partition_binding_info_cmd_def partition_binding_info_output_def eff_simps sim_return_value sim_read_bytes[simplified])

lemma sim_exclusive: "exclusive_bridges sim_iface sim_taken"
  unfolding exclusive_bridges_def
  by (auto simp: sim_bind sim_taken_def sim_port_info_bound sim_partition_info_bound Let_def split: if_splits)

theorem multi_port_endpoint_not_bound_witness:
  "isl (fst (bind_endpoint_to_zone sim_iface ''z'' ''t'' sim_agent))"
proof (rule multi_port_endpoint_not_bound[OF sim_exclusive])
  show "get_entry (zones sim_agent) ''z'' = Inr (new_zone ''z'' ''f'')" by code_simp
  show "fst (get_partition_id_by_zone sim_iface (get_uuid (new_zone ''z'' ''f'')) sim_agent) = Inr (Some 3)" by code_simp
  show "2 \<le> length (m2m_get_children (endpoint_port sim_agent) ''t'')" by code_simp
qed

end
