(* ===== verification/Port_Worker.thy ===== *)
theory Port_Worker
  imports Gas_Tool
begin

text \<open>
  \<open>PortStateWorker\<close> (\<open>agent/pnc/src/state_machine/port_state_worker.cpp\<close>): the work behind the
  transitions of the state machine of a downstream port. What it calls of the discovery
  manager, and the release of a driver through sysfs, are a record of functions given to it.
\<close>

record 'h discovery =
  oob_port_device_discovery :: "gas_registers \<Rightarrow> uuid \<Rightarrow> ('h, bool) pnc_eff"
  ib_port_device_discovery :: "uuid \<Rightarrow> uuid \<Rightarrow> u8 \<Rightarrow> uuid \<Rightarrow> ('h, bool) pnc_eff"
  remove_devices_on_port :: "gas_registers \<Rightarrow> uuid \<Rightarrow> ('h, bool) pnc_eff"
  update_port_status :: "gas_registers \<Rightarrow> uuid \<Rightarrow> ('h, unit) pnc_eff"
  discovery_update_drive_status :: "uuid \<Rightarrow> uuid \<Rightarrow> ('h, unit) pnc_eff"
  unbind_management_host_driver :: "string \<Rightarrow> u8 \<Rightarrow> ('h, unit) pnc_eff"

definition get_bridge_id :: "'h access_interface \<Rightarrow> uuid \<Rightarrow> uuid \<Rightarrow> ('h, u8) pnc_eff" where
  "get_bridge_id i switch_uuid port_uuid =
     ebind (pnc_get ports port_uuid) (\<lambda>p.
     ebind (get_gas i switch_uuid) (\<lambda>_.
     ebind (on_hw (get_port_binding_info i (phys_id8 p))) get_logical_bridge_for_port))"

definition ib_discovery :: "'h discovery \<Rightarrow> uuid \<Rightarrow> uuid \<Rightarrow> u8 \<Rightarrow> uuid \<Rightarrow> ('h, unit) pnc_eff" where
  "ib_discovery d switch_uuid port_uuid bridge_id device_uuid =
     ebind (ib_port_device_discovery d switch_uuid port_uuid bridge_id device_uuid) (\<lambda>ok.
       if ok then eret () else ethrow (RuntimeError ''In-band discovery procedure failed''))"

definition bind_to_host :: "'h access_interface \<Rightarrow> uuid \<Rightarrow> uuid \<Rightarrow> ('h, u8) pnc_eff" where
  "bind_to_host i switch_uuid port_uuid =
     ebind (pnc_get ports port_uuid) (\<lambda>p.
     ebind (get_gas i switch_uuid) (\<lambda>gas.
     ebind (on_hw (get_partition_binding_info i (top_current_partition_id gas))) (\<lambda>pbi.
     ebind (get_available_bridge_id pbi) (\<lambda>bridge_id.
     eseq (on_hw (bind_to_partition i (phys_id8 p) (top_current_partition_id gas) bridge_id))
       (eret bridge_id)))))"

definition unbind_from_host :: "'h access_interface \<Rightarrow> 'h discovery \<Rightarrow> uuid \<Rightarrow> u8 \<Rightarrow> ('h, unit) pnc_eff" where
  "unbind_from_host i d switch_uuid bridge_id =
     ebind (pnc_get switches switch_uuid) (\<lambda>sw.
     ebind (get_gas i switch_uuid) (\<lambda>gas.
     eseq (unbind_management_host_driver d (m_bridge_path sw) bridge_id)
       (on_hw (unbind_from_partition i (top_current_partition_id gas) bridge_id))))"

definition get_device_uuid_by_dsp_port :: "uuid \<Rightarrow> ('h, uuid) pnc_eff" where
  "get_device_uuid_by_dsp_port port_uuid =
     ebind (eget (\<lambda>s. get_devices_by_dsp_port_uuid s port_uuid)) (\<lambda>devices.
       case devices of
         [device] \<Rightarrow> eret device
       | _ \<Rightarrow> ethrow (InvalidArgument ''Invalid number of devices using specified dsp port''))"

text \<open>Only \<open>std::invalid_argument\<close> is caught around the lookup of the device.\<close>

definition oob_discovery :: "'h access_interface \<Rightarrow> 'h discovery \<Rightarrow> uuid \<Rightarrow> uuid \<Rightarrow> ('h, uuid) pnc_eff" where
  "oob_discovery i d switch_uuid port_uuid =
     ebind (pnc_get ports port_uuid) (\<lambda>_.
     ebind (get_gas i switch_uuid) (\<lambda>gas.
     ebind (oob_port_device_discovery d gas port_uuid) (\<lambda>ok.
       if \<not> ok then ethrow (RuntimeError ''Out-of-band discovery procedure failed'')
       else ecatch (get_device_uuid_by_dsp_port port_uuid)
              (\<lambda>e. case e of InvalidArgument _ \<Rightarrow> eret [] | _ \<Rightarrow> ethrow e))))"

definition full_discovery :: "'h access_interface \<Rightarrow> 'h discovery \<Rightarrow> uuid \<Rightarrow> uuid \<Rightarrow> u8 \<Rightarrow> ('h, unit) pnc_eff" where
  "full_discovery i d switch_uuid port_uuid bridge_id =
     ebind (oob_discovery i d switch_uuid port_uuid) (\<lambda>device_uuid.
       ib_discovery d switch_uuid port_uuid bridge_id device_uuid)"

definition worker_remove :: "'h access_interface \<Rightarrow> 'h discovery \<Rightarrow> uuid \<Rightarrow> uuid \<Rightarrow> ('h, unit) pnc_eff" where
  "worker_remove i d switch_uuid port_uuid =
     ebind (get_gas i switch_uuid) (\<lambda>gas.
     ebind (remove_devices_on_port d gas port_uuid) (\<lambda>ok.
       if ok then eret () else ethrow (RuntimeError ''Remove procedure failed'')))"

subsection \<open>Locking a port\<close>

definition set_endpoints_status :: "state \<Rightarrow> uuid \<Rightarrow> uuid list \<Rightarrow> ('h, unit) pnc_eff" where
  "set_endpoints_status st fabric_uuid =
     efor (\<lambda>endpoint_uuid.
       eseq (pnc_edit endpoints endpoints_update endpoint_uuid (\<lambda>e. e\<lparr> m_status := healthy st \<rparr>))
         (pnc_send_event endpoint_uuid ''Endpoint'' Notify_Update fabric_uuid))"

definition endpoints_of_port :: "uuid \<Rightarrow> ('h, uuid list) pnc_eff" where
  "endpoints_of_port port_uuid = eget (\<lambda>s. m2m_get_parents (endpoint_port s) port_uuid)"

definition lock_port :: "uuid \<Rightarrow> ('h, unit) pnc_eff" where
  "lock_port port_uuid =
     eseq (try_catch
       (ebind (get_device_uuid_by_dsp_port port_uuid) (\<lambda>device_uuid.
        ebind (set_device_is_being_discovered device_uuid True) (\<lambda>_.
        ebind (eget (\<lambda>s. entry_exists (drives s) device_uuid)) (\<lambda>is_drive.
          if is_drive
          then try_catch
                 (eseq (set_drive_status device_uuid (healthy State_Starting))
                    (ebind get_chassis_uuid (\<lambda>chassis_uuid.
                       pnc_send_event device_uuid ''Drive'' Notify_Update chassis_uuid)))
                 (\<lambda>_. eret ())
          else eret ()))))
       (\<lambda>_. eret ()))
     (ebind get_fabric_uuid (\<lambda>fabric_uuid.
      ebind (endpoints_of_port port_uuid) (set_endpoints_status State_Starting fabric_uuid)))"

definition unlock_port :: "uuid \<Rightarrow> ('h, unit) pnc_eff" where
  "unlock_port port_uuid =
     eseq (try_catch
       (ebind (get_device_uuid_by_dsp_port port_uuid) (\<lambda>device_uuid.
        ebind (set_device_is_being_discovered device_uuid False) (\<lambda>_. eret ())))
       (\<lambda>_. eret ()))
     (ebind get_fabric_uuid (\<lambda>fabric_uuid.
      ebind (endpoints_of_port port_uuid) (set_endpoints_status State_Enabled fabric_uuid)))"

subsection \<open>Bindings of a port\<close>

definition get_enabled_endpoints_on_port :: "uuid \<Rightarrow> ('h, uuid list) pnc_eff" where
  "get_enabled_endpoints_on_port port_uuid =
     ebind (endpoints_of_port port_uuid)
       (efor_concat (\<lambda>endpoint_uuid. ebind (pnc_get endpoints endpoint_uuid) (\<lambda>e.
          eret (if status_state (m_status e) = State_Enabled then [endpoint_uuid] else []))))"

text \<open>A binding is a zone with an endpoint. \<open>std::sort\<close>, then \<open>std::unique\<close> and \<open>erase\<close>.\<close>

definition sort_unique :: "'a::linorder list \<Rightarrow> 'a list" where
  "sort_unique xs = remdups_adj (sort xs)"

definition get_bindings_on_port :: "uuid \<Rightarrow> ('h, (uuid \<times> uuid) list) pnc_eff" where
  "get_bindings_on_port port_uuid =
     ebind (get_enabled_endpoints_on_port port_uuid)
       (efor_concat (\<lambda>endpoint_uuid.
          eget (\<lambda>s. map (\<lambda>zone_uuid. (zone_uuid, endpoint_uuid)) (sort_unique (m2m_get_parents (zone_endpoint s) endpoint_uuid)))))"

definition attach_endpoint_to_zone :: "'h access_interface \<Rightarrow> uuid \<Rightarrow> uuid \<Rightarrow> uuid \<Rightarrow> ('h, unit) pnc_eff" where
  "attach_endpoint_to_zone i switch_uuid endpoint_uuid zone_uuid =
     ebind (get_gas i switch_uuid) (\<lambda>_.
     eseq (bind_endpoint_to_zone i zone_uuid endpoint_uuid)
    (eseq (emodify (\<lambda>s. s\<lparr> zone_endpoint := m2m_add_entry zone_uuid endpoint_uuid [] (zone_endpoint s) \<rparr>))
    (ebind get_fabric_uuid (\<lambda>fabric_uuid. pnc_send_event zone_uuid ''Zone'' Notify_Update fabric_uuid))))"

definition unbind_port :: "'h access_interface \<Rightarrow> uuid \<Rightarrow> uuid \<Rightarrow> ('h, unit) pnc_eff" where
  "unbind_port i switch_uuid port_uuid =
     ebind (get_gas i switch_uuid) (\<lambda>_.
     ebind (pnc_get ports port_uuid) (\<lambda>p.
     ebind (on_hw (get_port_binding_info i (phys_id8 p))) (\<lambda>port_info.
       on_hw (unbind_from_partition i (pb_partition_id (pbi_entries port_info ! 0)) (pb_logical_bridge_id (pbi_entries port_info ! 0))))))"

text \<open>\<open>std::adjacent_find\<close>; the predicate compares the zone of one binding with the endpoint of the next.\<close>

fun adjacent_find :: "('a \<Rightarrow> 'a \<Rightarrow> bool) \<Rightarrow> 'a list \<Rightarrow> bool" where
  "adjacent_find p (x # y # zs) \<longleftrightarrow> p x y \<or> adjacent_find p (y # zs)"
| "adjacent_find p _ \<longleftrightarrow> False"

definition is_port_in_valid_zone :: "uuid \<Rightarrow> ('h, bool) pnc_eff" where
  "is_port_in_valid_zone port_uuid =
     ebind (get_bindings_on_port port_uuid) (\<lambda>bindings.
       case bindings of
         [] \<Rightarrow> eret False
       | (zone_uuid, _) # _ \<Rightarrow>
           if adjacent_find (\<lambda>p1 p2. fst p1 \<noteq> snd p2) bindings
           then ethrow (RuntimeError ''Port exists in several zones by different endpoints'')
           else is_initiator_in_zone zone_uuid)"

subsection \<open>What the worker guarantees\<close>

text \<open>
  A port with one binding is in a valid zone when the zone has an initiator. A port with
  more bindings is never accepted: unless an endpoint has the identifier of the zone, the check
  throws that the port is in several zones, also when all bindings are in the same zone.
\<close>

theorem valid_zone_check:
  assumes "get_bindings_on_port port_uuid s = (Inr ((z, e) # rest), s)" "z \<notin> snd ` set rest"
  shows "is_port_in_valid_zone port_uuid s =
    (if rest = [] then is_initiator_in_zone z s
     else (Inl (RuntimeError ''Port exists in several zones by different endpoints''), s))"
  using assms by (cases rest) (auto simp: is_port_in_valid_zone_def eff_simps)

definition two_endpoints_agent :: "unit pnc" where
  "two_endpoints_agent = (empty_pnc ())\<lparr>
     endpoints := \<lparr> m_manager_data = [(new_endpoint ''e1'' ''f'')\<lparr> m_status := healthy State_Enabled \<rparr>,
                                     (new_endpoint ''e2'' ''f'')\<lparr> m_status := healthy State_Enabled \<rparr>], m_current_epoch = 1 \<rparr>,
     endpoint_port := [(''e1'', ''p'', []), (''e2'', ''p'', [])],
     zone_endpoint := [(''z'', ''e1'', []), (''z'', ''e2'', [])] \<rparr>"

theorem valid_zone_check_witness:
  "is_port_in_valid_zone ''p'' two_endpoints_agent =
     (Inl (RuntimeError ''Port exists in several zones by different endpoints''), two_endpoints_agent)"
proof -
  have parents: "m2m_get_parents (endpoint_port two_endpoints_agent) ''p'' = [''e1'', ''e2'']"
    "m2m_get_parents (zone_endpoint two_endpoints_agent) ''e1'' = [''z'']"
    "m2m_get_parents (zone_endpoint two_endpoints_agent) ''e2'' = [''z'']" by code_simp+
  have entries: "get_entry (endpoints two_endpoints_agent) ''e1'' = Inr ((new_endpoint ''e1'' ''f'')\<lparr> m_status := healthy State_Enabled \<rparr>)"
    "get_entry (endpoints two_endpoints_agent) ''e2'' = Inr ((new_endpoint ''e2'' ''f'')\<lparr> m_status := healthy State_Enabled \<rparr>)" by code_simp+
  have "get_bindings_on_port ''p'' two_endpoints_agent = (Inr [(''z'', ''e1''), (''z'', ''e2'')], two_endpoints_agent)"
    by (simp add: get_bindings_on_port_def get_enabled_endpoints_on_port_def endpoints_of_port_def eff_simps
        pnc_get_def parents entries healthy_def sort_unique_def)
  from valid_zone_check[OF this] show ?thesis by simp
qed

end
