(* ===== verification/Port_State.thy ===== *)
theory Port_State
  imports Port_Worker State_Machine
begin

text \<open>
  \<open>PortStateManager\<close> (\<open>agent/pnc/src/state_machine/port_state_manager.cpp\<close>): the state machine of
  a downstream port. The table and the generation of events are defined over the actions of
  the machine as a record of functions, on a world of type \<open>'w\<close>; the actions of the code are
  an instance of that record. An exception caught by an action makes it return false.
\<close>

datatype port_state = Initial | Init_MgmtHost | Init_NonMgmtHost | Oob_Busy | Full_Standby | NoDevice_Busy | NoDevice

datatype port_event = BindingToMgmtHostDetected | BindingToNonMgmtHostDetected | BindingNotDetected
  | DeviceFound | DeviceNotFound | DeviceUnbound | DeviceHotPlugged | DeviceHotUnplugged
  | ModelBindingNotDetected | IllegalBindingDetected

subsection \<open>The table and the events\<close>

record ('w, 'x) port_hooks =
  do_bind :: "('w, 'x, bool) eff"
  do_full_unbind :: "('w, 'x, bool) eff"
  do_unbind :: "('w, 'x, bool) eff"
  do_oob :: "('w, 'x, bool) eff"
  do_ib_bind_unbind :: "('w, 'x, bool) eff"
  do_remove :: "('w, 'x, bool) eff"
  do_full_bind_unbind_recover :: "('w, 'x, bool) eff"
  do_bindings_recover :: "('w, 'x, bool) eff"
  do_unbind_nonmgmt :: "('w, 'x, bool) eff"
  do_unbind_nonmgmt_ib_discovery :: "('w, 'x, bool) eff"
  in_valid_zone :: "('w, 'x, bool) eff"

definition port_table :: "('w, 'x) port_hooks \<Rightarrow> (port_state, port_event, 'w, 'x) transition list" where
  "port_table h =
     [new_transition Initial BindingToMgmtHostDetected Init_MgmtHost do_nothing,
      new_transition Initial BindingToNonMgmtHostDetected Init_NonMgmtHost do_nothing,
      new_transition Initial BindingNotDetected Init_MgmtHost (\<lambda>_. do_bind h),
      new_transition Init_MgmtHost DeviceFound Full_Standby (\<lambda>_. do_full_unbind h),
      new_transition Init_MgmtHost DeviceNotFound NoDevice (\<lambda>_. do_unbind h),
      new_transition Init_NonMgmtHost DeviceFound Oob_Busy (\<lambda>_. do_oob h),
      new_transition Init_NonMgmtHost DeviceNotFound NoDevice_Busy do_nothing,
      new_transition Oob_Busy DeviceUnbound Full_Standby (\<lambda>_. do_ib_bind_unbind h),
      new_transition NoDevice_Busy DeviceUnbound NoDevice do_nothing,
      new_transition Oob_Busy DeviceHotUnplugged NoDevice (\<lambda>_. do_remove h),
      new_transition Full_Standby DeviceHotUnplugged NoDevice (\<lambda>_. do_remove h),
      new_transition NoDevice_Busy DeviceHotPlugged Oob_Busy (\<lambda>_. do_oob h),
      new_transition NoDevice DeviceHotPlugged Full_Standby (\<lambda>_. do_full_bind_unbind_recover h),
      new_transition Full_Standby ModelBindingNotDetected Full_Standby (\<lambda>_. do_bindings_recover h),
      new_transition Full_Standby IllegalBindingDetected Full_Standby (\<lambda>_. do_unbind_nonmgmt h),
      new_transition Oob_Busy IllegalBindingDetected Full_Standby (\<lambda>_. do_unbind_nonmgmt_ib_discovery h)]"

record 'w psm =
  psm_state :: port_state
  m_prev_bound :: bool
  m_prev_present :: bool
  psm_world :: 'w

definition new_psm :: "'w \<Rightarrow> 'w psm" where
  "new_psm w = \<lparr> psm_state = Initial, m_prev_bound = False, m_prev_present = False, psm_world = w \<rparr>"

text \<open>The result of \<open>send_event\<close> is not used.\<close>

definition psm_send :: "('w, 'x) port_hooks \<Rightarrow> port_event \<Rightarrow> ('w psm, 'x, unit) eff" where
  "psm_send h ev m =
     (case send_event (port_table h) ev (psm_state m, psm_world m) of
        (Inl x, (s, w)) \<Rightarrow> (Inl x, m\<lparr> psm_state := s, psm_world := w \<rparr>)
      | (Inr _, (s, w)) \<Rightarrow> (Inr (), m\<lparr> psm_state := s, psm_world := w \<rparr>))"

definition psm_valid_zone :: "('w, 'x) port_hooks \<Rightarrow> ('w psm, 'x, bool) eff" where
  "psm_valid_zone h m = (case in_valid_zone h (psm_world m) of (r, w) \<Rightarrow> (r, m\<lparr> psm_world := w \<rparr>))"

definition init_binding :: "('w, 'x) port_hooks \<Rightarrow> bool \<Rightarrow> bool \<Rightarrow> ('w psm, 'x, unit) eff" where
  "init_binding h is_bound is_bound_to_host =
     eseq (emodify (\<lambda>m. m\<lparr> m_prev_bound := is_bound \<rparr>))
       (psm_send h (if is_bound then (if is_bound_to_host then BindingToMgmtHostDetected else BindingToNonMgmtHostDetected)
                    else BindingNotDetected))"

definition init_presence :: "('w, 'x) port_hooks \<Rightarrow> bool \<Rightarrow> ('w psm, 'x, unit) eff" where
  "init_presence h is_present =
     eseq (emodify (\<lambda>m. m\<lparr> m_prev_present := is_present \<rparr>))
       (psm_send h (if is_present then DeviceFound else DeviceNotFound))"

definition generate_events :: "('w, 'x) port_hooks \<Rightarrow> bool \<Rightarrow> bool \<Rightarrow> bool \<Rightarrow> bool \<Rightarrow> ('w psm, 'x, unit) eff" where
  "generate_events h is_present is_bound is_bound_to_host is_being_erased =
     (let is_used = is_bound \<or> is_being_erased
      in ebind (eget m_prev_bound) (\<lambda>prev_bound.
         ebind (eget m_prev_present) (\<lambda>prev_present.
         eseq (if \<not> is_used \<and> prev_bound then psm_send h DeviceUnbound
               else if prev_present \<noteq> is_present then psm_send h (if is_present then DeviceHotPlugged else DeviceHotUnplugged)
               else if \<not> is_used \<and> \<not> is_bound_to_host \<and> is_present
               then ebind (psm_valid_zone h) (\<lambda>v. if v then psm_send h ModelBindingNotDetected else eret ())
               else if is_bound \<and> \<not> is_bound_to_host \<and> \<not> is_being_erased \<and> is_present
               then ebind (psm_valid_zone h) (\<lambda>v. if \<not> v then psm_send h IllegalBindingDetected else eret ())
               else eret ())
           (emodify (\<lambda>m. m\<lparr> m_prev_present := is_present, m_prev_bound := is_used \<rparr>)))))"

definition is_initialized :: "'w psm \<Rightarrow> bool" where
  "is_initialized m \<longleftrightarrow> psm_state m \<noteq> Initial"

definition psm_update :: "('w, 'x) port_hooks \<Rightarrow> bool \<Rightarrow> bool \<Rightarrow> bool \<Rightarrow> bool \<Rightarrow> ('w psm, 'x, unit) eff" where
  "psm_update h is_present is_bound is_bound_to_host is_being_erased =
     ebind (eget is_initialized) (\<lambda>initialized.
       if \<not> initialized then eseq (init_binding h is_bound is_bound_to_host) (init_presence h is_present)
       else generate_events h is_present is_bound is_bound_to_host is_being_erased)"

subsection \<open>The actions\<close>

record 'h port_context =
  pc_iface :: "'h access_interface"
  pc_discovery :: "'h discovery"
  pc_switch_uuid :: uuid
  pc_port_uuid :: uuid

record 'h port_world =
  m_device_uuid :: uuid
  m_recoverable_bindings :: "(uuid \<times> uuid) list"
  pw_agent :: "'h pnc"

type_synonym ('h, 'a) port_eff = "('h port_world, pnc_exception, 'a) eff"

definition on_agent :: "('h, 'a) pnc_eff \<Rightarrow> ('h, 'a) port_eff" where
  "on_agent m w = (case m (pw_agent w) of (r, s) \<Rightarrow> (r, w\<lparr> pw_agent := s \<rparr>))"

definition guarded :: "('h, unit) port_eff \<Rightarrow> ('h, bool) port_eff" where
  "guarded m = try_catch (eseq m (eret True)) (\<lambda>_. eret False)"

definition set_device_uuid :: "uuid \<Rightarrow> ('h, unit) port_eff" where
  "set_device_uuid u = emodify (\<lambda>w. w\<lparr> m_device_uuid := u \<rparr>)"

definition action_oob :: "'h port_context \<Rightarrow> ('h, bool) port_eff" where
  "action_oob c =
     guarded (ebind (on_agent (oob_discovery (pc_iface c) (pc_discovery c) (pc_switch_uuid c) (pc_port_uuid c))) set_device_uuid)"

definition action_remove :: "'h port_context \<Rightarrow> ('h, bool) port_eff" where
  "action_remove c =
     guarded (ebind (on_agent (get_bindings_on_port (pc_port_uuid c))) (\<lambda>bindings.
       eseq (emodify (\<lambda>w. w\<lparr> m_recoverable_bindings := sort_unique (m_recoverable_bindings w @ bindings) \<rparr>))
      (eseq (on_agent (worker_remove (pc_iface c) (pc_discovery c) (pc_switch_uuid c) (pc_port_uuid c)))
         (set_device_uuid []))))"

text \<open>Discovery in-band with the device that was found before, then release of the bridge.\<close>

definition ib_with_bridge :: "'h port_context \<Rightarrow> u8 \<Rightarrow> ('h, unit) port_eff" where
  "ib_with_bridge c bridge_id =
     ebind (eget m_device_uuid) (\<lambda>device_uuid.
       eseq (on_agent (ib_discovery (pc_discovery c) (pc_switch_uuid c) (pc_port_uuid c) bridge_id device_uuid))
      (eseq (on_agent (unbind_from_host (pc_iface c) (pc_discovery c) (pc_switch_uuid c) bridge_id))
         (on_agent (unlock_port (pc_port_uuid c)))))"

definition action_ib_bind_unbind :: "'h port_context \<Rightarrow> ('h, bool) port_eff" where
  "action_ib_bind_unbind c =
     guarded (eseq (on_agent (lock_port (pc_port_uuid c)))
       (ebind (on_agent (bind_to_host (pc_iface c) (pc_switch_uuid c) (pc_port_uuid c))) (ib_with_bridge c)))"

definition action_bind :: "'h port_context \<Rightarrow> ('h, bool) port_eff" where
  "action_bind c = guarded (ebind (on_agent (bind_to_host (pc_iface c) (pc_switch_uuid c) (pc_port_uuid c))) (\<lambda>_. eret ()))"

definition action_unbind :: "'h port_context \<Rightarrow> ('h, bool) port_eff" where
  "action_unbind c =
     guarded (ebind (on_agent (get_bridge_id (pc_iface c) (pc_switch_uuid c) (pc_port_uuid c))) (\<lambda>bridge_id.
       on_agent (unbind_from_host (pc_iface c) (pc_discovery c) (pc_switch_uuid c) bridge_id)))"

definition refresh_device_uuid :: "'h port_context \<Rightarrow> ('h, unit) port_eff" where
  "refresh_device_uuid c =
     try_catch (ebind (on_agent (get_device_uuid_by_dsp_port (pc_port_uuid c))) set_device_uuid) (\<lambda>_. eret ())"

definition then_refresh :: "'h port_context \<Rightarrow> ('h, unit) port_eff \<Rightarrow> ('h, bool) port_eff" where
  "then_refresh c m = ebind (guarded m) (\<lambda>ok. if ok then eseq (refresh_device_uuid c) (eret True) else eret False)"

definition action_full_unbind :: "'h port_context \<Rightarrow> ('h, bool) port_eff" where
  "action_full_unbind c =
     then_refresh c
       (ebind (on_agent (get_bridge_id (pc_iface c) (pc_switch_uuid c) (pc_port_uuid c))) (\<lambda>bridge_id.
        eseq (on_agent (full_discovery (pc_iface c) (pc_discovery c) (pc_switch_uuid c) (pc_port_uuid c) bridge_id))
          (on_agent (unbind_from_host (pc_iface c) (pc_discovery c) (pc_switch_uuid c) bridge_id))))"

text \<open>For every enabled endpoint the bindings to recover are walked through; the others are collected again.\<close>

definition recover_bindings :: "'h access_interface \<Rightarrow> uuid \<Rightarrow> (uuid \<times> uuid) list \<Rightarrow> uuid list \<Rightarrow> ('h, (uuid \<times> uuid) list) pnc_eff" where
  "recover_bindings i switch_uuid recoverable endpoints_uuids =
     efor_concat (\<lambda>endpoint_uuid.
       efor_concat (\<lambda>b. if snd b = endpoint_uuid
                         then eseq (attach_endpoint_to_zone i switch_uuid endpoint_uuid (fst b)) (eret [])
                         else eret [b]) recoverable) endpoints_uuids"

definition action_full_bind_unbind_recover :: "'h port_context \<Rightarrow> ('h, bool) port_eff" where
  "action_full_bind_unbind_recover c =
     then_refresh c
       (ebind (on_agent (bind_to_host (pc_iface c) (pc_switch_uuid c) (pc_port_uuid c))) (\<lambda>bridge_id.
        eseq (on_agent (full_discovery (pc_iface c) (pc_discovery c) (pc_switch_uuid c) (pc_port_uuid c) bridge_id))
       (eseq (on_agent (unbind_from_host (pc_iface c) (pc_discovery c) (pc_switch_uuid c) bridge_id))
       (ebind (on_agent (get_enabled_endpoints_on_port (pc_port_uuid c))) (\<lambda>endpoints_uuids.
        ebind (eget m_recoverable_bindings) (\<lambda>recoverable.
        ebind (on_agent (recover_bindings (pc_iface c) (pc_switch_uuid c) recoverable endpoints_uuids)) (\<lambda>new_bindings.
          emodify (\<lambda>w. w\<lparr> m_recoverable_bindings := new_bindings \<rparr>))))))))"

definition action_bindings_recover :: "'h port_context \<Rightarrow> ('h, bool) port_eff" where
  "action_bindings_recover c =
     guarded (ebind (on_agent (get_bindings_on_port (pc_port_uuid c))) (\<lambda>bindings.
       on_agent (efor (\<lambda>b. attach_endpoint_to_zone (pc_iface c) (pc_switch_uuid c) (snd b) (fst b)) bindings)))"

definition action_unbind_nonmgmt :: "'h port_context \<Rightarrow> ('h, bool) port_eff" where
  "action_unbind_nonmgmt c = guarded (on_agent (unbind_port (pc_iface c) (pc_switch_uuid c) (pc_port_uuid c)))"

definition action_unbind_nonmgmt_ib_discovery :: "'h port_context \<Rightarrow> ('h, bool) port_eff" where
  "action_unbind_nonmgmt_ib_discovery c =
     guarded (eseq (on_agent (lock_port (pc_port_uuid c)))
      (eseq (on_agent (unbind_port (pc_iface c) (pc_switch_uuid c) (pc_port_uuid c)))
       (ebind (on_agent (bind_to_host (pc_iface c) (pc_switch_uuid c) (pc_port_uuid c))) (ib_with_bridge c))))"

definition port_actions :: "'h port_context \<Rightarrow> ('h port_world, pnc_exception) port_hooks" where
  "port_actions c =
     \<lparr> do_bind = action_bind c, do_full_unbind = action_full_unbind c, do_unbind = action_unbind c, do_oob = action_oob c,
       do_ib_bind_unbind = action_ib_bind_unbind c, do_remove = action_remove c,
       do_full_bind_unbind_recover = action_full_bind_unbind_recover c, do_bindings_recover = action_bindings_recover c,
       do_unbind_nonmgmt = action_unbind_nonmgmt c, do_unbind_nonmgmt_ib_discovery = action_unbind_nonmgmt_ib_discovery c,
       in_valid_zone = on_agent (is_port_in_valid_zone (pc_port_uuid c)) \<rparr>"

subsection \<open>The state follows the presence of a device\<close>

interpretation port_machine: deterministic_table "port_table h" for h
  by unfold_locales (auto simp: port_table_def)

lemma psm_send_along:
  assumes t: "t \<in> set (port_table h)" "init_state t = psm_state m" "event t = ev"
    and run: "action t (view t) (psm_world m) = (r, w')"
  shows "psm_send h ev m =
    (map_sum id (\<lambda>_. ()) r, m\<lparr> psm_state := if r = Inr True then end_state t else psm_state m, psm_world := w' \<rparr>)"
  using port_machine.send_event_performs[OF t(1) run] t by (simp add: psm_send_def split: sum.split)

lemma psm_send_ignored:
  assumes "\<forall>t \<in> set (port_table h). (init_state t, event t) \<noteq> (psm_state m, ev)"
  shows "psm_send h ev m = (Inr (), m)"
  using port_machine.send_event_ignored[OF assms] by (simp add: psm_send_def)

text \<open>The flags are not touched by sending an event.\<close>

lemma psm_send_flags:
  "m_prev_bound (snd (psm_send h ev m)) = m_prev_bound m" "m_prev_present (snd (psm_send h ev m)) = m_prev_present m"
  by (auto simp: psm_send_def split: prod.split sum.split)

definition has_device :: "port_state \<Rightarrow> bool" where
  "has_device st \<longleftrightarrow> st = Oob_Busy \<or> st = Full_Standby"

definition settled :: "port_state \<Rightarrow> bool" where
  "settled st \<longleftrightarrow> st \<notin> {Initial, Init_MgmtHost, Init_NonMgmtHost}"

text \<open>The state after an event whose action succeeds.\<close>

fun next_state :: "port_state \<Rightarrow> port_event \<Rightarrow> port_state" where
  "next_state Initial BindingToMgmtHostDetected = Init_MgmtHost"
| "next_state Initial BindingToNonMgmtHostDetected = Init_NonMgmtHost"
| "next_state Initial BindingNotDetected = Init_MgmtHost"
| "next_state Init_MgmtHost DeviceFound = Full_Standby"
| "next_state Init_MgmtHost DeviceNotFound = NoDevice"
| "next_state Init_NonMgmtHost DeviceFound = Oob_Busy"
| "next_state Init_NonMgmtHost DeviceNotFound = NoDevice_Busy"
| "next_state Oob_Busy DeviceUnbound = Full_Standby"
| "next_state NoDevice_Busy DeviceUnbound = NoDevice"
| "next_state Oob_Busy DeviceHotUnplugged = NoDevice"
| "next_state Full_Standby DeviceHotUnplugged = NoDevice"
| "next_state NoDevice_Busy DeviceHotPlugged = Oob_Busy"
| "next_state NoDevice DeviceHotPlugged = Full_Standby"
| "next_state Oob_Busy IllegalBindingDetected = Full_Standby"
| "next_state st _ = st"

lemma table_next_state: "t \<in> set (port_table h) \<Longrightarrow> end_state t = next_state (init_state t) (event t)"
  by (auto simp: port_table_def)

lemma next_state_changes:
  "next_state st ev \<noteq> st \<Longrightarrow> \<exists>t \<in> set (port_table h). init_state t = st \<and> event t = ev"
  by (induction st ev rule: next_state.induct) (simp_all add: port_table_def)

text \<open>
  The results the action of an event may have in the world of the machine; an event without a
  transition has none.
\<close>

definition action_results :: "('w, 'x) port_hooks \<Rightarrow> port_event \<Rightarrow> 'w psm \<Rightarrow> ('x + bool) set" where
  "action_results h ev m =
     (\<lambda>t. fst (action t (view t) (psm_world m))) ` set (filter (\<lambda>t. init_state t = psm_state m \<and> event t = ev) (port_table h))"

lemma psm_send_cases:
  assumes "psm_send h ev m = (r, m')"
  shows "\<exists>w. m' = m\<lparr> psm_state := psm_state m', psm_world := w \<rparr>
    \<and> (psm_state m' = next_state (psm_state m) ev \<and> r = Inr ()
       \<or> psm_state m' = psm_state m \<and> (r = Inr () \<longrightarrow> Inr False \<in> action_results h ev m) \<and> (\<forall>x. r = Inl x \<longrightarrow> Inl x \<in> action_results h ev m))"
proof (cases "\<exists>t \<in> set (port_table h). init_state t = psm_state m \<and> event t = ev")
  case True
  then obtain t where t: "t \<in> set (port_table h)" "init_state t = psm_state m" "event t = ev" by blast
  obtain q w where run: "action t (view t) (psm_world m) = (q, w)" by fastforce
  have q: "q \<in> action_results h ev m" using t run by (force simp: action_results_def image_iff)
  have m': "r = map_sum id (\<lambda>_. ()) q" "m' = m\<lparr> psm_state := if q = Inr True then end_state t else psm_state m, psm_world := w \<rparr>"
    using psm_send_along[OF t run] assms by simp_all
  show ?thesis
  proof (intro exI[of _ w] conjI)
    show "m' = m\<lparr> psm_state := psm_state m', psm_world := w \<rparr>" by (simp add: m'(2))
    show "psm_state m' = next_state (psm_state m) ev \<and> r = Inr ()
       \<or> psm_state m' = psm_state m \<and> (r = Inr () \<longrightarrow> Inr False \<in> action_results h ev m) \<and> (\<forall>x. r = Inl x \<longrightarrow> Inl x \<in> action_results h ev m)"
      using q table_next_state[OF t(1)] t unfolding m' by (cases q; cases "q = Inr True") auto
  qed
next
  case False
  then have "next_state (psm_state m) ev = psm_state m" using next_state_changes by blast
  moreover have "psm_send h ev m = (Inr (), m)" using False by (intro psm_send_ignored) auto
  ultimately show ?thesis using assms by (intro exI[of _ "psm_world m"]) auto
qed

definition follows :: "'w psm \<Rightarrow> bool" where
  "follows m \<longleftrightarrow> settled (psm_state m) \<and> (has_device (psm_state m) \<longleftrightarrow> m_prev_present m)"

lemma next_state_settled: "settled st \<Longrightarrow> settled (next_state st ev)"
  by (cases "(st, ev)" rule: next_state.cases) (simp_all add: settled_def)

lemma next_state_device:
  "settled st \<Longrightarrow> ev \<in> {DeviceUnbound, ModelBindingNotDetected, IllegalBindingDetected} \<Longrightarrow> has_device (next_state st ev) = has_device st"
  by (cases st; cases ev) (auto simp: settled_def has_device_def)

lemma next_state_plug:
  "settled st \<Longrightarrow> \<not> has_device st \<Longrightarrow> has_device (next_state st DeviceHotPlugged)"
  "settled st \<Longrightarrow> has_device st \<Longrightarrow> \<not> has_device (next_state st DeviceHotUnplugged)"
  by (cases st; simp add: settled_def has_device_def)+

text \<open>The cases of \<open>generate_events\<close>: an unbinding, a change of presence, the two synchronisations, nothing.\<close>

definition set_flags :: "bool \<Rightarrow> bool \<Rightarrow> ('w psm, 'x, unit) eff" where
  "set_flags p u = emodify (\<lambda>m. m\<lparr> m_prev_present := p, m_prev_bound := u \<rparr>)"

definition sync_zone :: "('w, 'x) port_hooks \<Rightarrow> (bool \<Rightarrow> bool) \<Rightarrow> port_event \<Rightarrow> ('w psm, 'x, unit) eff" where
  "sync_zone h P ev = ebind (psm_valid_zone h) (\<lambda>v. if P v then psm_send h ev else eret ())"

lemma generate_events_cases:
  assumes "\<lbrakk>m_prev_bound m; \<not> (b \<or> e)\<rbrakk> \<Longrightarrow> Q (eseq (psm_send h DeviceUnbound) (set_flags p (b \<or> e)) m)"
    and "\<lbrakk>\<not> (m_prev_bound m \<and> \<not> (b \<or> e)); m_prev_present m \<noteq> p\<rbrakk>
      \<Longrightarrow> Q (eseq (psm_send h (if p then DeviceHotPlugged else DeviceHotUnplugged)) (set_flags p (b \<or> e)) m)"
    and "\<And>P ev. \<lbrakk>m_prev_present m = p; ev \<in> {ModelBindingNotDetected, IllegalBindingDetected}\<rbrakk>
      \<Longrightarrow> Q (eseq (sync_zone h P ev) (set_flags p (b \<or> e)) m)"
    and "m_prev_present m = p \<Longrightarrow> Q (eseq (eret ()) (set_flags p (b \<or> e)) m)"
  shows "Q (generate_events h p b bh e m)"
proof -
  have ge: "generate_events h p b bh e m =
    eseq (if \<not> (b \<or> e) \<and> m_prev_bound m then psm_send h DeviceUnbound
          else if m_prev_present m \<noteq> p then psm_send h (if p then DeviceHotPlugged else DeviceHotUnplugged)
          else if \<not> (b \<or> e) \<and> \<not> bh \<and> p then sync_zone h (\<lambda>v. v) ModelBindingNotDetected
          else if b \<and> \<not> bh \<and> \<not> e \<and> p then sync_zone h Not IllegalBindingDetected
          else eret ()) (set_flags p (b \<or> e)) m"
    by (simp only: generate_events_def Let_def ebind_apply[of "eget _"] eget_apply prod.case sum.case sync_zone_def set_flags_def)
  have pick: "Q (eseq (if A then X1 else if B then X2 else if C then X3 else if D then X4 else X5) F m)"
    if "A \<Longrightarrow> Q (eseq X1 F m)" "\<not> A \<Longrightarrow> B \<Longrightarrow> Q (eseq X2 F m)" "\<not> B \<Longrightarrow> Q (eseq X3 F m)"
      "\<not> B \<Longrightarrow> Q (eseq X4 F m)" "\<not> B \<Longrightarrow> Q (eseq X5 F m)" for A B C D X1 X2 X3 X4 X5 F
    using that by (cases A; cases B; cases C; cases D) simp_all
  show ?thesis unfolding ge by (rule pick) (use assms in auto)
qed

text \<open>An event that does not concern the presence of a device, whatever its action does.\<close>

lemma unplugged_event_follows:
  assumes f: "follows m" and p: "m_prev_present m = p"
    and ev: "ev \<in> {DeviceUnbound, ModelBindingNotDetected, IllegalBindingDetected}"
  shows "follows (snd (eseq (psm_send h ev) (set_flags p u) m))"
proof -
  obtain r m' where s: "psm_send h ev m = (r, m')" by fastforce
  have st: "settled (psm_state m')" "has_device (psm_state m') = has_device (psm_state m)"
    using psm_send_cases[OF s] f next_state_settled[of "psm_state m" ev] next_state_device[OF _ ev, of "psm_state m"]
    by (auto simp: follows_def)
  have flags: "m_prev_present m' = m_prev_present m" using psm_send_flags(2)[of h ev m] s by simp
  show ?thesis using f p st flags by (cases r) (auto simp: s eff_simps set_flags_def follows_def)
qed

lemma sync_follows:
  assumes f: "follows m" and p: "m_prev_present m = p" and ev: "ev \<in> {ModelBindingNotDetected, IllegalBindingDetected}"
  shows "follows (snd (eseq (sync_zone h P ev) (set_flags p u) m))"
proof -
  obtain r w where v: "psm_valid_zone h m = (r, m\<lparr> psm_world := w \<rparr>)"
    by (cases "in_valid_zone h (psm_world m)") (auto simp: psm_valid_zone_def)
  let ?m = "m\<lparr> psm_world := w \<rparr>"
  have "follows ?m" "m_prev_present ?m = p" using f p by (simp_all add: follows_def)
  then have "follows (snd (eseq (psm_send h ev) (set_flags p u) ?m))" using ev by (intro unplugged_event_follows) auto
  then show ?thesis using f p by (cases r) (auto simp: sync_zone_def set_flags_def eff_simps v follows_def)
qed

lemma plug_follows:
  assumes f: "follows m" and p: "m_prev_present m \<noteq> p"
    and kept: "Inr False \<notin> action_results h (if p then DeviceHotPlugged else DeviceHotUnplugged) m"
  shows "follows (snd (eseq (psm_send h (if p then DeviceHotPlugged else DeviceHotUnplugged)) (set_flags p u) m))"
proof -
  let ?ev = "if p then DeviceHotPlugged else DeviceHotUnplugged"
  obtain r m' where s: "psm_send h ?ev m = (r, m')" by fastforce
  have st: "settled (psm_state m)" "has_device (psm_state m) \<longleftrightarrow> \<not> p" using f p by (auto simp: follows_def)
  have next_st: "settled (next_state (psm_state m) ?ev)" "has_device (next_state (psm_state m) ?ev) = p"
    using st next_state_settled[OF st(1)] next_state_plug[OF st(1)] by auto
  have flags: "m_prev_present m' = m_prev_present m" using psm_send_flags(2)[of h ?ev m] s by simp
  show ?thesis
  proof (cases r)
    case (Inl x)
    then have "psm_state m' = psm_state m" using psm_send_cases[OF s] by auto
    then show ?thesis using f flags s Inl by (simp add: eff_simps follows_def)
  next
    case (Inr y)
    then have "psm_state m' = next_state (psm_state m) ?ev" using psm_send_cases[OF s] kept by auto
    then show ?thesis using next_st s Inr by (simp add: eff_simps set_flags_def follows_def)
  qed
qed

text \<open>
  What is asked of a round. Before the machine is initialised: if the binding was dealt with
  without an exception, the discovery that follows succeeds. Afterwards: the loss of a
  binding and a change of presence are not seen together, and the action for a change of
  presence does not return false. Nothing is asked of the other actions.
\<close>

definition round_ok :: "('w, 'x) port_hooks \<Rightarrow> bool \<Rightarrow> bool \<Rightarrow> bool \<Rightarrow> bool \<Rightarrow> 'w psm \<Rightarrow> bool" where
  "round_ok h p b bh e m \<longleftrightarrow>
     (if is_initialized m
      then (m_prev_bound m \<and> \<not> (b \<or> e) \<longrightarrow> p = m_prev_present m)
        \<and> (m_prev_present m \<noteq> p \<longrightarrow> Inr False \<notin> action_results h (if p then DeviceHotPlugged else DeviceHotUnplugged) m)
      else case init_binding h b bh m of
             (Inl _, _) \<Rightarrow> True
           | (Inr _, m') \<Rightarrow> action_results h (if p then DeviceFound else DeviceNotFound) (m'\<lparr> m_prev_present := p \<rparr>) \<subseteq> {Inr True})"

lemma generate_events_follows:
  assumes f: "follows m" and ok: "round_ok h p b bh e m"
  shows "follows (snd (generate_events h p b bh e m))"
proof (rule generate_events_cases[where Q = "\<lambda>r. follows (snd r)"])
  have init: "is_initialized m" using f by (auto simp: follows_def settled_def is_initialized_def)
  assume "m_prev_bound m" "\<not> (b \<or> e)"
  then have "m_prev_present m = p" using ok init by (simp add: round_ok_def)
  then show "follows (snd (eseq (psm_send h DeviceUnbound) (set_flags p (b \<or> e)) m))" by (intro unplugged_event_follows f) auto
next
  have init: "is_initialized m" using f by (auto simp: follows_def settled_def is_initialized_def)
  assume "m_prev_present m \<noteq> p"
  then show "follows (snd (eseq (psm_send h (if p then DeviceHotPlugged else DeviceHotUnplugged)) (set_flags p (b \<or> e)) m))"
    using ok init by (intro plug_follows f) (simp_all add: round_ok_def)
next
  assume "m_prev_present m = p"
  then show "follows (snd (eseq (eret ()) (set_flags p (b \<or> e)) m))" using f by (simp add: follows_def eff_simps set_flags_def)
qed (rule sync_follows[OF f])

lemma first_round_follows:
  assumes init: "psm_state m = Initial" and ok: "round_ok h p b bh e m"
  shows "psm_state (snd (psm_update h p b bh e m)) = Initial \<or> follows (snd (psm_update h p b bh e m))"
proof -
  let ?e2 = "if p then DeviceFound else DeviceNotFound"
  obtain r m1 where 1: "init_binding h b bh m = (r, m1)" by fastforce
  have st1: "psm_state m1 \<in> {Initial, Init_MgmtHost, Init_NonMgmtHost}"
    using 1 init by (auto simp: init_binding_def eff_simps dest!: psm_send_cases split: if_splits)
  have upd: "psm_update h p b bh e m = eseq (init_binding h b bh) (init_presence h p) m"
    using init by (simp add: psm_update_def eff_simps is_initialized_def)
  show ?thesis
  proof (cases r)
    case (Inl x)
    then have "psm_state m1 = Initial"
      using 1 init by (auto simp: init_binding_def eff_simps dest!: psm_send_cases split: if_splits)
    then show ?thesis using upd 1 Inl by (simp add: eff_simps)
  next
    case (Inr y)
    let ?m1 = "m1\<lparr> m_prev_present := p \<rparr>"
    obtain q m2 where 2: "psm_send h ?e2 ?m1 = (q, m2)" by fastforce
    have "action_results h ?e2 ?m1 \<subseteq> {Inr True}" using ok init 1 Inr by (simp add: round_ok_def is_initialized_def)
    then have st2: "psm_state m2 = next_state (psm_state m1) ?e2" using psm_send_cases[OF 2] by (cases q) auto
    have flag: "m_prev_present m2 = p" using psm_send_flags(2)[of h ?e2 ?m1] 2 by simp
    have "snd (psm_update h p b bh e m) = m2" using upd 1 Inr 2 by (simp add: eff_simps init_presence_def)
    then show ?thesis using st1 st2 flag by (auto simp: follows_def settled_def has_device_def)
  qed
qed

text \<open>
  The machines that arise from a new one by such rounds; the world - the model, the
  hardware - changes freely in between.
\<close>

inductive psm_reach :: "('w, 'x) port_hooks \<Rightarrow> 'w psm \<Rightarrow> bool" for h where
  new: "psm_reach h (new_psm w)"
| round: "\<lbrakk>psm_reach h m; round_ok h p b bh e m\<rbrakk> \<Longrightarrow> psm_reach h (snd (psm_update h p b bh e m))"
| world: "psm_reach h m \<Longrightarrow> psm_reach h (m\<lparr> psm_world := w \<rparr>)"

text \<open>
  C11: The machine of a port follows its slot: once it has left its initial state, it is in a state
  with a discovered device exactly when a device was present in the last round noted, in
  every state reached by rounds in which the first discovery succeeds, the action for a
  change of presence is not refused, and the loss of a binding does not coincide with such a
  change. All other actions - binding, unbinding, recovery of bindings - and the check of the
  zone may fail or throw, and the model and the hardware may change between rounds.
\<close>

theorem port_follows_presence:
  assumes "psm_reach h m"
  shows "psm_state m = Initial \<or> settled (psm_state m) \<and> (has_device (psm_state m) \<longleftrightarrow> m_prev_present m)"
  using assms
proof (induction rule: psm_reach.induct)
  case (new w)
  then show ?case by (simp add: new_psm_def)
next
  case (round m p b bh e)
  then show ?case
  proof (cases "psm_state m = Initial")
    case True
    then show ?thesis using first_round_follows[OF _ round.hyps(2)] by (simp add: follows_def)
  next
    case False
    then have f: "follows m" using round.IH by (simp add: follows_def)
    have "psm_update h p b bh e m = generate_events h p b bh e m"
      using False by (simp add: psm_update_def eff_simps is_initialized_def)
    with generate_events_follows[OF f round.hyps(2)] show ?thesis by (simp add: follows_def)
  qed
qed simp

text \<open>The actions of the code on an agent that knows the port and its switch.\<close>

definition bare_context :: "unit port_context" where
  "bare_context =
     \<lparr> pc_iface = flat_device (\<lambda>_. 0),
       pc_discovery = \<lparr> oob_port_device_discovery = \<lambda>_ _. eret True, ib_port_device_discovery = \<lambda>_ _ _ _. eret True,
                        remove_devices_on_port = \<lambda>_ _. eret True, update_port_status = \<lambda>_ _. eret (),
                        discovery_update_drive_status = \<lambda>_ _. eret (), unbind_management_host_driver = \<lambda>_ _. eret () \<rparr>,
       pc_switch_uuid = ''s'', pc_port_uuid = ''p'' \<rparr>"

definition bare_world :: "(uuid \<times> uuid) list \<Rightarrow> unit port_world" where
  "bare_world bindings = \<lparr> m_device_uuid = [], m_recoverable_bindings = bindings, pw_agent = empty_pnc () \<rparr>"

definition known_port :: "unit port_world" where
  "known_port = (bare_world [])\<lparr> pw_agent := empty_pnc ()\<lparr>
     switches := \<lparr> m_manager_data = [new_switch ''s''], m_current_epoch = 1 \<rparr>,
     ports := \<lparr> m_manager_data = [new_port ''p'' ''s''], m_current_epoch = 1 \<rparr> \<rparr> \<rparr>"

lemma known_gas: "\<exists>gas. get_gas (pc_iface bare_context) ''s'' (pw_agent known_port) = (Inr gas, pw_agent known_port)"
  by (simp add: get_gas_def pnc_get_def get_entry_def find_entry_def uuid_matches_def get_uuid_def known_port_def bare_world_def
      bare_context_def new_switch_def new_resource_def resource.defs switch.defs eff_simps on_hw_def get_default_def flat_device_def
      try_catch_def read_top_def read_partition_def read_register_def read_bytes_def)

lemma known_context [simp]:
  "pc_switch_uuid bare_context = ''s''" "pc_port_uuid bare_context = ''p''"
  "oob_port_device_discovery (pc_discovery bare_context) gas u = eret True"
  "remove_devices_on_port (pc_discovery bare_context) gas u = eret True"
  by (simp_all add: bare_context_def)

lemma known_world [simp]:
  "known_port\<lparr> pw_agent := pw_agent known_port \<rparr> = known_port" "known_port\<lparr> m_device_uuid := [] \<rparr> = known_port"
  "known_port\<lparr> m_recoverable_bindings := [] \<rparr> = known_port" "m_recoverable_bindings known_port = []"
  by (simp_all add: known_port_def bare_world_def)

lemma known_oob: "action_oob bare_context known_port = (Inr True, known_port)"
proof -
  let ?a = "pw_agent known_port"
  obtain gas where gas: "get_gas (pc_iface bare_context) ''s'' ?a = (Inr gas, ?a)" using known_gas by blast
  have port: "pnc_get ports ''p'' ?a = (Inr (new_port ''p'' ''s''), ?a)"
    by (simp add: pnc_get_def get_entry_def find_entry_def uuid_matches_def get_uuid_def known_port_def bare_world_def
        new_port_def new_resource_def resource.defs port.defs)
  have "get_device_uuid_by_dsp_port ''p'' ?a = (Inl (pnc_exception.InvalidArgument ''Invalid number of devices using specified dsp port''), ?a)"
    by (simp add: get_device_uuid_by_dsp_port_def eff_simps get_devices_by_dsp_port_uuid_def known_port_def bare_world_def empty_pnc_def empty_manager_def)
  then have "oob_discovery (pc_iface bare_context) (pc_discovery bare_context) ''s'' ''p'' ?a = (Inr [], ?a)"
    using gas port by (simp add: oob_discovery_def eff_simps)
  then show ?thesis by (simp add: action_oob_def on_agent_def guarded_def try_catch_def set_device_uuid_def eff_simps)
qed

lemma known_remove: "action_remove bare_context known_port = (Inr True, known_port)"
proof -
  let ?a = "pw_agent known_port"
  obtain gas where "get_gas (pc_iface bare_context) ''s'' ?a = (Inr gas, ?a)" using known_gas by blast
  then have "worker_remove (pc_iface bare_context) (pc_discovery bare_context) ''s'' ''p'' ?a = (Inr (), ?a)"
    by (simp add: worker_remove_def eff_simps)
  moreover have "get_bindings_on_port ''p'' ?a = (Inr [], ?a)"
    by (simp add: get_bindings_on_port_def get_enabled_endpoints_on_port_def endpoints_of_port_def eff_simps
        known_port_def bare_world_def empty_pnc_def sort_unique_def)
  ultimately show ?thesis
    by (simp add: action_remove_def on_agent_def guarded_def try_catch_def set_device_uuid_def eff_simps sort_unique_def)
qed

definition slot :: "port_state \<Rightarrow> bool \<Rightarrow> unit port_world psm" where
  "slot st p = \<lparr> psm_state = st, m_prev_bound = True, m_prev_present = p, psm_world = known_port \<rparr>"

lemma known_rounds:
  defines "h \<equiv> port_actions bare_context"
  shows "psm_update h False True False False (new_psm known_port) = (Inr (), slot NoDevice_Busy False)"
    and "psm_update h True True False False (slot NoDevice_Busy False) = (Inr (), slot Oob_Busy True)"
    and "psm_update h False True False False (slot Oob_Busy True) = (Inr (), slot NoDevice False)"
  by (simp_all add: psm_update_def is_initialized_def init_binding_def init_presence_def generate_events_def psm_send_def
      port_table_def do_guard_check_def do_transition_def eff_simps slot_def new_psm_def h_def port_actions_def known_oob known_remove do_nothing_def)

lemma known_rounds_ok:
  defines "h \<equiv> port_actions bare_context"
  shows "round_ok h False True False False (new_psm known_port)" "round_ok h True True False False (slot NoDevice_Busy False)"
    "round_ok h False True False False (slot Oob_Busy True)"
  by (simp_all add: round_ok_def is_initialized_def init_binding_def psm_send_def
      port_table_def do_guard_check_def do_transition_def eff_simps slot_def new_psm_def h_def port_actions_def known_oob known_remove
      do_nothing_def action_results_def)

theorem port_follows_presence_witness:
  "psm_reach (port_actions bare_context) (slot Oob_Busy True) \<and> psm_reach (port_actions bare_context) (slot NoDevice False)
   \<and> settled (psm_state (slot Oob_Busy True)) \<and> has_device (psm_state (slot Oob_Busy True)) \<and> \<not> has_device (psm_state (slot NoDevice False))"
proof -
  let ?h = "port_actions bare_context"
  have 1: "psm_reach ?h (slot NoDevice_Busy False)"
    using psm_reach.round[OF psm_reach.new known_rounds_ok(1)] by (simp add: known_rounds(1))
  have 2: "psm_reach ?h (slot Oob_Busy True)" using psm_reach.round[OF 1 known_rounds_ok(2)] by (simp add: known_rounds(2))
  have 3: "psm_reach ?h (slot NoDevice False)" using psm_reach.round[OF 2 known_rounds_ok(3)] by (simp add: known_rounds(3))
  have "psm_state (slot Oob_Busy True) = Oob_Busy" "m_prev_present (slot Oob_Busy True)"
    "psm_state (slot NoDevice False) = NoDevice" "\<not> m_prev_present (slot NoDevice False)" by (simp_all add: slot_def)
  then show ?thesis using 2 3 port_follows_presence[OF 2] port_follows_presence[OF 3] by auto
qed

definition trivial_hooks :: "(unit, pnc_exception) port_hooks" where
  "trivial_hooks =
     \<lparr> do_bind = eret True, do_full_unbind = eret True, do_unbind = eret True, do_oob = eret True,
       do_ib_bind_unbind = eret True, do_remove = eret True, do_full_bind_unbind_recover = eret True,
       do_bindings_recover = eret True, do_unbind_nonmgmt = eret True, do_unbind_nonmgmt_ib_discovery = eret True,
       in_valid_zone = ethrow (RuntimeError ''zone'') \<rparr>"

subsection \<open>Ports that are left behind\<close>

text \<open>Rounds of the monitor: presence, binding, binding to the management host, erasing.\<close>

definition psm_rounds :: "('w, 'x) port_hooks \<Rightarrow> (bool \<times> bool \<times> bool \<times> bool) list \<Rightarrow> 'w psm \<Rightarrow> 'w psm" where
  "psm_rounds h inputs m = foldl (\<lambda>m (p, b, bh, e). snd (psm_update h p b bh e m)) m inputs"

lemma psm_rounds_simps [simp]:
  "psm_rounds h [] m = m"
  "psm_rounds h ((p, b, bh, e) # inputs) m = psm_rounds h inputs (snd (psm_update h p b bh e m))"
  by (simp_all add: psm_rounds_def)

definition quiet :: "port_state \<Rightarrow> port_event \<Rightarrow> bool" where
  "quiet st ev \<longleftrightarrow> (\<forall>(i, e) \<in> set [(Initial, BindingToMgmtHostDetected), (Initial, BindingToNonMgmtHostDetected), (Initial, BindingNotDetected),
     (Init_MgmtHost, DeviceFound), (Init_MgmtHost, DeviceNotFound), (Init_NonMgmtHost, DeviceFound), (Init_NonMgmtHost, DeviceNotFound),
     (Oob_Busy, DeviceUnbound), (NoDevice_Busy, DeviceUnbound), (Oob_Busy, DeviceHotUnplugged), (Full_Standby, DeviceHotUnplugged),
     (NoDevice_Busy, DeviceHotPlugged), (NoDevice, DeviceHotPlugged), (Full_Standby, ModelBindingNotDetected),
     (Full_Standby, IllegalBindingDetected), (Oob_Busy, IllegalBindingDetected)]. (i, e) \<noteq> (st, ev))"

lemma quiet_send: "quiet (psm_state m) ev \<Longrightarrow> psm_send h ev m = (Inr (), m)"
  by (rule psm_send_ignored) (auto simp: quiet_def port_table_def)

lemma generate_events_quiet:
  assumes q: "\<And>ev. ev \<in> {DeviceUnbound, ModelBindingNotDetected, IllegalBindingDetected} \<Longrightarrow> quiet (psm_state m) ev"
    and plug: "m_prev_present m \<noteq> p \<Longrightarrow> (m_prev_bound m \<and> \<not> (b \<or> e)) \<or> quiet (psm_state m) (if p then DeviceHotPlugged else DeviceHotUnplugged)"
  shows "psm_state (snd (generate_events h p b bh e m)) = psm_state m \<and> m_prev_present (snd (generate_events h p b bh e m)) = p"
proof (rule generate_events_cases[where Q = "\<lambda>r. psm_state (snd r) = psm_state m \<and> m_prev_present (snd r) = p"])
  fix P ev
  assume p: "m_prev_present m = p" and ev: "ev \<in> {ModelBindingNotDetected, IllegalBindingDetected}"
  obtain r w where v: "psm_valid_zone h m = (r, m\<lparr> psm_world := w \<rparr>)"
    by (cases "in_valid_zone h (psm_world m)") (auto simp: psm_valid_zone_def)
  have "psm_send h ev (m\<lparr> psm_world := w \<rparr>) = (Inr (), m\<lparr> psm_world := w \<rparr>)"
    using ev by (intro quiet_send) (auto intro: q)
  with p show "psm_state (snd (eseq (sync_zone h P ev) (set_flags p (b \<or> e)) m)) = psm_state m
      \<and> m_prev_present (snd (eseq (sync_zone h P ev) (set_flags p (b \<or> e)) m)) = p"
    by (cases r) (auto simp: sync_zone_def set_flags_def eff_simps v)
next
  assume "\<not> (m_prev_bound m \<and> \<not> (b \<or> e))" "m_prev_present m \<noteq> p"
  with plug have "quiet (psm_state m) (if p then DeviceHotPlugged else DeviceHotUnplugged)" by blast
  then show "psm_state (snd (eseq (psm_send h (if p then DeviceHotPlugged else DeviceHotUnplugged)) (set_flags p (b \<or> e)) m)) = psm_state m
      \<and> m_prev_present (snd (eseq (psm_send h (if p then DeviceHotPlugged else DeviceHotUnplugged)) (set_flags p (b \<or> e)) m)) = p"
    by (simp only: eseq_apply quiet_send prod.case sum.case) (simp add: set_flags_def)
qed (use q[of DeviceUnbound] in \<open>simp_all add: quiet_send eseq_apply set_flags_def\<close>)

lemma initial_states_quiet:
  assumes "psm_state m = Init_MgmtHost"
  shows "psm_state (snd (psm_update h p b bh e m)) = Init_MgmtHost"
proof -
  have "psm_update h p b bh e m = generate_events h p b bh e m"
    using assms by (simp add: psm_update_def eff_simps is_initialized_def)
  moreover have "psm_state (snd (generate_events h p b bh e m)) = psm_state m \<and> m_prev_present (snd (generate_events h p b bh e m)) = p"
    by (rule generate_events_quiet) (auto simp: quiet_def assms)
  ultimately show ?thesis using assms by simp
qed

text \<open>
  A first discovery that fails is never repeated. When the port is bound to the
  management host and a device is present in the first round, but the discovery fails, the machine
  stays in \<open>Init_MgmtHost\<close> in all rounds that follow: that state leaves only by the two
  events of the first round, which are not sent again.
\<close>

theorem failed_first_discovery_sticks:
  assumes "psm_state m = Initial" "do_full_unbind h (psm_world m) = (Inr False, w)"
  shows "psm_state (psm_rounds h ((True, True, True, e) # inputs) m) = Init_MgmtHost"
proof -
  have stuck: "psm_state (psm_rounds h inputs m) = Init_MgmtHost" if "psm_state m = Init_MgmtHost" for inputs and m :: "'a psm"
    using that by (induction inputs arbitrary: m) (auto simp: initial_states_quiet)
  have t1: "new_transition Initial BindingToMgmtHostDetected Init_MgmtHost do_nothing \<in> set (port_table h)"
    and t2: "new_transition Init_MgmtHost DeviceFound Full_Standby (\<lambda>_. do_full_unbind h) \<in> set (port_table h)"
    by (simp_all add: port_table_def)
  have 1: "psm_send h BindingToMgmtHostDetected (m\<lparr> m_prev_bound := True \<rparr>) = (Inr (), m\<lparr> m_prev_bound := True, psm_state := Init_MgmtHost \<rparr>)"
    using psm_send_along[OF t1, of "m\<lparr> m_prev_bound := True \<rparr>"] assms(1) by simp
  have 2: "psm_send h DeviceFound (m\<lparr> m_prev_bound := True, psm_state := Init_MgmtHost, m_prev_present := True \<rparr>) =
      (Inr (), m\<lparr> m_prev_bound := True, psm_state := Init_MgmtHost, m_prev_present := True, psm_world := w \<rparr>)"
    using psm_send_along[OF t2, of "m\<lparr> m_prev_bound := True, psm_state := Init_MgmtHost, m_prev_present := True \<rparr>"] assms(2) by simp
  have "psm_state (snd (psm_update h True True True e m)) = Init_MgmtHost"
    using assms(1) by (simp add: psm_update_def is_initialized_def init_binding_def init_presence_def eff_simps 1 2)
  from stuck[OF this] show ?thesis by simp
qed

theorem failed_first_discovery_sticks_witness:
  "psm_state (psm_rounds (port_actions bare_context) [(True, True, True, False), (True, False, False, False), (False, False, False, False)]
     (new_psm (bare_world []))) = Init_MgmtHost"
proof (rule failed_first_discovery_sticks)
  show "psm_state (new_psm (bare_world [])) = Initial" by (simp add: new_psm_def)
  show "do_full_unbind (port_actions bare_context) (psm_world (new_psm (bare_world []))) = (Inr False, bare_world [])"
    by (simp add: new_psm_def port_actions_def bare_context_def action_full_unbind_def then_refresh_def guarded_def try_catch_def
        eff_simps on_agent_def get_bridge_id_def pnc_get_def bare_world_def empty_pnc_def empty_manager_def get_entry_def
        find_entry_def catchable_def)
qed

text \<open>
  C34: A device that is plugged in during the round in which the loss of the binding is seen
  is never discovered while it stays in. From \<open>NoDevice\<close> with the port noted as bound (as after the
  first round on a port bound to the management host) the unbinding takes the round, the new presence is
  noted, and no event for it is sent in any later round with the device present.
\<close>

theorem hotplug_lost_on_unbind:
  assumes "psm_state m = NoDevice" "m_prev_bound m" "list_all fst inputs"
  shows "psm_state (psm_rounds h ((True, False, bh, False) # inputs) m) = NoDevice"
proof -
  have upd: "psm_update h p b bh e m = generate_events h p b bh e m" if "psm_state m = NoDevice" for p b bh e and m :: "'a psm"
    using that by (simp add: psm_update_def eff_simps is_initialized_def)
  have idle: "psm_state (psm_rounds h inputs m) = NoDevice"
    if "psm_state m = NoDevice" "m_prev_present m" "list_all fst inputs" for inputs and m :: "'a psm"
    using that
  proof (induction inputs arbitrary: m)
    case (Cons x inputs)
    obtain b bh e where x: "x = (True, b, bh, e)" using Cons.prems(3) by (cases x) auto
    have "psm_state (snd (generate_events h True b bh e m)) = psm_state m \<and> m_prev_present (snd (generate_events h True b bh e m)) = True"
      by (rule generate_events_quiet) (use Cons.prems in \<open>auto simp: quiet_def\<close>)
    with Cons x upd[of m] show ?case by simp
  qed simp
  have "psm_state (snd (generate_events h True False bh False m)) = psm_state m \<and> m_prev_present (snd (generate_events h True False bh False m)) = True"
    by (rule generate_events_quiet) (use assms in \<open>auto simp: quiet_def\<close>)
  with idle[of "snd (generate_events h True False bh False m)" inputs] assms upd[of m] show ?thesis by simp
qed

theorem hotplug_lost_on_unbind_witness:
  "psm_state (psm_rounds trivial_hooks [(True, False, False, False), (True, False, False, False)]
     (snd (psm_update trivial_hooks False True True False (new_psm ())))) = NoDevice"
  by (rule hotplug_lost_on_unbind[where h = trivial_hooks]) code_simp+

subsection \<open>Bindings to recover\<close>

lemma efor_concat_Nil_body:
  assumes "\<And>x s. x \<in> set xs \<Longrightarrow> \<forall>ys s'. body x s = (Inr ys, s') \<longrightarrow> ys = f x"
    and "efor_concat body xs s = (Inr ys, s')"
  shows "ys = concat (map f xs)"
  using assms
proof (induction xs arbitrary: s ys s')
  case (Cons x xs)
  from Cons.prems(2) obtain a s1 as where a: "body x s = (Inr a, s1)" and as: "efor_concat body xs s1 = (Inr as, s')" and ys: "ys = a @ as"
    by (auto simp: eff_simps split: prod.splits sum.splits)
  from Cons.prems(1) a have "a = f x" by force
  moreover from Cons.IH[OF _ as] Cons.prems(1) have "as = concat (map f xs)" by simp
  ultimately show ?case by (simp add: ys)
qed simp

text \<open>
  What is left of the bindings to recover. When the recovery succeeds, the new list holds,
  for every enabled endpoint of the port in turn, the bindings of the other endpoints. So
  one endpoint leaves exactly the bindings not recovered, no endpoint at all forgets every
  binding, and with two endpoints each binding recovered for one is kept because of the other.
\<close>

theorem recover_bindings_left:
  assumes "recover_bindings i switch_uuid recoverable endpoints_uuids s = (Inr left_over, s')"
  shows "left_over = concat (map (\<lambda>e. filter (\<lambda>b. snd b \<noteq> e) recoverable) endpoints_uuids)"
proof (rule efor_concat_Nil_body[OF _ assms[unfolded recover_bindings_def]], intro allI impI)
  fix e s ys s'
  assume "efor_concat (\<lambda>b. if snd b = e then eseq (attach_endpoint_to_zone i switch_uuid e (fst b)) (eret []) else eret [b]) recoverable s = (Inr ys, s')"
  then have "ys = concat (map (\<lambda>b. if snd b = e then [] else [b]) recoverable)"
    by (rule efor_concat_Nil_body[rotated]) (auto simp: eff_simps split: if_splits prod.splits sum.splits)
  also have "\<dots> = filter (\<lambda>b. snd b \<noteq> e) recoverable" by (induction recoverable) auto
  finally show "ys = filter (\<lambda>b. snd b \<noteq> e) recoverable" .
qed

theorem recover_bindings_left_witness:
  "recover_bindings (flat_device (\<lambda>_. 0)) ''s'' [(''z'', ''e'')] [] (empty_pnc ()) = (Inr [], empty_pnc ())
   \<and> recover_bindings (flat_device (\<lambda>_. 0)) ''s'' [(''z'', ''e'')] [''a'', ''b''] (empty_pnc ()) = (Inr [(''z'', ''e''), (''z'', ''e'')], empty_pnc ())"
proof -
  let ?r = "\<lambda>es. recover_bindings (flat_device (\<lambda>_. 0)) ''s'' [(''z'', ''e'')] es (empty_pnc ())"
  obtain xs ys where r: "?r [] = (Inr xs, empty_pnc ())" "?r [''a'', ''b''] = (Inr ys, empty_pnc ())"
    by (simp add: recover_bindings_def eff_simps)
  from recover_bindings_left[OF r(1)] recover_bindings_left[OF r(2)] r show ?thesis by simp
qed

end
