(* ===== verification/Port_Monitor.thy ===== *)
theory Port_Monitor
  imports Port_State
begin

text \<open>
  \<open>PortMonitorThread\<close> (\<open>agent/pnc/src/port_monitor_thread.cpp\<close>): reading the presence and the
  bindings of the ports of a switch and driving the state machine of every downstream port.
  The managers of the ports share the agent; what each keeps for itself is a record, and one
  round of the monitor runs over the list of them. Starting and stopping the thread is not
  modelled.
\<close>

subsection \<open>Reading presence and bindings\<close>

definition get_is_link_up :: "port \<Rightarrow> bool" where
  "get_is_link_up p \<longleftrightarrow> status_state (m_status p) = State_Enabled"

text \<open>The loop runs to the entry after the last one reported; the array has 48 entries.\<close>

fun find_binding :: "port_binding list \<Rightarrow> u8 \<Rightarrow> nat \<Rightarrow> nat \<Rightarrow> pnc_exception + port_binding" where
  "find_binding entries port_id k 0 = Inl (RuntimeError ''Port Id not in list while checking port binding info'')"
| "find_binding entries port_id k (Suc n) =
     (if k \<ge> PM85X6_PHY_PORTS_NUMBER then Inl UndefinedBehaviour
      else if pb_phy_port_id (entries ! k) = port_id then Inr (entries ! k)
      else find_binding entries port_id (k + 1) n)"

definition get_is_bound :: "gas_registers \<Rightarrow> port_binding_info \<Rightarrow> u8 \<Rightarrow> ('s, pnc_exception, bool \<times> bool) eff" where
  "get_is_bound gas pbi port_id =
     (case find_binding (pbi_entries pbi) port_id 0 (Suc (unat (pbi_info_count pbi))) of
        Inl e \<Rightarrow> ethrow e
      | Inr b \<Rightarrow> eret (pb_partition_id b \<noteq> 0xFF, pb_partition_id b = top_current_partition_id gas))"

definition get_is_present :: "u64 \<Rightarrow> u64 \<Rightarrow> bool" where
  "get_is_present bitmask phys_port_id =
     (let half = ucast (phys_port_id div 2) :: u8;
          phys_port_bit = (if half > 7 then half - 8 else half)
      in bitmask AND push_bit (unat phys_port_bit) 1 \<noteq> 0)"

definition get_presence :: "'h access_interface \<Rightarrow> u64 \<Rightarrow> ('h, u64) pnc_eff" where
  "get_presence i edk_mask =
     ebind get_chassis_uuid (\<lambda>chassis_uuid.
     ebind (pnc_get chassis_table chassis_uuid) (\<lambda>c.
       case m_platform c of
         EDK \<Rightarrow> eret edk_mask
       | MF3 \<Rightarrow> on_hw (get_presence_bitmask i)
       | _ \<Rightarrow> ethrow (RuntimeError ''Unknown platform type'')))"

subsection \<open>The managers of the ports\<close>

record dsp =
  dsp_port_uuid :: uuid
  dsp_state :: port_state
  dsp_prev_bound :: bool
  dsp_prev_present :: bool
  dsp_device_uuid :: uuid
  dsp_recoverable_bindings :: "(uuid \<times> uuid) list"

definition new_dsp :: "uuid \<Rightarrow> dsp" where
  "new_dsp port_uuid =
     \<lparr> dsp_port_uuid = port_uuid, dsp_state = Initial, dsp_prev_bound = False, dsp_prev_present = False,
       dsp_device_uuid = [], dsp_recoverable_bindings = [] \<rparr>"

type_synonym ('h, 'a) dsp_eff = "('h pnc \<times> dsp, pnc_exception, 'a) eff"

definition load_psm :: "'h pnc \<Rightarrow> dsp \<Rightarrow> 'h port_world psm" where
  "load_psm s d =
     \<lparr> psm_state = dsp_state d, m_prev_bound = dsp_prev_bound d, m_prev_present = dsp_prev_present d,
       psm_world = \<lparr> m_device_uuid = dsp_device_uuid d, m_recoverable_bindings = dsp_recoverable_bindings d, pw_agent = s \<rparr> \<rparr>"

definition store_psm :: "dsp \<Rightarrow> 'h port_world psm \<Rightarrow> dsp" where
  "store_psm d m =
     \<lparr> dsp_port_uuid = dsp_port_uuid d, dsp_state = psm_state m, dsp_prev_bound = m_prev_bound m, dsp_prev_present = m_prev_present m,
       dsp_device_uuid = m_device_uuid (psm_world m), dsp_recoverable_bindings = m_recoverable_bindings (psm_world m) \<rparr>"

definition on_psm :: "('h port_world psm, pnc_exception, 'a) eff \<Rightarrow> ('h, 'a) dsp_eff" where
  "on_psm f = (\<lambda>(s, d). case f (load_psm s d) of (r, m) \<Rightarrow> (r, (pw_agent (psm_world m), store_psm d m)))"

definition on_model :: "('h, 'a) pnc_eff \<Rightarrow> ('h, 'a) dsp_eff" where
  "on_model f = (\<lambda>(s, d). case f s of (r, s') \<Rightarrow> (r, (s', d)))"

text \<open>A loop over the ports that stops at the first exception.\<close>

fun for_each_dsp :: "(dsp \<Rightarrow> ('h, unit) dsp_eff) \<Rightarrow> dsp list \<Rightarrow> 'h pnc \<Rightarrow> (pnc_exception + unit) \<times> 'h pnc \<times> dsp list" where
  "for_each_dsp body [] s = (Inr (), s, [])"
| "for_each_dsp body (d # ds) s =
     (case body d (s, d) of
        (Inl e, (s', d')) \<Rightarrow> (Inl e, s', d' # ds)
      | (Inr _, (s', d')) \<Rightarrow> (case for_each_dsp body ds s' of (r, s'', ds') \<Rightarrow> (r, s'', d' # ds')))"

definition dsp_hooks :: "'h access_interface \<Rightarrow> 'h discovery \<Rightarrow> uuid \<Rightarrow> dsp \<Rightarrow> ('h port_world, pnc_exception) port_hooks" where
  "dsp_hooks i dm switch_uuid d =
     port_actions \<lparr> pc_iface = i, pc_discovery = dm, pc_switch_uuid = switch_uuid, pc_port_uuid = dsp_port_uuid d \<rparr>"

definition dsp_is_device_present :: "dsp \<Rightarrow> bool" where
  "dsp_is_device_present d \<longleftrightarrow> (dsp_state d = Oob_Busy \<or> dsp_state d = Full_Standby) \<and> dsp_device_uuid d \<noteq> []"

subsection \<open>Rounds of the monitor\<close>

text \<open>Upstream ports are listed, downstream ports get a manager, all others are ignored.\<close>

fun initialize_port_vectors :: "uuid list \<Rightarrow> ('h, uuid list \<times> dsp list) pnc_eff" where
  "initialize_port_vectors [] = eret ([], [])"
| "initialize_port_vectors (port_uuid # port_uuids) =
     ebind (pnc_get ports port_uuid) (\<lambda>p.
     ebind (opt_value (m_port_type p)) (\<lambda>port_type.
     ebind (initialize_port_vectors port_uuids) (\<lambda>(usps, dsps).
       eret (case port_type of
               UpstreamPort \<Rightarrow> (port_uuid # usps, dsps)
             | DownstreamPort \<Rightarrow> (usps, new_dsp port_uuid # dsps)
             | _ \<Rightarrow> (usps, dsps)))))"

text \<open>The body of the loop; the result tells whether the link is up, which sets a bit of the mask.\<close>

definition initialize_dsp ::
    "'h access_interface \<Rightarrow> 'h discovery \<Rightarrow> uuid \<Rightarrow> gas_registers \<Rightarrow> port_binding_info \<Rightarrow> dsp \<Rightarrow> ('h, port \<times> bool) dsp_eff" where
  "initialize_dsp i dm switch_uuid gas pbi d =
     ebind (on_model (pnc_get ports (dsp_port_uuid d))) (\<lambda>p.
     ebind (get_is_bound gas pbi (phys_id8 p)) (\<lambda>(is_bound, is_bound_to_host).
     eseq (on_psm (init_binding (dsp_hooks i dm switch_uuid d) is_bound is_bound_to_host))
    (eseq (on_model (update_port_status dm gas (dsp_port_uuid d)))
    (ebind (on_model (pnc_get ports (dsp_port_uuid d))) (\<lambda>p'.
     eseq (on_psm (init_presence (dsp_hooks i dm switch_uuid d) (get_is_link_up p')))
       (eret (p, get_is_link_up p')))))))"

fun initialize_dsps_loop ::
    "(dsp \<Rightarrow> ('h, port \<times> bool) dsp_eff) \<Rightarrow> dsp list \<Rightarrow> u64 \<Rightarrow> 'h pnc \<Rightarrow> (pnc_exception + u64) \<times> 'h pnc \<times> dsp list" where
  "initialize_dsps_loop body [] bits s = (Inr bits, s, [])"
| "initialize_dsps_loop body (d # ds) bits s =
     (case body d (s, d) of
        (Inl e, (s', d')) \<Rightarrow> (Inl e, s', d' # ds)
      | (Inr (p, is_link_up), (s', d')) \<Rightarrow>
          (case initialize_dsps_loop body ds
                  (if is_link_up then bits OR push_bit (unat (m_phys_port_id p)) 1 else bits) s' of
             (r, s'', ds') \<Rightarrow> (r, s'', d' # ds')))"

definition initialize_dsps ::
    "'h access_interface \<Rightarrow> 'h discovery \<Rightarrow> uuid \<Rightarrow> gas_registers \<Rightarrow> dsp list \<Rightarrow> 'h pnc \<Rightarrow> (pnc_exception + u64) \<times> 'h pnc \<times> dsp list" where
  "initialize_dsps i dm switch_uuid gas dsps s =
     (case on_hw (get_all_port_binding_info i) s of
        (Inl e, s') \<Rightarrow> (Inl e, s', dsps)
      | (Inr pbi, s') \<Rightarrow> initialize_dsps_loop (initialize_dsp i dm switch_uuid gas pbi) dsps 0 s')"

text \<open>
  The status of a drive that no other state overrides: read from the drive when its port is
  bound, otherwise offline with the health that was last read.
\<close>

definition touch_drive :: "'h discovery \<Rightarrow> bool \<Rightarrow> dsp \<Rightarrow> ('h, unit) pnc_eff" where
  "touch_drive dm is_bound d s =
     (case find (any_uuid_matches (dsp_device_uuid d)) (m_manager_data (drives s)) of
        None \<Rightarrow> (Inl (ModelError (InvalidUuid EntryNotFound (dsp_device_uuid d))), s)
      | Some drv \<Rightarrow>
          if m_is_being_erased drv \<or> m_is_in_warning_state drv \<or> m_is_in_critical_discovery_state drv \<or> m_is_being_discovered drv
          then (Inr (), s)
          else if is_bound then discovery_update_drive_status dm (dsp_port_uuid d) (dsp_device_uuid d) s
          else pnc_edit drives drives_update (dsp_device_uuid d)
                 (\<lambda>x. x\<lparr> m_status := \<lparr> status_state = State_StandbyOffline, status_health = Some (m_last_smart_health x) \<rparr> \<rparr>) s)"

definition update_downstream_port ::
    "'h access_interface \<Rightarrow> 'h discovery \<Rightarrow> uuid \<Rightarrow> gas_registers \<Rightarrow> u64 \<Rightarrow> port_binding_info \<Rightarrow> dsp \<Rightarrow> ('h, unit) dsp_eff" where
  "update_downstream_port i dm switch_uuid gas presence_bitmask pbi d =
     ebind (on_model (pnc_get ports (dsp_port_uuid d))) (\<lambda>p.
     let is_device_present = get_is_present presence_bitmask (ucast (m_phys_port_id p))
     in ebind (on_model (eget (\<lambda>s. is_device_present \<and> dsp_is_device_present d \<and> entry_exists (drives s) (dsp_device_uuid d)))) (\<lambda>is_drive_present.
        ebind (get_is_bound gas pbi (phys_id8 p)) (\<lambda>(is_bound, is_bound_to_host).
        ebind (on_model (if is_drive_present then ebind (pnc_get drives (dsp_device_uuid d)) (\<lambda>x. eret (m_is_being_erased x)) else eret False)) (\<lambda>is_being_erased.
        eseq (on_model (update_port_status dm gas (dsp_port_uuid d)))
       (eseq (if is_drive_present then on_model (touch_drive dm is_bound d) else eret ())
          (on_psm (psm_update (dsp_hooks i dm switch_uuid d) is_device_present is_bound is_bound_to_host is_being_erased)))))))"

definition update_downstream_ports ::
    "'h access_interface \<Rightarrow> 'h discovery \<Rightarrow> uuid \<Rightarrow> gas_registers \<Rightarrow> u64 \<Rightarrow> port_binding_info \<Rightarrow> dsp list \<Rightarrow> 'h pnc
       \<Rightarrow> (pnc_exception + unit) \<times> 'h pnc \<times> dsp list" where
  "update_downstream_ports i dm switch_uuid gas presence_bitmask pbi =
     for_each_dsp (update_downstream_port i dm switch_uuid gas presence_bitmask pbi)"

definition update_upstream_ports :: "'h discovery \<Rightarrow> gas_registers \<Rightarrow> uuid list \<Rightarrow> ('h, unit) pnc_eff" where
  "update_upstream_ports dm gas = efor (update_port_status dm gas)"

text \<open>The body of the loop of the thread: exceptions are logged and the next round follows.\<close>

definition caught :: "pnc_exception \<Rightarrow> pnc_exception + unit" where
  "caught e = (if catchable e then Inr () else Inl e)"

definition monitor_round ::
    "'h access_interface \<Rightarrow> 'h discovery \<Rightarrow> uuid \<Rightarrow> u64 \<Rightarrow> uuid list
       \<Rightarrow> gas_registers \<times> dsp list \<times> 'h pnc \<Rightarrow> (pnc_exception + unit) \<times> gas_registers \<times> dsp list \<times> 'h pnc" where
  "monitor_round i dm switch_uuid edk_mask usps = (\<lambda>(gas0, dsps, s0).
     case on_hw (read_top i gas0) s0 of
       (Inl e, s1) \<Rightarrow> (caught e, gas0, dsps, s1)
     | (Inr gas, s1) \<Rightarrow>
        (case get_presence i edk_mask s1 of
           (Inl e, s2) \<Rightarrow> (caught e, gas, dsps, s2)
         | (Inr presence_bitmask, s2) \<Rightarrow>
            (case on_hw (get_all_port_binding_info i) s2 of
               (Inl e, s3) \<Rightarrow> (caught e, gas, dsps, s3)
             | (Inr pbi, s3) \<Rightarrow>
                (case update_downstream_ports i dm switch_uuid gas presence_bitmask pbi dsps s3 of
                   (Inl e, s4, dsps') \<Rightarrow> (caught e, gas, dsps', s4)
                 | (Inr _, s4, dsps') \<Rightarrow>
                     (case update_upstream_ports dm gas usps s4 of
                        (Inl e, s5) \<Rightarrow> (caught e, gas, dsps', s5)
                      | (Inr _, s5) \<Rightarrow> (Inr (), gas, dsps', s5))))))"

subsection \<open>What the readings mean\<close>

definition reported :: "port_binding_info \<Rightarrow> bool" where
  "reported pbi \<longleftrightarrow> (\<exists>xs. pbi_entries pbi = fill no_binding xs \<and> length xs = unat (pbi_info_count pbi) \<and> length xs \<le> PM85X6_PHY_PORTS_NUMBER)"

lemma find_binding_skips:
  assumes "k + length xs \<le> PM85X6_PHY_PORTS_NUMBER" "drop k entries = xs @ ys"
  shows "find_binding entries port_id k (length xs + Suc n) =
    (case find (\<lambda>b. pb_phy_port_id b = port_id) xs of Some b \<Rightarrow> Inr b | None \<Rightarrow> find_binding entries port_id (k + length xs) (Suc n))"
  using assms
proof (induction xs arbitrary: k)
  case (Cons x xs)
  have "k < length entries" using Cons.prems(2) by (cases "k < length entries") auto
  with Cons.prems(2) have k: "entries ! k = x" "drop (k + 1) entries = xs @ ys"
    by (simp_all add: nth_via_drop drop_Suc tl_drop[symmetric])
  with Cons.prems(1) Cons.IH[of "k + 1"] show ?case
    by (simp del: find_binding.simps(2) add: find_binding.simps(2)[of _ _ k] split: option.split)
qed simp

text \<open>
  What the binding of a port is taken to be. A port in the list the switch reported is
  bound unless its partition is 255, and bound to the host when its partition is the current
  one. The search runs one entry too far: with all 48 entries reported it leaves the array,
  otherwise it meets an entry of zeros, so that port 0 counts as bound to partition 0.
\<close>

theorem get_is_bound_outcome:
  assumes "reported pbi"
  shows "get_is_bound gas pbi port_id s =
    (case find (\<lambda>b. pb_phy_port_id b = port_id) (take (unat (pbi_info_count pbi)) (pbi_entries pbi)) of
       Some b \<Rightarrow> (Inr (pb_partition_id b \<noteq> 0xFF, pb_partition_id b = top_current_partition_id gas), s)
     | None \<Rightarrow>
         if unat (pbi_info_count pbi) = 48 then (Inl UndefinedBehaviour, s)
         else if port_id = 0 then (Inr (True, top_current_partition_id gas = 0), s)
         else (Inl (RuntimeError ''Port Id not in list while checking port binding info''), s))"
proof -
  obtain xs where xs: "pbi_entries pbi = fill no_binding xs" "length xs = unat (pbi_info_count pbi)" "length xs \<le> 48"
    using assms by (auto simp: reported_def PM85X6_PHY_PORTS_NUMBER_def)
  let ?n = "length xs"
  have tk: "take ?n (pbi_entries pbi) = xs" by (simp add: xs(1) fill_def)
  have search: "find_binding (pbi_entries pbi) port_id 0 (?n + Suc 0) =
      (case find (\<lambda>b. pb_phy_port_id b = port_id) xs of Some b \<Rightarrow> Inr b | None \<Rightarrow> find_binding (pbi_entries pbi) port_id (0 + ?n) (Suc 0))"
    by (rule find_binding_skips[where ys = "replicate (PM85X6_PHY_PORTS_NUMBER - ?n) no_binding"])
      (use xs in \<open>simp_all add: fill_def PM85X6_PHY_PORTS_NUMBER_def\<close>)
  have last: "find_binding (pbi_entries pbi) port_id ?n (Suc 0) =
      (if ?n = 48 then Inl UndefinedBehaviour else if port_id = 0 then Inr no_binding
       else Inl (RuntimeError ''Port Id not in list while checking port binding info''))"
    using xs(3) by (simp add: xs(1) fill_def nth_append PM85X6_PHY_PORTS_NUMBER_def no_binding_def eq_commute[of 0 port_id])
  show ?thesis
    using search last xs(2) tk
    by (cases "find (\<lambda>b. pb_phy_port_id b = port_id) xs")
      (simp_all add: get_is_bound_def no_binding_def eq_commute[of 0 "top_current_partition_id gas"])
qed

theorem get_is_bound_outcome_witness:
  "get_is_bound empty_gas \<lparr> pbi_ret_value = 0, pbi_info_count = 0, pbi_entries = fill no_binding [] \<rparr> 0 () = (Inr (True, True), ())"
proof -
  have "reported \<lparr> pbi_ret_value = 0, pbi_info_count = 0, pbi_entries = fill no_binding [] \<rparr>"
    by (simp add: reported_def)
  from get_is_bound_outcome[OF this, of empty_gas 0 "()"] show ?thesis by (simp add: empty_gas_def)
qed

lemma get_is_present_bit:
  "get_is_present bits phys_port_id \<longleftrightarrow>
     bit bits (unat (if ucast (phys_port_id div 2) > (7 :: u8) then ucast (phys_port_id div 2) - 8 else ucast (phys_port_id div 2) :: u8))"
  by (simp add: get_is_present_def Let_def bit_iff_and_push_bit_not_eq_0)

text \<open>The physical port of a slot: the even numbers from 0 to 14 and from 32 to 46.\<close>

definition slot_port :: "nat \<Rightarrow> nat" where
  "slot_port k = (if k < 8 then 2 * k else 2 * k + 16)"

lemma all_slots: "list_all P [0..<16] \<longleftrightarrow> P 0 \<and> P 1 \<and> P 2 \<and> P 3 \<and> P 4 \<and> P 5 \<and> P 6 \<and> P 7 \<and> P 8 \<and> P 9 \<and> P 10 \<and> P 11
    \<and> P 12 \<and> P 13 \<and> P 14 \<and> P (15 :: nat)"
  by (simp add: upt_rec numeral_eq_Suc)

text \<open>
  On the MF3 platform the presence of the device in each of the 16 slots is read from its
  own bit of the two presence registers: a device is present when the bit is 0, the bits of a
  register standing in the opposite order of the ports.
\<close>

theorem mf3_presence:
  "list_all (\<lambda>k. get_is_present (presence_mask a b) (of_nat (slot_port k)) \<longleftrightarrow> \<not> bit (if k < 8 then a else b) (7 - k mod 8)) [0..<16]"
  unfolding all_slots by (simp add: get_is_present_bit slot_port_def presence_mask_bits)

text \<open>
  On the EDK platform the presence of a device is read from another bit than the one set
  for it. The mask gets the bit of the physical port number, but it is read at the number of the slot,
  so a mask with a single device shows that device only when it is on port 0.
\<close>

theorem edk_presence_mismatch:
  "list_all (\<lambda>k. get_is_present (0 OR push_bit (slot_port k) 1) (of_nat (slot_port k)) \<longleftrightarrow> slot_port k = 0) [0..<16]"
  unfolding all_slots by (simp add: get_is_present_bit slot_port_def bit_simps)

end
