(* ===== verification/Task_Action.thy ===== *)
theory Task_Action
  imports Generic_Manager
begin

text \<open>
  Asynchronous tasks of the agent framework: \<open>Task\<close> (\<open>action/task.cpp\<close>), the actions a task
  is made of and what runs after a success or a failure; \<open>TaskResultManager\<close>; and
  \<open>TaskCreator\<close>, which ties a task to the task resource of the model.
\<close>

subsection \<open>Exceptions as a task sees them\<close>

text \<open>
  What a \<open>catch\<close> of \<open>Task::operator()\<close> distinguishes: a \<open>GamiException\<close>, another standard
  exception with its \<open>what()\<close>, anything else. The last constructor is for outcomes of the
  model that are no C++ exceptions.
\<close>

record gami =
  gami_code :: int
  gami_message :: string

definition UNKNOWN_ERROR :: int where
  "UNKNOWN_ERROR = - 1"

definition INVALID_UUID :: int where
  "INVALID_UUID = 14500"

datatype caught = Caught_Gami gami | Caught_Std string | Caught_Other | Not_Caught

fun gami_of :: "caught \<Rightarrow> gami option" where
  "gami_of (Caught_Gami g) = Some g"
| "gami_of (Caught_Std what) = Some \<lparr> gami_code = UNKNOWN_ERROR, gami_message = what \<rparr>"
| "gami_of Caught_Other =
     Some \<lparr> gami_code = UNKNOWN_ERROR, gami_message = ''An unknown error occurred during task execution.'' \<rparr>"
| "gami_of Not_Caught = None"

subsection \<open>Task\<close>

record ('s, 'e) task =
  m_subtasks :: "('s, 'e, unit) eff list"
  m_completion_callbacks :: "('s, 'e, unit) eff list"
  m_exception_callbacks :: "(gami \<Rightarrow> ('s, 'e, unit) eff) list"
  m_exception_handlers :: "(gami \<Rightarrow> ('s, 'e, unit) eff) list"
  m_prerun_actions :: "('s, 'e, unit) eff list"
  m_postrun_actions :: "('s, 'e, unit) eff list"

definition empty_task :: "('s, 'e) task" where
  "empty_task = \<lparr> m_subtasks = [], m_completion_callbacks = [], m_exception_callbacks = [],
                  m_exception_handlers = [], m_prerun_actions = [], m_postrun_actions = [] \<rparr>"

definition task_run :: "('s, 'e) task \<Rightarrow> ('s, 'e, unit) eff" where
  "task_run t = efor (\<lambda>subtask. subtask) (m_subtasks t)"

definition prerun :: "('s, 'e) task \<Rightarrow> ('s, 'e, unit) eff" where
  "prerun t = efor (\<lambda>prerun_action. prerun_action) (m_prerun_actions t)"

definition postrun :: "('s, 'e) task \<Rightarrow> ('s, 'e, unit) eff" where
  "postrun t = efor (\<lambda>postrun_action. postrun_action) (m_postrun_actions t)"

definition run_completion_callbacks :: "('s, 'e) task \<Rightarrow> ('s, 'e, unit) eff" where
  "run_completion_callbacks t = efor (\<lambda>completion_callback. completion_callback) (m_completion_callbacks t)"

definition run_exception_callbacks :: "gami \<Rightarrow> ('s, 'e) task \<Rightarrow> ('s, 'e, unit) eff" where
  "run_exception_callbacks e t = efor (\<lambda>exception_callback. exception_callback e) (m_exception_callbacks t)"

definition run_exception_handlers :: "gami \<Rightarrow> ('s, 'e) task \<Rightarrow> ('s, 'e, unit) eff" where
  "run_exception_handlers e t = efor (\<lambda>exception_handler. exception_handler e) (m_exception_handlers t)"

text \<open>
  \<open>operator()\<close>. The completion callbacks run inside the \<open>try\<close>; what a callback or a handler
  of the exception throws leaves the task, and \<open>postrun\<close> is skipped.
\<close>

definition task_call :: "('e \<Rightarrow> caught) \<Rightarrow> ('s, 'e) task \<Rightarrow> ('s, 'e, unit) eff" where
  "task_call classify t =
     eseq (ecatch (eseq (prerun t) (eseq (task_run t) (run_completion_callbacks t)))
             (\<lambda>e. case gami_of (classify e) of
                    Some g \<Rightarrow> eseq (run_exception_callbacks g t) (run_exception_handlers g t)
                  | None \<Rightarrow> ethrow e))
       (postrun t)"

definition add_subtask :: "('s, 'e, unit) eff \<Rightarrow> ('s, 'e) task \<Rightarrow> ('s, 'e) task" where
  "add_subtask subtask t = t\<lparr> m_subtasks := m_subtasks t @ [subtask] \<rparr>"

definition add_prerun_action :: "('s, 'e, unit) eff \<Rightarrow> ('s, 'e) task \<Rightarrow> ('s, 'e) task" where
  "add_prerun_action prerun_action t = t\<lparr> m_prerun_actions := m_prerun_actions t @ [prerun_action] \<rparr>"

definition add_postrun_action :: "('s, 'e, unit) eff \<Rightarrow> ('s, 'e) task \<Rightarrow> ('s, 'e) task" where
  "add_postrun_action postrun_action t = t\<lparr> m_postrun_actions := m_postrun_actions t @ [postrun_action] \<rparr>"

definition add_completion_callback :: "('s, 'e, unit) eff \<Rightarrow> ('s, 'e) task \<Rightarrow> ('s, 'e) task" where
  "add_completion_callback callback t = t\<lparr> m_completion_callbacks := m_completion_callbacks t @ [callback] \<rparr>"

definition add_exception_callback :: "(gami \<Rightarrow> ('s, 'e, unit) eff) \<Rightarrow> ('s, 'e) task \<Rightarrow> ('s, 'e) task" where
  "add_exception_callback callback t = t\<lparr> m_exception_callbacks := m_exception_callbacks t @ [callback] \<rparr>"

definition add_exception_handler :: "(gami \<Rightarrow> ('s, 'e, unit) eff) \<Rightarrow> ('s, 'e) task \<Rightarrow> ('s, 'e) task" where
  "add_exception_handler exception_handler t = t\<lparr> m_exception_handlers := m_exception_handlers t @ [exception_handler] \<rparr>"

subsection \<open>Rearranging the actions of a task\<close>

text \<open>
  \<open>std::out_of_range\<close>, and the undefined behaviour of erasing with an iterator of another
  vector. An element is moved by erasing it and inserting the copy at the new position.
\<close>

datatype position_error = OutOfRange string | ForeignIterator

definition move_position :: "string \<Rightarrow> nat \<Rightarrow> nat \<Rightarrow> 'a list \<Rightarrow> position_error + 'a list" where
  "move_position message old_position new_position xs =
     (if old_position \<ge> length xs \<or> new_position \<ge> length xs then Inl (OutOfRange message)
      else Inr (insert_at new_position (xs ! old_position) (erase_at old_position xs)))"

definition remove_position :: "string \<Rightarrow> nat \<Rightarrow> 'a list \<Rightarrow> position_error + 'a list" where
  "remove_position message position xs =
     (if position \<ge> length xs then Inl (OutOfRange message) else Inr (erase_at position xs))"

definition move_subtask :: "nat \<Rightarrow> nat \<Rightarrow> ('s, 'e) task \<Rightarrow> position_error + ('s, 'e) task" where
  "move_subtask old_position new_position t =
     (case move_position ''Cannot move subtask: index out of range'' old_position new_position (m_subtasks t) of
        Inl e \<Rightarrow> Inl e | Inr xs \<Rightarrow> Inr (t\<lparr> m_subtasks := xs \<rparr>))"

definition move_prerun_action :: "nat \<Rightarrow> nat \<Rightarrow> ('s, 'e) task \<Rightarrow> position_error + ('s, 'e) task" where
  "move_prerun_action old_position new_position t =
     (case move_position ''Cannot move prerun action: index out of range'' old_position new_position (m_prerun_actions t) of
        Inl e \<Rightarrow> Inl e | Inr xs \<Rightarrow> Inr (t\<lparr> m_prerun_actions := xs \<rparr>))"

definition move_postrun_action :: "nat \<Rightarrow> nat \<Rightarrow> ('s, 'e) task \<Rightarrow> position_error + ('s, 'e) task" where
  "move_postrun_action old_position new_position t =
     (case move_position ''Cannot move postrun action: index out of range'' old_position new_position (m_postrun_actions t) of
        Inl e \<Rightarrow> Inl e | Inr xs \<Rightarrow> Inr (t\<lparr> m_postrun_actions := xs \<rparr>))"

definition move_completion_callback :: "nat \<Rightarrow> nat \<Rightarrow> ('s, 'e) task \<Rightarrow> position_error + ('s, 'e) task" where
  "move_completion_callback old_position new_position t =
     (case move_position ''Cannot delete callback: index out of range'' old_position new_position (m_completion_callbacks t) of
        Inl e \<Rightarrow> Inl e | Inr xs \<Rightarrow> Inr (t\<lparr> m_completion_callbacks := xs \<rparr>))"

definition move_exception_callback :: "nat \<Rightarrow> nat \<Rightarrow> ('s, 'e) task \<Rightarrow> position_error + ('s, 'e) task" where
  "move_exception_callback old_position new_position t =
     (case move_position ''Cannot delete callback: index out of range'' old_position new_position (m_exception_callbacks t) of
        Inl e \<Rightarrow> Inl e | Inr xs \<Rightarrow> Inr (t\<lparr> m_exception_callbacks := xs \<rparr>))"

datatype callback_type = CompletionCallback | ExceptionCallback

fun move_callback :: "callback_type \<Rightarrow> nat \<Rightarrow> nat \<Rightarrow> ('s, 'e) task \<Rightarrow> position_error + ('s, 'e) task" where
  "move_callback CompletionCallback old_position new_position t = move_completion_callback old_position new_position t"
| "move_callback ExceptionCallback old_position new_position t = move_exception_callback old_position new_position t"

definition remove_subtask :: "nat \<Rightarrow> ('s, 'e) task \<Rightarrow> position_error + ('s, 'e) task" where
  "remove_subtask position t =
     (case remove_position ''Cannot delete subtask: index out of range'' position (m_subtasks t) of
        Inl e \<Rightarrow> Inl e | Inr xs \<Rightarrow> Inr (t\<lparr> m_subtasks := xs \<rparr>))"

text \<open>The position is turned into an iterator of the vector of subtasks.\<close>

definition remove_prerun_action :: "nat \<Rightarrow> ('s, 'e) task \<Rightarrow> position_error + ('s, 'e) task" where
  "remove_prerun_action position t =
     (if position \<ge> length (m_prerun_actions t)
      then Inl (OutOfRange ''Cannot delte prerun action: index out of rande'')
      else Inl ForeignIterator)"

definition remove_postrun_action :: "nat \<Rightarrow> ('s, 'e) task \<Rightarrow> position_error + ('s, 'e) task" where
  "remove_postrun_action position t =
     (case remove_position ''Cannot delete postrun action: index out of range'' position (m_postrun_actions t) of
        Inl e \<Rightarrow> Inl e | Inr xs \<Rightarrow> Inr (t\<lparr> m_postrun_actions := xs \<rparr>))"

definition remove_completion_callback :: "nat \<Rightarrow> ('s, 'e) task \<Rightarrow> position_error + ('s, 'e) task" where
  "remove_completion_callback position t =
     (case remove_position ''Cannot delete completion callback: index out of range'' position (m_completion_callbacks t) of
        Inl e \<Rightarrow> Inl e | Inr xs \<Rightarrow> Inr (t\<lparr> m_completion_callbacks := xs \<rparr>))"

definition remove_exception_callback :: "nat \<Rightarrow> ('s, 'e) task \<Rightarrow> position_error + ('s, 'e) task" where
  "remove_exception_callback position t =
     (case remove_position ''Cannot delete exception callback: index out of range'' position (m_exception_callbacks t) of
        Inl e \<Rightarrow> Inl e | Inr xs \<Rightarrow> Inr (t\<lparr> m_exception_callbacks := xs \<rparr>))"

fun remove_callback :: "callback_type \<Rightarrow> nat \<Rightarrow> ('s, 'e) task \<Rightarrow> position_error + ('s, 'e) task" where
  "remove_callback CompletionCallback position t = remove_completion_callback position t"
| "remove_callback ExceptionCallback position t = remove_exception_callback position t"

subsection \<open>Results of tasks\<close>

text \<open>\<open>std::map::insert\<close> leaves the entry of a known key as it is.\<close>

type_synonym task_result = "json \<times> bool \<times> gami"

definition insert_result :: "uuid \<Rightarrow> task_result \<Rightarrow> (uuid \<rightharpoonup> task_result) \<Rightarrow> (uuid \<rightharpoonup> task_result)" where
  "insert_result u r results = (case results u of None \<Rightarrow> results(u \<mapsto> r) | Some _ \<Rightarrow> results)"

definition set_result :: "uuid \<Rightarrow> json \<Rightarrow> (uuid \<rightharpoonup> task_result) \<Rightarrow> (uuid \<rightharpoonup> task_result)" where
  "set_result task_uuid result =
     insert_result task_uuid (result, False, \<lparr> gami_code = UNKNOWN_ERROR, gami_message = [] \<rparr>)"

definition set_exception :: "uuid \<Rightarrow> gami \<Rightarrow> (uuid \<rightharpoonup> task_result) \<Rightarrow> (uuid \<rightharpoonup> task_result)" where
  "set_exception task_uuid e = insert_result task_uuid (JNull, True, e)"

definition task_exists :: "uuid \<Rightarrow> (uuid \<rightharpoonup> task_result) \<Rightarrow> bool" where
  "task_exists task_uuid results \<longleftrightarrow> results task_uuid \<noteq> None"

definition get_result :: "uuid \<Rightarrow> (uuid \<rightharpoonup> task_result) \<Rightarrow> gami + json" where
  "get_result task_uuid results =
     (case results task_uuid of
        None \<Rightarrow> Inl \<lparr> gami_code = INVALID_UUID, gami_message = ''Cannot find requested task in the task manager.'' \<rparr>
      | Some (result, is_error, e) \<Rightarrow> if is_error then Inl e else Inr result)"

end
