(* ===== verification/Task_Creator.thy ===== *)
theory Task_Creator
  imports Task_Action
begin

text \<open>
  \<open>TaskCreator\<close> (\<open>action/task_creator.cpp\<close>): a task whose actions also move the task resource
  of the model through its states and store the result. An agent is its own model, the
  table of task resources, the results, the update events that were sent for tasks and the
  wall clock. The commands on task resources are those of the PNC agent.
\<close>

subsection \<open>An agent with tasks\<close>

record 's agent =
  model :: 's
  task_manager :: "unit task_resource manager"
  m_results :: "uuid \<rightharpoonup> task_result"
  task_updates :: "uuid list"
  wall_clock :: string

datatype 'e agent_exception = FromModel 'e | TaskUnknown uuid | TaskExists uuid | LogicError string

definition classify_agent :: "('e \<Rightarrow> caught) \<Rightarrow> 'e agent_exception \<Rightarrow> caught" where
  "classify_agent classify e =
     (case e of
        FromModel x \<Rightarrow> classify x
      | TaskUnknown u \<Rightarrow> Caught_Gami \<lparr> gami_code = INVALID_UUID,
          gami_message = ''Tasks [UUID = '' @ [CHR 0x27] @ u @ [CHR 0x27] @ ''] not found.'' \<rparr>
      | TaskExists u \<Rightarrow> Caught_Gami \<lparr> gami_code = INVALID_UUID,
          gami_message = ''Object with this UUID already exists. UUID = '' @ [CHR 0x27] @ u @ [CHR 0x27] @ ''.'' \<rparr>
      | LogicError what \<Rightarrow> Caught_Std what)"

type_synonym ('s, 'e, 'a) agent_eff = "('s agent, 'e agent_exception, 'a) eff"
type_synonym ('s, 'e) agent_task = "('s agent, 'e agent_exception) task"

text \<open>Code that works on the model of the agent only.\<close>

definition on_model :: "('s, 'e, 'a) eff \<Rightarrow> ('s, 'e, 'a) agent_eff" where
  "on_model m a = (case m (model a) of
     (Inl e, s) \<Rightarrow> (Inl (FromModel e), a\<lparr> model := s \<rparr>) | (Inr x, s) \<Rightarrow> (Inr x, a\<lparr> model := s \<rparr>))"

definition fresh_agent :: "'s \<Rightarrow> 's agent" where
  "fresh_agent s = \<lparr> model = s, task_manager = empty_manager, m_results = (\<lambda>_. None),
                     task_updates = [], wall_clock = ''2019-01-01T00:00:00+00:00'' \<rparr>"

subsection \<open>TaskCreator\<close>

definition new_task_resource :: "uuid \<Rightarrow> unit task_resource" where
  "new_task_resource v1_uuid =
     resource.extend ((new_resource v1_uuid [] ''None'')\<lparr> m_status := \<lparr> status_state = State_Enabled, status_health = Some Health_OK \<rparr> \<rparr>)
       (task_resource.fields None None None [] [])"

record ('s, 'e) task_creator =
  m_is_task_prepared :: bool
  m_is_task_registered :: bool
  m_task :: "('s, 'e) agent_task"
  m_task_resource :: "unit task_resource"

definition new_task_creator :: "uuid \<Rightarrow> ('s, 'e) task_creator" where
  "new_task_creator v1_uuid =
     \<lparr> m_is_task_prepared = False, m_is_task_registered = False, m_task = empty_task,
       m_task_resource = new_task_resource v1_uuid \<rparr>"

definition send_task_update_event :: "uuid \<Rightarrow> ('s, 'e, unit) agent_eff" where
  "send_task_update_event u = emodify (\<lambda>a. a\<lparr> task_updates := task_updates a @ [u] \<rparr>)"

text \<open>
  The callbacks take a reference to the stored resource, set its state and then start or stop it:
  the state stays changed when \<open>start\<close> or \<open>stop\<close> throws. Argument \<open>verb\<close> names the
  operation in the message.
\<close>

definition logic_message :: "string \<Rightarrow> uuid \<Rightarrow> task_error \<Rightarrow> string" where
  "logic_message verb u e = ''Cannot '' @ verb @ '' task '' @ u @
     (case e of AlreadyStarted \<Rightarrow> '', task has already started''
              | NotStartedYet \<Rightarrow> '', task not started yet''
              | AlreadyFinished \<Rightarrow> '', task already finished'')"

definition move_task_to ::
    "task_state \<Rightarrow> string \<Rightarrow> (string \<Rightarrow> unit task_resource \<Rightarrow> task_error + unit task_resource) \<Rightarrow> uuid \<Rightarrow> ('s, 'e, unit) agent_eff" where
  "move_task_to st verb operation u a =
     (case find (any_uuid_matches u) (m_manager_data (task_manager a)) of
        None \<Rightarrow> (Inl (TaskUnknown u), a)
      | Some t0 \<Rightarrow>
          (let t = t0\<lparr> m_state := Some st \<rparr>;
               store = (\<lambda>x. a\<lparr> task_manager := (task_manager a)
                 \<lparr> m_manager_data := update_first (any_uuid_matches u) (\<lambda>_. x) (m_manager_data (task_manager a)) \<rparr> \<rparr>)
           in case operation (wall_clock a) t of
                Inl e \<Rightarrow> (Inl (LogicError (logic_message verb (get_uuid t) e)), store t)
              | Inr t' \<Rightarrow> (Inr (), store t')))"

definition prerun_action_unbound :: "uuid \<Rightarrow> ('s, 'e, unit) agent_eff" where
  "prerun_action_unbound = move_task_to Task_Running ''start'' task_start"

definition completion_callback_unbound :: "uuid \<Rightarrow> ('s, 'e, unit) agent_eff" where
  "completion_callback_unbound = move_task_to Task_Completed ''end'' task_stop"

definition exception_callback_unbound :: "uuid \<Rightarrow> ('s, 'e, unit) agent_eff" where
  "exception_callback_unbound = move_task_to Task_Exception ''end'' task_stop"

definition prepare_task :: "('s, 'e) task_creator \<Rightarrow> ('s, 'e, ('s, 'e) task_creator) agent_eff" where
  "prepare_task c =
     (if m_is_task_prepared c then ethrow (LogicError ''Cannot prepare an already prepared task'')
      else if m_is_task_registered c then ethrow (LogicError ''Cannot prepare an already registered task'')
      else
        (let u = get_uuid (m_task_resource c);
             t1 = add_prerun_action (prerun_action_unbound u) (m_task c);
             t2 = add_completion_callback (completion_callback_unbound u) t1;
             t3 = add_completion_callback (send_task_update_event u) t2;
             t4 = add_exception_callback (\<lambda>_. exception_callback_unbound u) t3;
             t5 = add_exception_callback (\<lambda>_. send_task_update_event u) t4
         in eret (c\<lparr> m_task := t5, m_is_task_prepared := True \<rparr>)))"

definition creator_add_prerun_action :: "('s, 'e, unit) agent_eff \<Rightarrow> ('s, 'e) task_creator \<Rightarrow> ('s, 'e) task_creator" where
  "creator_add_prerun_action prerun_action c = c\<lparr> m_task := add_prerun_action prerun_action (m_task c) \<rparr>"

definition creator_add_subtask :: "('s, 'e, unit) agent_eff \<Rightarrow> ('s, 'e) task_creator \<Rightarrow> ('s, 'e) task_creator" where
  "creator_add_subtask subtask c = c\<lparr> m_task := add_subtask subtask (m_task c) \<rparr>"

definition set_promised_response :: "('s, 'e, json) agent_eff \<Rightarrow> ('s, 'e) task_creator \<Rightarrow> ('s, 'e) task_creator" where
  "set_promised_response promised_response c =
     (let u = get_uuid (m_task_resource c)
      in c\<lparr> m_task := add_completion_callback
              (ebind promised_response (\<lambda>response. emodify (\<lambda>a. a\<lparr> m_results := set_result u response (m_results a) \<rparr>)))
              (m_task c) \<rparr>)"

definition set_promised_error_thrower :: "(gami \<Rightarrow> gami) \<Rightarrow> ('s, 'e) task_creator \<Rightarrow> ('s, 'e) task_creator" where
  "set_promised_error_thrower promised_error_thrower c =
     (let u = get_uuid (m_task_resource c)
      in c\<lparr> m_task := add_exception_callback
              (\<lambda>e. emodify (\<lambda>a. a\<lparr> m_results := set_exception u (promised_error_thrower e) (m_results a) \<rparr>))
              (m_task c) \<rparr>)"

definition register_task :: "('s, 'e) task_creator \<Rightarrow> ('s, 'e, ('s, 'e) task_creator) agent_eff" where
  "register_task c =
     (if \<not> m_is_task_prepared c then ethrow (LogicError ''Cannot register an unprepared task'')
      else if m_is_task_registered c then ethrow (LogicError ''Cannot register an already registered task'')
      else
        (let u = get_uuid (m_task_resource c);
             t1 = add_postrun_action (send_task_update_event u) (m_task c);
             t2 = add_exception_handler (\<lambda>e. emodify (\<lambda>a. a\<lparr> m_results := set_exception u e (m_results a) \<rparr>)) t1;
             r = (m_task_resource c)\<lparr> m_state := Some Task_Pending \<rparr>
         in (\<lambda>a. case add_entry r (task_manager a) of
                   (Inl _, _) \<Rightarrow> (Inl (TaskExists u), a)
                 | (Inr _, tm) \<Rightarrow> (Inr (c\<lparr> m_task := t2, m_task_resource := r, m_is_task_registered := True \<rparr>), a\<lparr> task_manager := tm \<rparr>))))"

subsection \<open>Commands on tasks\<close>

definition delete_task :: "uuid \<Rightarrow> ('s, 'e, unit) agent_eff" where
  "delete_task u = emodify (\<lambda>a. a\<lparr> task_manager := snd (manager_remove_entry u (task_manager a)) \<rparr>)"

text \<open>The table is asked for the task first, then the results for the UUID of the stored resource.\<close>

definition get_task_result_info :: "uuid \<Rightarrow> 's agent \<Rightarrow> gami + json" where
  "get_task_result_info u a =
     (case find_entry (task_manager a) u of
        None \<Rightarrow> Inl \<lparr> gami_code = INVALID_UUID, gami_message = ''Tasks [UUID = '' @ [CHR 0x27] @ u @ [CHR 0x27] @ ''] not found.'' \<rparr>
      | Some t \<Rightarrow>
          if \<not> task_exists (get_uuid t) (m_results a)
          then Inl \<lparr> gami_code = INVALID_UUID, gami_message = ''Could not find requested task.'' \<rparr>
          else get_result (get_uuid t) (m_results a))"


subsection \<open>The life of a task\<close>

text \<open>
  The calls every command of the PNC agent makes to put a task together: prepare, prerun
  actions, subtasks, the error, the response, register. The actions work on the model.
\<close>

definition build_task ::
    "uuid \<Rightarrow> ('s, 'e, unit) eff list \<Rightarrow> ('s, 'e, unit) eff list \<Rightarrow> (gami \<Rightarrow> gami) \<Rightarrow> json \<Rightarrow> ('s, 'e, ('s, 'e) task_creator) agent_eff" where
  "build_task v1_uuid prerun_actions subtasks exception_builder response =
     ebind (prepare_task (new_task_creator v1_uuid)) (\<lambda>c.
       register_task
         (set_promised_response (eret response)
           (set_promised_error_thrower exception_builder
             (fold (\<lambda>m. creator_add_subtask (on_model m)) subtasks
               (fold (\<lambda>m. creator_add_prerun_action (on_model m)) prerun_actions c)))))"

lemma get_uuid_new_task [simp]: "get_uuid (new_task_resource u) = u"
  by (simp add: new_task_resource_def resource.defs task_resource.defs get_uuid_def new_resource_def)

lemma creator_folds [simp]:
  "fold (\<lambda>m. creator_add_prerun_action (on_model m)) ms c
     = c\<lparr> m_task := (m_task c)\<lparr> m_prerun_actions := m_prerun_actions (m_task c) @ map on_model ms \<rparr> \<rparr>"
  "fold (\<lambda>m. creator_add_subtask (on_model m)) ms c
     = c\<lparr> m_task := (m_task c)\<lparr> m_subtasks := m_subtasks (m_task c) @ map on_model ms \<rparr> \<rparr>"
  by (induction ms arbitrary: c)
     (simp_all add: creator_add_prerun_action_def creator_add_subtask_def add_prerun_action_def add_subtask_def)

text \<open>The parts of a task that the creator has put together.\<close>

definition created_task :: "uuid \<Rightarrow> ('s, 'e, unit) eff list \<Rightarrow> ('s, 'e, unit) eff list \<Rightarrow> (gami \<Rightarrow> gami) \<Rightarrow> json \<Rightarrow> ('s, 'e) agent_task" where
  "created_task u pre subs thrower response =
     \<lparr> m_subtasks = map on_model subs,
       m_completion_callbacks =
         [completion_callback_unbound u, send_task_update_event u,
          ebind (eret response) (\<lambda>r. emodify (\<lambda>a. a\<lparr> m_results := set_result u r (m_results a) \<rparr>))],
       m_exception_callbacks =
         [\<lambda>_. exception_callback_unbound u, \<lambda>_. send_task_update_event u,
          \<lambda>e. emodify (\<lambda>a. a\<lparr> m_results := set_exception u (thrower e) (m_results a) \<rparr>)],
       m_exception_handlers = [\<lambda>e. emodify (\<lambda>a. a\<lparr> m_results := set_exception u e (m_results a) \<rparr>)],
       m_prerun_actions = prerun_action_unbound u # map on_model pre,
       m_postrun_actions = [send_task_update_event u] \<rparr>"

lemma build_task_outcome:
  "build_task u pre subs thrower response a =
     (case find_entry (task_manager a) u of
        Some _ \<Rightarrow> (Inl (TaskExists u), a)
      | None \<Rightarrow>
          (let r = (new_task_resource u)\<lparr> m_state := Some Task_Pending \<rparr>; epoch = m_current_epoch (task_manager a) + 1
           in (Inr \<lparr> m_is_task_prepared = True, m_is_task_registered = True,
                     m_task = created_task u pre subs thrower response, m_task_resource = r \<rparr>,
               a\<lparr> task_manager := (task_manager a)\<lparr> m_current_epoch := epoch,
                    m_manager_data := m_manager_data (task_manager a) @ [touch epoch r] \<rparr> \<rparr>)))"
proof -
  have u: "get_uuid ((new_task_resource u)\<lparr> m_state := x \<rparr>) = u" for x
    using get_uuid_new_task[of u] by (auto simp: get_uuid_def split: if_splits)
  show ?thesis
    by (simp add: build_task_def prepare_task_def new_task_creator_def empty_task_def eff_simps register_task_def
        set_promised_response_def set_promised_error_thrower_def add_prerun_action_def add_completion_callback_def
        add_exception_callback_def add_postrun_action_def add_exception_handler_def Let_def u add_entry_def
        created_task_def split: option.split)
qed

lemma efor_on_model: "efor (\<lambda>x. x) (map on_model ms) = on_model (efor (\<lambda>x. x) ms)"
  by (induction ms) (auto simp: fun_eq_iff on_model_def eff_simps split: prod.splits sum.splits)

lemma remove_first_append: "\<lbrakk>\<And>y. y \<in> set xs \<Longrightarrow> \<not> P y; P x\<rbrakk> \<Longrightarrow> remove_first P (xs @ [x]) = xs"
  by (induction xs) auto

text \<open>A task resource that is registered under its UUID and has neither started nor ended.\<close>

definition task_entry :: "uuid \<Rightarrow> unit task_resource \<Rightarrow> 's agent \<Rightarrow> bool" where
  "task_entry u t a \<longleftrightarrow> find (any_uuid_matches u) (m_manager_data (task_manager a)) = Some t \<and> uuid_matches u t \<and> get_uuid t = u"

definition not_started :: "unit task_resource \<Rightarrow> bool" where
  "not_started t \<longleftrightarrow> m_start_time t = None \<and> m_end_time t = None"

lemma find_update_first_stronger:
  "\<lbrakk>find q xs = Some t; \<And>y. p y \<Longrightarrow> q y; p x\<rbrakk> \<Longrightarrow> find p (update_first q (\<lambda>_. x) xs) = Some x"
  by (induction xs) (auto split: if_splits)

lemma find_update_first_other: "\<lbrakk>find q xs = Some t; \<not> p t; \<not> p x\<rbrakk> \<Longrightarrow> find p (update_first q (\<lambda>_. x) xs) = find p xs"
  by (induction xs) (auto split: if_splits)

lemma find_stronger: "\<lbrakk>find q xs = Some t; \<And>y. p y \<Longrightarrow> q y; p t\<rbrakk> \<Longrightarrow> find p xs = Some t"
  by (induction xs) (auto split: if_splits)

lemma uuid_matches_any: "uuid_matches u t \<Longrightarrow> any_uuid_matches u t"
  by (auto simp: uuid_matches_def any_uuid_matches_def)

lemma task_entry_found: "task_entry u t a \<Longrightarrow> find_entry (task_manager a) u = Some t"
  unfolding task_entry_def find_entry_def using find_stronger[of "any_uuid_matches u" _ t "uuid_matches u"] uuid_matches_any by metis

lemma task_entry_model [simp]:
  "task_entry u t (a\<lparr> model := s \<rparr>) = task_entry u t a"
  "task_entry u t (a\<lparr> task_updates := us \<rparr>) = task_entry u t a"
  "task_entry u t (a\<lparr> m_results := rs \<rparr>) = task_entry u t a"
  by (simp_all add: task_entry_def)

text \<open>Moving a registered task on: the outcome, and that only the task table changes.\<close>

lemma move_task_to_ok:
  assumes "task_entry u t a" and "operation (wall_clock a) (t\<lparr> m_state := Some st \<rparr>) = Inr t'"
    and "uuid_matches u t'" and "get_uuid t' = u" and "\<And>v. any_uuid_matches v t' = any_uuid_matches v t"
  shows "\<exists>tm. move_task_to st verb operation u a = (Inr (), a\<lparr> task_manager := tm \<rparr>) \<and> task_entry u t' (a\<lparr> task_manager := tm \<rparr>)
     \<and> (\<forall>v w. \<not> any_uuid_matches v t \<longrightarrow> task_entry v w a \<longrightarrow> task_entry v w (a\<lparr> task_manager := tm \<rparr>))"
proof -
  let ?xs = "m_manager_data (task_manager a)"
  have f: "find (any_uuid_matches u) ?xs = Some t" using assms(1) by (simp add: task_entry_def)
  have "find (any_uuid_matches u) (update_first (any_uuid_matches u) (\<lambda>_. t') ?xs) = Some t'"
    using find_update_first_stronger[OF f] uuid_matches_any[OF assms(3)] by simp
  moreover have "find (any_uuid_matches v) (update_first (any_uuid_matches u) (\<lambda>_. t') ?xs) = find (any_uuid_matches v) ?xs"
    if "\<not> any_uuid_matches v t" for v
    using find_update_first_other[OF f] that assms(5) by simp
  ultimately show ?thesis using f assms
    by (intro exI[of _ "(task_manager a)\<lparr> m_manager_data := update_first (any_uuid_matches u) (\<lambda>_. t') ?xs \<rparr>"])
       (simp add: move_task_to_def task_entry_def Let_def)
qed

lemma move_task_to_unknown:
  "find (any_uuid_matches u) (m_manager_data (task_manager a)) = None \<Longrightarrow> move_task_to st verb operation u a = (Inl (TaskUnknown u), a)"
  by (simp add: move_task_to_def)


lemma task_entry_kept:
  assumes "task_entry u t a"
  shows "uuid_matches u (t\<lparr> m_state := x, m_start_time := y, m_end_time := z \<rparr>)"
    and "get_uuid (t\<lparr> m_state := x, m_start_time := y, m_end_time := z \<rparr>) = u"
  using assms by (auto simp: task_entry_def uuid_matches_def get_uuid_def split: if_splits)

lemma any_uuid_matches_kept [simp]:
  "any_uuid_matches v (t\<lparr> m_state := x, m_start_time := y, m_end_time := z \<rparr>) = any_uuid_matches v t"
  "any_uuid_matches v (t\<lparr> m_state := x, m_start_time := y \<rparr>) = any_uuid_matches v t"
  "any_uuid_matches v (t\<lparr> m_state := x, m_end_time := z \<rparr>) = any_uuid_matches v t"
  by (simp_all add: any_uuid_matches_def)

lemma start_task:
  assumes "task_entry u t a" and "not_started t"
  shows "\<exists>tm. prerun_action_unbound u a = (Inr (), a\<lparr> task_manager := tm \<rparr>)
     \<and> task_entry u (t\<lparr> m_state := Some Task_Running, m_start_time := Some (wall_clock a), m_end_time := None \<rparr>) (a\<lparr> task_manager := tm \<rparr>)
     \<and> (\<forall>v w. \<not> any_uuid_matches v t \<longrightarrow> task_entry v w a \<longrightarrow> task_entry v w (a\<lparr> task_manager := tm \<rparr>))"
  unfolding prerun_action_unbound_def
  using assms task_entry_kept[OF assms(1)] by (intro move_task_to_ok) (auto simp: task_start_def not_started_def)

lemma end_task:
  assumes "task_entry u t a" and "m_start_time t = Some b" and "m_end_time t = None"
  shows "\<exists>tm. move_task_to st ''end'' task_stop u a = (Inr (), a\<lparr> task_manager := tm \<rparr>)
     \<and> task_entry u (t\<lparr> m_state := Some st, m_start_time := Some b, m_end_time := Some (wall_clock a) \<rparr>) (a\<lparr> task_manager := tm \<rparr>)
     \<and> (\<forall>v w. \<not> any_uuid_matches v t \<longrightarrow> task_entry v w a \<longrightarrow> task_entry v w (a\<lparr> task_manager := tm \<rparr>))"
  using assms task_entry_kept[OF assms(1)] by (intro move_task_to_ok) (auto simp: task_stop_def)

text \<open>The run of a created task: the actions on the model in order, framed by the changes of the task resource.\<close>

lemma created_task_call:
  fixes a :: "'s agent" and pre subs :: "('s, 'e, unit) eff list"
  assumes entry: "task_entry u t a" "not_started t" and fresh: "m_results a u = None"
    and run: "efor (\<lambda>x. x) (pre @ subs) (model a) = (r, s')"
    and caught: "\<And>e. r = Inl e \<Longrightarrow> gami_of (classify e) = Some g"
  shows "\<exists>a' t'. task_call (classify_agent classify) (created_task u pre subs thrower response) a = (Inr (), a')
     \<and> model a' = s' \<and> task_entry u t' a' \<and> m_end_time t' = Some (wall_clock a)
     \<and> m_state t' = Some (case r of Inr _ \<Rightarrow> Task_Completed | Inl _ \<Rightarrow> Task_Exception)
     \<and> m_results a' = (m_results a)(u \<mapsto> (case r of
          Inr _ \<Rightarrow> (response, False, \<lparr> gami_code = UNKNOWN_ERROR, gami_message = [] \<rparr>) | Inl _ \<Rightarrow> (JNull, True, thrower g)))
     \<and> task_updates a' = task_updates a @ [u, u]
     \<and> (\<forall>v w. \<not> any_uuid_matches v t \<longrightarrow> task_entry v w a \<longrightarrow> task_entry v w a')"
proof -
  obtain tm where start: "(prerun_action_unbound u :: ('s, 'e, unit) agent_eff) a = (Inr (), a\<lparr> task_manager := tm \<rparr>)"
    and e1: "task_entry u (t\<lparr> m_state := Some Task_Running, m_start_time := Some (wall_clock a), m_end_time := None \<rparr>) (a\<lparr> task_manager := tm \<rparr>)"
    and o1: "\<forall>v w. \<not> any_uuid_matches v t \<longrightarrow> task_entry v w a \<longrightarrow> task_entry v w (a\<lparr> task_manager := tm \<rparr>)"
    using start_task[OF entry] by blast
  let ?a1 = "a\<lparr> task_manager := tm, model := s' \<rparr>"
  let ?T = "created_task u pre subs thrower response"
  have body: "eseq (prerun ?T) (eseq (task_run ?T) n) a
      = (case r of Inl e \<Rightarrow> (Inl (FromModel e), ?a1) | Inr _ \<Rightarrow> n ?a1)" for n :: "('s, 'e, unit) agent_eff"
    using run
    by (auto simp: prerun_def task_run_def created_task_def eff_simps start efor_on_model on_model_def efor_append
        split: prod.splits sum.splits)
  have ended: "\<exists>tm2. (move_task_to st ''end'' task_stop u :: ('s, 'e, unit) agent_eff) ?a1 = (Inr (), ?a1\<lparr> task_manager := tm2 \<rparr>)
      \<and> task_entry u (t\<lparr> m_state := Some st, m_start_time := Some (wall_clock a), m_end_time := Some (wall_clock a) \<rparr>)
               (?a1\<lparr> task_manager := tm2 \<rparr>)
      \<and> (\<forall>v w. \<not> any_uuid_matches v t \<longrightarrow> task_entry v w ?a1 \<longrightarrow> task_entry v w (?a1\<lparr> task_manager := tm2 \<rparr>))" for st
    using end_task[of u "t\<lparr> m_state := Some Task_Running, m_start_time := Some (wall_clock a), m_end_time := None \<rparr>"
          ?a1 "wall_clock a" st] e1 by simp
  show ?thesis
  proof (cases r)
    case (Inr x)
    obtain tm2 where stop: "(move_task_to Task_Completed ''end'' task_stop u :: ('s, 'e, unit) agent_eff) ?a1 = (Inr (), ?a1\<lparr> task_manager := tm2 \<rparr>)"
      and e2: "task_entry u (t\<lparr> m_state := Some Task_Completed, m_start_time := Some (wall_clock a), m_end_time := Some (wall_clock a) \<rparr>)
        (?a1\<lparr> task_manager := tm2 \<rparr>)"
      and o2: "\<forall>v w. \<not> any_uuid_matches v t \<longrightarrow> task_entry v w ?a1 \<longrightarrow> task_entry v w (?a1\<lparr> task_manager := tm2 \<rparr>)"
      using ended[of Task_Completed] by blast
    let ?b = "?a1\<lparr> task_manager := tm2, m_results := (m_results a)(u \<mapsto> (response, False, \<lparr> gami_code = UNKNOWN_ERROR, gami_message = [] \<rparr>)),
        task_updates := task_updates a @ [u, u] \<rparr>"
    have "task_call (classify_agent classify) ?T a = (Inr (), ?b)"
      unfolding task_call_def eseq_apply[of "ecatch m h" for m h] ecatch_apply body
      using Inr stop fresh
      by (simp add: run_completion_callbacks_def postrun_def created_task_def eff_simps
          completion_callback_unbound_def send_task_update_event_def set_result_def insert_result_def)
    with e2 o1 o2 Inr show ?thesis by (intro exI[of _ ?b] exI) (auto simp: task_entry_def)
  next
    case (Inl e)
    obtain tm2 where stop: "(move_task_to Task_Exception ''end'' task_stop u :: ('s, 'e, unit) agent_eff) ?a1 = (Inr (), ?a1\<lparr> task_manager := tm2 \<rparr>)"
      and e2: "task_entry u (t\<lparr> m_state := Some Task_Exception, m_start_time := Some (wall_clock a), m_end_time := Some (wall_clock a) \<rparr>)
        (?a1\<lparr> task_manager := tm2 \<rparr>)"
      and o2: "\<forall>v w. \<not> any_uuid_matches v t \<longrightarrow> task_entry v w ?a1 \<longrightarrow> task_entry v w (?a1\<lparr> task_manager := tm2 \<rparr>)"
      using ended[of Task_Exception] by blast
    let ?b = "?a1\<lparr> task_manager := tm2, m_results := (m_results a)(u \<mapsto> (JNull, True, thrower g)),
        task_updates := task_updates a @ [u, u] \<rparr>"
    have "task_call (classify_agent classify) ?T a = (Inr (), ?b)"
      unfolding task_call_def eseq_apply[of "ecatch m h" for m h] ecatch_apply body
      using Inl stop fresh caught[OF Inl]
      by (simp add: run_exception_callbacks_def run_exception_handlers_def postrun_def created_task_def eff_simps
          classify_agent_def exception_callback_unbound_def send_task_update_event_def set_exception_def insert_result_def)
    with e2 o1 o2 Inl show ?thesis by (intro exI[of _ ?b] exI) (auto simp: task_entry_def)
  qed
qed


subsection \<open>Properties\<close>

text \<open>
  C10: A task that a command built and registered reaches an end whenever it is run. If its
  resource is still pending in the table, the run returns, its prerun actions and subtasks
  have worked on the model in order up to the first exception, the resource is Completed or
  Exception with an end time, the result query gives the promised response or the error
  made from the exception, and two update events were sent.
\<close>

theorem task_reaches_an_end:
  fixes classify :: "'e \<Rightarrow> caught" and a b :: "'s agent"
  assumes "build_task u pre subs thrower response a = (Inr c, a')"
    and "task_entry u t b" and "not_started t" and "m_results b u = None"
    and "efor (\<lambda>action. action) (pre @ subs) (model b) = (r, s')"
    and "\<And>e. r = Inl e \<Longrightarrow> gami_of (classify e) = Some g"
  shows "\<exists>b' t'. task_call (classify_agent classify) (m_task c) b = (Inr (), b') \<and> model b' = s'
     \<and> find_entry (task_manager b') u = Some t' \<and> m_end_time t' \<noteq> None
     \<and> m_state t' = Some (case r of Inr _ \<Rightarrow> Task_Completed | Inl _ \<Rightarrow> Task_Exception)
     \<and> get_task_result_info u b' = (case r of Inr _ \<Rightarrow> Inr response | Inl _ \<Rightarrow> Inl (thrower g))
     \<and> task_updates b' = task_updates b @ [u, u]"
proof -
  have c: "m_task c = created_task u pre subs thrower response"
    using assms(1) by (auto simp: build_task_outcome Let_def split: option.splits)
  obtain b' t' where call: "task_call (classify_agent classify) (created_task u pre subs thrower response) b = (Inr (), b')"
    and b': "model b' = s'" "task_entry u t' b'" "m_end_time t' = Some (wall_clock b)"
      "m_state t' = Some (case r of Inr _ \<Rightarrow> Task_Completed | Inl _ \<Rightarrow> Task_Exception)"
      "m_results b' = (m_results b)(u \<mapsto> (case r of
          Inr _ \<Rightarrow> (response, False, \<lparr> gami_code = UNKNOWN_ERROR, gami_message = [] \<rparr>) | Inl _ \<Rightarrow> (JNull, True, thrower g)))"
      "task_updates b' = task_updates b @ [u, u]"
    using created_task_call[OF assms(2-5), of classify g thrower response] assms(6) by blast
  have "get_uuid t' = u" using b'(2) by (simp add: task_entry_def)
  with b' have "get_task_result_info u b' = (case r of Inr _ \<Rightarrow> Inr response | Inl _ \<Rightarrow> Inl (thrower g))"
    by (auto simp: get_task_result_info_def task_entry_found[OF b'(2)] task_exists_def get_result_def split: sum.split)
  with c call b' task_entry_found[OF b'(2)] show ?thesis by auto
qed

text \<open>A task of two subtasks, the second of which throws.\<close>

definition example_classify :: "nat \<Rightarrow> caught" where
  "example_classify n = Caught_Gami \<lparr> gami_code = int n, gami_message = ''failed'' \<rparr>"

definition example_subtasks :: "(nat list, nat, unit) eff list" where
  "example_subtasks = [emodify (\<lambda>s. s @ [1]), ethrow 50000]"

lemma example_pending:
  "task_entry ''t'' (touch 2 ((new_task_resource ''t'')\<lparr> m_state := Some Task_Pending \<rparr>))
     (snd (build_task ''t'' [] example_subtasks id JNull (fresh_agent [])))"
  by (simp add: build_task_outcome fresh_agent_def empty_manager_def find_entry_def Let_def task_entry_def new_task_resource_def
      resource.defs task_resource.defs new_resource_def any_uuid_matches_def uuid_matches_def get_uuid_def touch_def)

theorem task_reaches_an_end_witness:
  "\<exists>c b b' t'. build_task ''t'' [] example_subtasks id JNull (fresh_agent []) = (Inr c, b)
     \<and> task_call (classify_agent example_classify) (m_task c) b = (Inr (), b') \<and> model b' = [1]
     \<and> find_entry (task_manager b') ''t'' = Some t' \<and> m_state t' = Some Task_Exception"
proof -
  let ?b = "snd (build_task ''t'' [] example_subtasks id JNull (fresh_agent []))"
  obtain c where c: "build_task ''t'' [] example_subtasks id JNull (fresh_agent []) = (Inr c, ?b)"
    by (simp add: build_task_outcome fresh_agent_def empty_manager_def find_entry_def Let_def)
  have results: "m_results ?b ''t'' = None" and model: "model ?b = []"
    by (simp_all add: build_task_outcome fresh_agent_def empty_manager_def find_entry_def Let_def)
  have fresh: "not_started (touch 2 ((new_task_resource ''t'')\<lparr> m_state := Some Task_Pending \<rparr>))"
    by (simp add: not_started_def new_task_resource_def resource.defs task_resource.defs new_resource_def touch_def)
  have run: "efor (\<lambda>action. action) ([] @ example_subtasks) (model ?b) = (Inl 50000, [1])"
    by (simp add: model) (simp add: example_subtasks_def eff_simps)
  from task_reaches_an_end[OF c example_pending fresh results run, where classify = example_classify
      and g = "\<lparr> gami_code = 50000, gami_message = ''failed'' \<rparr>"]
  show ?thesis using c by (auto simp: example_classify_def)
qed

text \<open>
  A task resource that is deleted while its task waits: the first prerun action does not
  find the resource, the exception callback does not find it either, and its exception
  leaves \<open>operator()\<close>. No subtask has run and no result is stored.
\<close>

lemma deleted_task_throws:
  assumes "build_task u pre subs thrower response a = (Inr c, a')"
    and "find (any_uuid_matches u) (m_manager_data (task_manager a)) = None"
    and "delete_task u a' = (Inr (), b)"
  shows "task_call (classify_agent classify) (m_task c) b = (Inl (TaskUnknown u), b) \<and> model b = model a \<and> m_results b = m_results a"
proof -
  let ?r = "touch (m_current_epoch (task_manager a) + 1) ((new_task_resource u)\<lparr> m_state := Some Task_Pending \<rparr>)"
  have c: "m_task c = created_task u pre subs thrower response"
    and a': "a' = a\<lparr> task_manager := (task_manager a)\<lparr> m_current_epoch := m_current_epoch (task_manager a) + 1,
                     m_manager_data := m_manager_data (task_manager a) @ [?r] \<rparr> \<rparr>"
    using assms(1) by (auto simp: build_task_outcome Let_def split: option.splits)
  have none: "find (uuid_matches u) (m_manager_data (task_manager a)) = None"
    using assms(2) uuid_matches_any by (auto simp: find_None_iff)
  have "uuid_matches u ?r"
    by (simp add: uuid_matches_def new_task_resource_def resource.defs task_resource.defs new_resource_def touch_def)
  with none have "remove_first (uuid_matches u) (m_manager_data (task_manager a) @ [?r]) = m_manager_data (task_manager a)"
    by (auto simp: find_None_iff intro: remove_first_append)
  with assms(2,3) a' have gone: "find (any_uuid_matches u) (m_manager_data (task_manager b)) = None"
    and b: "model b = model a" "m_results b = m_results a"
    by (auto simp: delete_task_def manager_remove_entry_def)
  show ?thesis
    using b
    by (simp add: move_task_to_unknown[OF gone] c task_call_def eff_simps prerun_def created_task_def prerun_action_unbound_def classify_agent_def
        run_exception_callbacks_def exception_callback_unbound_def)
qed

end
