(* ===== verification/Thread_Pool.thy ===== *)
theory Thread_Pool
  imports Task_Creator
begin

text \<open>
  The pool of threads that runs tasks (\<open>threading/threadpool.cpp\<close>, \<open>thread_queue.tpp\<close>): the
  queue of waiting jobs, the loop of a worker thread as a step relation, and the stop of the
  pool. The queue operations run under a mutex and are single steps; a job is one step of
  its thread. A job that throws ends the process: the loop has no handler.
\<close>

subsection \<open>ThreadQueue\<close>

text \<open>The two pushes are the same. \<open>None\<close>: the caller stays blocked.\<close>

definition queue_push_front :: "'a \<Rightarrow> 'a list \<Rightarrow> 'a list" where
  "queue_push_front v q = q @ [v]"

definition queue_push_back :: "'a \<Rightarrow> 'a list \<Rightarrow> 'a list" where
  "queue_push_back v q = q @ [v]"

definition queue_try_pop :: "'a list \<Rightarrow> 'a option \<times> 'a list" where
  "queue_try_pop q = (case q of [] \<Rightarrow> (None, []) | v # rest \<Rightarrow> (Some v, rest))"

definition queue_wait_and_pop :: "'a list \<Rightarrow> ('a \<times> 'a list) option" where
  "queue_wait_and_pop q = (case q of [] \<Rightarrow> None | v # rest \<Rightarrow> Some (v, rest))"

text \<open>
  The overload with an output parameter: the value it returns, what it wrote to the
  parameter, the queue. \<open>q\<close> is the queue when the wait ends.
\<close>

definition queue_wait_for_and_pop :: "'a list \<Rightarrow> bool \<times> 'a option \<times> 'a list" where
  "queue_wait_for_and_pop q = (case q of [] \<Rightarrow> (False, None, []) | v # rest \<Rightarrow> (False, Some v, rest))"

definition queue_wait_for_and_pop_ptr :: "'a list \<Rightarrow> 'a option \<times> 'a list" where
  "queue_wait_for_and_pop_ptr q = (case q of [] \<Rightarrow> (None, []) | v # rest \<Rightarrow> (Some v, rest))"

subsection \<open>Threadpool\<close>

datatype 'j pool_job = Stop | Regular 'j

datatype 'j worker = Waiting | Working 'j | Finished

record 'j pool =
  m_thread_count :: nat
  m_threads :: "'j worker list"
  m_tasks :: "'j pool_job list"
  m_running_tasks :: u32

definition new_pool :: "nat \<Rightarrow> 'j pool" where
  "new_pool thread_count =
     \<lparr> m_thread_count = thread_count, m_threads = replicate thread_count Waiting, m_tasks = [], m_running_tasks = 0 \<rparr>"

definition pool_run :: "'j \<Rightarrow> 'j pool \<Rightarrow> 'j pool" where
  "pool_run j p = p\<lparr> m_tasks := queue_push_back (Regular j) (m_tasks p) \<rparr>"

definition stop_threads :: "'j pool \<Rightarrow> 'j pool" where
  "stop_threads p = p\<lparr> m_tasks := (queue_push_front Stop ^^ m_thread_count p) (m_tasks p) \<rparr>"

text \<open>\<open>stop\<close> before it joins the threads; the joins return when every thread is finished.\<close>

definition pool_stop :: "bool \<Rightarrow> 'j pool \<Rightarrow> 'j pool" where
  "pool_stop force p = (if force then stop_threads p else p)"

record ('j, 's) process =
  pool :: "'j pool"
  world :: 's
  started :: "'j list"
  terminated :: bool

text \<open>
  The parts of \<open>run_loop\<close>: a waiting thread takes the front of the queue; a thread that has
  a job runs it. \<open>started\<close> records the jobs in the order the threads took them.
\<close>

inductive pool_step :: "('j \<Rightarrow> ('s, 'e, unit) eff) \<Rightarrow> ('j, 's) process \<Rightarrow> ('j, 's) process \<Rightarrow> bool"
  for run_job :: "'j \<Rightarrow> ('s, 'e, unit) eff" where
  take_stop:
    "\<lbrakk>\<not> terminated st; i < length (m_threads (pool st)); m_threads (pool st) ! i = Waiting;
      queue_wait_and_pop (m_tasks (pool st)) = Some (Stop, q)\<rbrakk>
     \<Longrightarrow> pool_step run_job st (st\<lparr> pool := (pool st)\<lparr> m_threads := (m_threads (pool st))[i := Finished], m_tasks := q \<rparr> \<rparr>)"
| take_job:
    "\<lbrakk>\<not> terminated st; i < length (m_threads (pool st)); m_threads (pool st) ! i = Waiting;
      queue_wait_and_pop (m_tasks (pool st)) = Some (Regular j, q)\<rbrakk>
     \<Longrightarrow> pool_step run_job st
           (st\<lparr> pool := (pool st)\<lparr> m_threads := (m_threads (pool st))[i := Working j], m_tasks := q,
                                   m_running_tasks := m_running_tasks (pool st) + 1 \<rparr>,
                started := started st @ [j] \<rparr>)"
| finish:
    "\<lbrakk>\<not> terminated st; i < length (m_threads (pool st)); m_threads (pool st) ! i = Working j;
      run_job j (world st) = (Inr (), w)\<rbrakk>
     \<Longrightarrow> pool_step run_job st
           (st\<lparr> pool := (pool st)\<lparr> m_threads := (m_threads (pool st))[i := Waiting],
                                   m_running_tasks := m_running_tasks (pool st) - 1 \<rparr>,
                world := w \<rparr>)"
| terminate:
    "\<lbrakk>\<not> terminated st; i < length (m_threads (pool st)); m_threads (pool st) ! i = Working j;
      run_job j (world st) = (Inl e, w)\<rbrakk>
     \<Longrightarrow> pool_step run_job st (st\<lparr> world := w, terminated := True \<rparr>)"

inductive_cases pool_stepE: "pool_step run_job st st'"

subsection \<open>Stopping the pool\<close>

lemma push_stops: "(queue_push_front Stop ^^ n) q = q @ replicate n Stop"
  by (induction n) (simp_all add: queue_push_front_def replicate_append_same[symmetric])

text \<open>
  After a forced stop of a pool with the waiting jobs \<open>js\<close>: what is left of the jobs is in
  front of what is left of the stop marks, and a thread can only have finished when no job
  is left.
\<close>

definition is_finished :: "'j worker \<Rightarrow> bool" where
  "is_finished w \<longleftrightarrow> w = Finished"

definition draining :: "'j list \<Rightarrow> ('j, 's) process \<Rightarrow> ('j, 's) process \<Rightarrow> bool" where
  "draining js st0 st \<longleftrightarrow>
     (\<exists>taken left stops. js = taken @ left \<and> started st = started st0 @ taken
        \<and> m_tasks (pool st) = map Regular left @ replicate stops Stop
        \<and> stops + length (filter is_finished (m_threads (pool st))) = length (m_threads (pool st))
        \<and> (left \<noteq> [] \<longrightarrow> Finished \<notin> set (m_threads (pool st))))"

lemma filter_update_count:
  "i < length xs \<Longrightarrow> length (filter P (xs[i := y])) + (if P (xs ! i) then 1 else 0) = length (filter P xs) + (if P y then 1 else 0)"
proof (induction xs arbitrary: i)
  case Nil
  then show ?case by simp
next
  case (Cons x xs)
  show ?case
  proof (cases i)
    case 0
    then show ?thesis by simp
  next
    case (Suc j)
    with Cons.IH[of j] Cons.prems show ?thesis by auto
  qed
qed

lemma front_of_queue:
  "queue_wait_and_pop (map Regular left @ replicate stops Stop) = Some (x, q) \<longleftrightarrow>
     (case left of
        j # rest \<Rightarrow> x = Regular j \<and> q = map Regular rest @ replicate stops Stop
      | [] \<Rightarrow> stops > 0 \<and> x = Stop \<and> q = replicate (stops - 1) Stop)"
  by (cases left; cases stops) (auto simp: queue_wait_and_pop_def)

lemma draining_step:
  assumes "draining js st0 st" and "pool_step run_job st st'"
  shows "draining js st0 st'"
proof -
  obtain taken left stops where d: "js = taken @ left" "started st = started st0 @ taken"
      "m_tasks (pool st) = map Regular left @ replicate stops Stop"
      "stops + length (filter is_finished (m_threads (pool st))) = length (m_threads (pool st))"
      "left \<noteq> [] \<longrightarrow> Finished \<notin> set (m_threads (pool st))"
    using assms(1) by (auto simp: draining_def)
  note count = filter_update_count[where P = is_finished and xs = "m_threads (pool st)", simplified is_finished_def, folded is_finished_def]
  from assms(2) show ?thesis
  proof (cases rule: pool_step.cases)
    case (take_stop i q)
    then have "left = []" "stops > 0" "q = replicate (stops - 1) Stop"
      using d(3) front_of_queue[of left stops Stop q] by (auto split: list.splits)
    with d take_stop count[of i Finished] show ?thesis
      by (auto simp: draining_def is_finished_def intro!: exI[of _ taken] exI[of _ "stops - 1"])
  next
    case (take_job i j q)
    then obtain rest where l: "left = j # rest" "q = map Regular rest @ replicate stops Stop"
      using d(3) front_of_queue[of left stops "Regular j" q] by (auto split: list.splits)
    have "Finished \<notin> set ((m_threads (pool st))[i := Working j])"
      using d(5) l(1) set_update_subset_insert[of "m_threads (pool st)" i "Working j"] by auto
    with d l take_job count[of i "Working j"] show ?thesis
      by (auto simp: draining_def is_finished_def intro!: exI[of _ "taken @ [j]"] exI[of _ rest] exI[of _ stops])
  next
    case (finish i j w)
    have "left \<noteq> [] \<longrightarrow> Finished \<notin> set ((m_threads (pool st))[i := Waiting])"
      using d(5) set_update_subset_insert[of "m_threads (pool st)" i Waiting] by auto
    with d finish count[of i Waiting] show ?thesis
      by (auto simp: draining_def is_finished_def intro!: exI[of _ taken] exI[of _ left] exI[of _ stops])
  next
    case (terminate i j e w)
    with d show ?thesis by (auto simp: draining_def)
  qed
qed


lemma draining_run: "(pool_step run_job)\<^sup>*\<^sup>* st st' \<Longrightarrow> draining js st0 st \<Longrightarrow> draining js st0 st'"
  by (induction rule: rtranclp_induct) (auto intro: draining_step)

text \<open>A process with a full set of threads, none of which has finished, and only jobs in the queue.\<close>

definition serving :: "'j list \<Rightarrow> ('j, 's) process \<Rightarrow> bool" where
  "serving js st \<longleftrightarrow> m_tasks (pool st) = map Regular js \<and> length (m_threads (pool st)) = m_thread_count (pool st)
     \<and> Finished \<notin> set (m_threads (pool st)) \<and> \<not> terminated st"

definition stopping :: "('j, 's) process \<Rightarrow> ('j, 's) process" where
  "stopping st = st\<lparr> pool := pool_stop True (pool st) \<rparr>"

lemma draining_start: "serving js st \<Longrightarrow> draining js st (stopping st)"
proof -
  assume s: "serving js st"
  then have "filter is_finished (m_threads (pool st)) = []"
    by (auto simp: serving_def is_finished_def filter_empty_conv)
  with s show ?thesis
    by (auto simp: serving_def stopping_def draining_def pool_stop_def stop_threads_def push_stops
        intro!: exI[of _ "[]"] exI[of _ js] exI[of _ "m_thread_count (pool st)"])
qed

text \<open>The work left: every step does some of it.\<close>

fun job_work :: "'j pool_job \<Rightarrow> nat" where
  "job_work Stop = 1"
| "job_work (Regular j) = 2"

fun is_working :: "'j worker \<Rightarrow> bool" where
  "is_working (Working j) = True"
| "is_working _ = False"

definition work_left :: "('j, 's) process \<Rightarrow> nat" where
  "work_left st = sum_list (map job_work (m_tasks (pool st))) + length (filter is_working (m_threads (pool st)))
     + (if terminated st then 0 else 1)"

lemma popped: "queue_wait_and_pop q = Some (x, rest) \<longleftrightarrow> q = x # rest"
  by (cases q) (auto simp: queue_wait_and_pop_def)

lemma work_decreases: "pool_step run_job st st' \<Longrightarrow> Suc (work_left st') = work_left st"
proof (induction rule: pool_step.induct)
  case (take_stop st i q)
  with filter_update_count[of i "m_threads (pool st)" is_working Finished] show ?case by (simp add: work_left_def popped)
next
  case (take_job st i j q)
  with filter_update_count[of i "m_threads (pool st)" is_working "Working j"] show ?case by (simp add: work_left_def popped)
next
  case (finish st i j w)
  with filter_update_count[of i "m_threads (pool st)" is_working Waiting] show ?case by (simp add: work_left_def)
next
  case (terminate st i j e w)
  then show ?case by (simp add: work_left_def)
qed

lemma work_bounds_run: "(pool_step run_job ^^ n) st st' \<Longrightarrow> n + work_left st' = work_left st"
  by (induction n arbitrary: st') (fastforce dest: work_decreases)+

lemma draining_progress:
  assumes "draining js st0 st" and "\<not> terminated st" and "\<exists>w \<in> set (m_threads (pool st)). w \<noteq> Finished"
  shows "\<exists>st'. pool_step run_job st st'"
proof -
  let ?ts = "m_threads (pool st)"
  obtain left stops where d: "m_tasks (pool st) = map Regular left @ replicate stops Stop"
      "stops + length (filter is_finished ?ts) = length ?ts"
    using assms(1) by (auto simp: draining_def)
  from assms(3) obtain i where i: "i < length ?ts" "?ts ! i \<noteq> Finished" by (auto simp: in_set_conv_nth)
  then have "length (filter is_finished ?ts) < length ?ts"
    by (intro length_filter_less[of "?ts ! i"]) (auto simp: is_finished_def)
  with d have "m_tasks (pool st) \<noteq> []" by (cases stops) auto
  then obtain x q where q: "queue_wait_and_pop (m_tasks (pool st)) = Some (x, q)"
    by (cases "m_tasks (pool st)") (auto simp: queue_wait_and_pop_def)
  show ?thesis
  proof (cases "?ts ! i")
    case Waiting
    with i q assms(2) show ?thesis by (cases x) (auto intro: pool_step.take_stop pool_step.take_job)
  next
    case (Working j)
    obtain r w where r: "run_job j (world st) = (r, w)" by fastforce
    with i Working assms(2) show ?thesis by (cases r) (auto intro: pool_step.finish pool_step.terminate)
  next
    case Finished
    with i show ?thesis by simp
  qed
qed

subsection \<open>Properties\<close>

text \<open>
  C13: A forced stop does not overtake the waiting jobs. \<open>stop_threads\<close> pushes the stop marks to
  the front of the queue, but \<open>push_front\<close> appends: in every run of the pool after
  \<open>stop(true)\<close>, a thread that has finished is proof that every job that was waiting has been
  taken by some thread.
\<close>

theorem forced_stop_drains:
  assumes "serving js st" and "(pool_step run_job)\<^sup>*\<^sup>* (stopping st) st'" and "Finished \<in> set (m_threads (pool st'))"
  shows "started st' = started st @ js"
  using draining_run[OF assms(2) draining_start[OF assms(1)]] assms(3) by (auto simp: draining_def)

text \<open>
  C14: A forced stop comes to an end: the number of steps of the pool after it is bounded by
  the work that was left, and as long as the process lives and a thread has not finished,
  some thread can take a step, so the joins of \<open>stop\<close> return unless a job throws.
\<close>

theorem forced_stop_ends:
  assumes "serving js st" and "(pool_step run_job ^^ n) (stopping st) st'"
  shows "n \<le> 2 * length js + 2 * m_thread_count (pool st) + 1
     \<and> (terminated st' \<or> set (m_threads (pool st')) \<subseteq> {Finished} \<or> (\<exists>st''. pool_step run_job st' st''))"
proof -
  have "n \<le> work_left (stopping st)" using work_bounds_run[OF assms(2)] by simp
  also have "work_left (stopping st) \<le> 2 * length js + 2 * m_thread_count (pool st) + 1"
  proof -
    have "sum_list (map job_work (map Regular js)) = 2 * length js"
      by (induction js) auto
    moreover have "length (filter is_working (m_threads (pool st))) \<le> m_thread_count (pool st)"
      using assms(1) by (metis length_filter_le serving_def)
    ultimately show ?thesis using assms(1)
      by (simp add: work_left_def stopping_def pool_stop_def stop_threads_def push_stops serving_def sum_list_replicate)
  qed
  finally have n: "n \<le> 2 * length js + 2 * m_thread_count (pool st) + 1" .
  have "(pool_step run_job)\<^sup>*\<^sup>* (stopping st) st'" using assms(2) by (rule relpowp_imp_rtranclp)
  from draining_run[OF this draining_start[OF assms(1)]] n show ?thesis
    using draining_progress by blast
qed

text \<open>Two jobs wait while the only thread of the pool has not taken any.\<close>

definition busy_process :: "(nat, nat list) process" where
  "busy_process = \<lparr> pool = pool_run 2 (pool_run 1 (new_pool 1)), world = [], started = [], terminated = False \<rparr>"

definition log_job :: "nat \<Rightarrow> (nat list, nat, unit) eff" where
  "log_job j = emodify (\<lambda>w. w @ [j])"

lemma serving_busy: "serving [1, 2] busy_process"
  by (simp add: serving_def busy_process_def pool_run_def new_pool_def queue_push_back_def)

definition drained_process :: "(nat, nat list) process" where
  "drained_process = \<lparr> pool = \<lparr> m_thread_count = 1, m_threads = [Finished], m_tasks = [], m_running_tasks = 0 \<rparr>,
                       world = [1, 2], started = [1, 2], terminated = False \<rparr>"

lemma busy_run: "(pool_step log_job ^^ 5) (stopping busy_process) drained_process"
proof -
  let ?st = "\<lambda>ts q r w s. \<lparr> pool = \<lparr> m_thread_count = 1, m_threads = ts, m_tasks = q, m_running_tasks = r \<rparr>,
                            world = w, started = s, terminated = False \<rparr>"
  have 0: "stopping busy_process = ?st [Waiting] [Regular 1, Regular 2, Stop] 0 [] []"
    by (simp add: stopping_def busy_process_def pool_stop_def stop_threads_def queue_push_front_def pool_run_def new_pool_def queue_push_back_def)
  have job: "pool_step log_job (?st [Waiting] (Regular j # q) 0 w s) (?st [Working j] q 1 w (s @ [j]))" for j q w s
    using pool_step.take_job[of "?st [Waiting] (Regular j # q) 0 w s" 0 j q log_job] by (simp add: queue_wait_and_pop_def)
  have fin: "pool_step log_job (?st [Working j] q 1 w s) (?st [Waiting] q 0 (w @ [j]) s)" for j q w s
    using pool_step.finish[of "?st [Working j] q 1 w s" 0 j log_job "w @ [j]"] by (simp add: log_job_def)
  have stp: "pool_step log_job (?st [Waiting] [Stop] 0 w s) (?st [Finished] [] 0 w s)" for w s
    using pool_step.take_stop[of "?st [Waiting] [Stop] 0 w s" 0 "[]" log_job] by (simp add: queue_wait_and_pop_def)
  have "(pool_step log_job ^^ Suc (Suc (Suc (Suc (Suc 0)))))
      (?st [Waiting] [Regular 1, Regular 2, Stop] 0 [] []) (?st [Finished] [] 0 (([] @ [1]) @ [2]) (([] @ [1]) @ [2]))"
    by (rule relpowp_Suc_I, rule relpowp_Suc_I, rule relpowp_Suc_I, rule relpowp_Suc_I, rule relpowp_Suc_I, rule relpowp_0_I)
       (rule job, rule fin, rule job, rule fin, rule stp)
  then show ?thesis unfolding 0 drained_process_def by (simp only: numeral_eq_Suc pred_numeral_simps append.simps One_nat_def BitM.simps)
qed

theorem forced_stop_drains_witness: "started drained_process = [1, 2]"
  using forced_stop_drains[OF serving_busy relpowp_imp_rtranclp[OF busy_run]]
  by (simp add: drained_process_def busy_process_def)

theorem forced_stop_ends_witness:
  "(pool_step log_job ^^ 5) (stopping busy_process) drained_process \<and> (5 :: nat) \<le> 2 * 2 + 2 * 1 + 1 \<and> m_threads (pool drained_process) = [Finished]"
  using forced_stop_ends[OF serving_busy busy_run] busy_run
  by (simp add: drained_process_def busy_process_def pool_run_def new_pool_def)

text \<open>
  C36: Deleting the resource of a task that still waits in the queue ends the agent. The command
  \<open>DeleteTask\<close> removes it in every state; the thread that takes the task next finds no
  resource to mark as running, then none to mark as failed, and the second exception leaves
  the thread, which terminates the process before any subtask has run.
\<close>

theorem deleted_task_terminates_agent:
  assumes "build_task u pre subs thrower response a = (Inr c, a')"
    and "find (any_uuid_matches u) (m_manager_data (task_manager a)) = None"
    and "delete_task u a' = (Inr (), b)"
    and "world st = b" and "\<not> terminated st"
    and "i < length (m_threads (pool st))" and "m_threads (pool st) ! i = Waiting"
    and "m_tasks (pool st) = Regular (m_task c) # q"
  shows "\<exists>st1 st2. pool_step (task_call (classify_agent classify)) st st1 \<and> m_threads (pool st1) ! i = Working (m_task c)
     \<and> pool_step (task_call (classify_agent classify)) st1 st2 \<and> terminated st2 \<and> model (world st2) = model a"
proof -
  let ?R = "task_call (classify_agent classify)"
  let ?st1 = "st\<lparr> pool := (pool st)\<lparr> m_threads := (m_threads (pool st))[i := Working (m_task c)], m_tasks := q,
                                   m_running_tasks := m_running_tasks (pool st) + 1 \<rparr>, started := started st @ [m_task c] \<rparr>"
  have "pool_step ?R st ?st1"
    using assms(5-8) by (intro pool_step.take_job) (simp_all add: queue_wait_and_pop_def)
  moreover have "pool_step ?R ?st1 (?st1\<lparr> world := b, terminated := True \<rparr>)"
    using assms(4-6) deleted_task_throws[OF assms(1-3), of classify] by (intro pool_step.terminate) auto
  ultimately show ?thesis using assms(6) deleted_task_throws[OF assms(1-3), of classify]
    by (intro exI[of _ ?st1] exI[of _ "?st1\<lparr> world := b, terminated := True \<rparr>"]) simp
qed

theorem deleted_task_terminates_agent_witness:
  "\<exists>c st1 st2. pool_step (task_call (classify_agent example_classify))
       \<lparr> pool = pool_run c (new_pool 1), world = fresh_agent ([] :: nat list)\<lparr> task_manager := empty_manager\<lparr> m_current_epoch := 2 \<rparr> \<rparr>,
         started = [], terminated = False \<rparr> st1
     \<and> pool_step (task_call (classify_agent example_classify)) st1 st2 \<and> terminated st2"
proof -
  let ?b = "snd (build_task ''t'' [] example_subtasks id JNull (fresh_agent []))"
  let ?d = "fresh_agent []\<lparr> task_manager := empty_manager\<lparr> m_current_epoch := 2 \<rparr> \<rparr>"
  obtain c where c: "build_task ''t'' [] example_subtasks id JNull (fresh_agent []) = (Inr c, ?b)"
    by (simp add: build_task_outcome fresh_agent_def empty_manager_def find_entry_def Let_def)
  have d: "delete_task ''t'' ?b = (Inr () :: nat agent_exception + unit, ?d)"
    by (simp add: delete_task_def build_task_outcome fresh_agent_def empty_manager_def find_entry_def Let_def manager_remove_entry_def
        uuid_matches_def new_task_resource_def resource.defs task_resource.defs new_resource_def touch_def)
  let ?st = "\<lparr> pool = pool_run (m_task c) (new_pool 1), world = ?d, started = [], terminated = False \<rparr>"
  have "\<exists>st1 st2. pool_step (task_call (classify_agent example_classify)) ?st st1 \<and> m_threads (pool st1) ! 0 = Working (m_task c)
     \<and> pool_step (task_call (classify_agent example_classify)) st1 st2 \<and> terminated st2
     \<and> model (world st2) = model (fresh_agent ([] :: nat list))"
    by (rule deleted_task_terminates_agent[OF c _ d, where q = "[]"])
       (simp_all add: pool_run_def new_pool_def queue_push_back_def fresh_agent_def empty_manager_def)
  then show ?thesis by blast
qed

end
