(* ===== verification/Zone_Commands.thy ===== *)
theory Zone_Commands
  imports Gas_Tool Thread_Pool
begin

text \<open>
  The commands of the PNC agent that change zones (\<open>agent/pnc/src/command/\<close>): \<open>add_zone\<close>,
  \<open>add_zone_endpoints\<close>, \<open>delete_zone\<close> and \<open>delete_zone_endpoints\<close>. A command validates its
  request, does the work that needs no hardware at once and leaves the rest to a task. The
  result of a command is the response and, when it started one, the task it handed to the
  task runner. Generated UUIDs are arguments.
\<close>

subsection \<open>Exceptions of the agent as tasks see them\<close>

text \<open>The text for an unknown UUID leaves out the name of the collection.\<close>

fun db_message :: "db_exception \<Rightarrow> string" where
  "db_message (ForbiddenKey key) = ''database::Aggregate: Forbidden key used: '' @ key"
| "db_message (KeyNotFound key) = ''database::Aggregate: Key not found: '' @ key"
| "db_message MalformedPair = ''database::Aggregate: Malformed KV pair''"
| "db_message BadVersion = ''database::Aggregate: Could not read version string''"
| "db_message UnsupportedVersion = ''database::Aggregate: Unsupported version''"

fun model_gami :: "model_exception \<Rightarrow> gami" where
  "model_gami (InvalidUuid EntryNotFound u) = \<lparr> gami_code = INVALID_UUID, gami_message = '' [UUID = '' @ [CHR 0x27] @ u @ [CHR 0x27] @ ''] not found.'' \<rparr>"
| "model_gami (InvalidUuid AlreadyExists u) = \<lparr> gami_code = INVALID_UUID,
     gami_message = ''Object with this UUID already exists. UUID = '' @ [CHR 0x27] @ u @ [CHR 0x27] @ ''.'' \<rparr>"
| "model_gami (InvalidUuid ParentChanged u) = \<lparr> gami_code = INVALID_UUID, gami_message = ''Parent UUID cannot be updated. '' @ u \<rparr>"
| "model_gami (NotFound i) = \<lparr> gami_code = 10000, gami_message = ''Could not find with ID: '' @ to_string (unat i) @ ''.'' \<rparr>"

fun pnc_classify :: "pnc_exception \<Rightarrow> caught" where
  "pnc_classify (PncError m) = Caught_Gami \<lparr> gami_code = 50000, gami_message = m \<rparr>"
| "pnc_classify (InvalidValue m) = Caught_Gami \<lparr> gami_code = 14000, gami_message = m \<rparr>"
| "pnc_classify (ModelError e) = Caught_Gami (model_gami e)"
| "pnc_classify (RuntimeError m) = Caught_Std m"
| "pnc_classify (InvalidArgument m) = Caught_Std m"
| "pnc_classify BadOptionalAccess = Caught_Std ''bad optional access''"
| "pnc_classify (DbError e) = Caught_Std (db_message e)"
| "pnc_classify UndefinedBehaviour = Not_Caught"
| "pnc_classify OutOfFuel = Not_Caught"

text \<open>The exception builders of the commands: a \<open>PncError\<close> with a prefix in front of the message.\<close>

definition pnc_error_with :: "string \<Rightarrow> gami \<Rightarrow> gami" where
  "pnc_error_with prefix e = \<lparr> gami_code = 50000, gami_message = prefix @ gami_message e \<rparr>"

subsection \<open>Shared operations\<close>

definition db_ENDPOINTS :: string where
  "db_ENDPOINTS = ''endpoints_uuids''"

definition db_ZONES :: string where
  "db_ZONES = ''zones_uuids''"

definition link_zone_endpoint :: "uuid \<Rightarrow> uuid \<Rightarrow> ('h, unit) pnc_eff" where
  "link_zone_endpoint zone_uuid endpoint_uuid = emodify (\<lambda>s. s\<lparr> zone_endpoint := m2m_add_entry zone_uuid endpoint_uuid [] (zone_endpoint s) \<rparr>)"

definition unlink_zone_endpoint :: "uuid \<Rightarrow> uuid \<Rightarrow> ('h, unit) pnc_eff" where
  "unlink_zone_endpoint zone_uuid endpoint_uuid = emodify (\<lambda>s. s\<lparr> zone_endpoint := m2m_remove_entry zone_uuid endpoint_uuid (zone_endpoint s) \<rparr>)"

text \<open>\<open>get_keys().front()\<close>: undefined for an empty table.\<close>

definition front_key :: "('h pnc \<Rightarrow> 'r resource_scheme manager) \<Rightarrow> ('h, uuid) pnc_eff" where
  "front_key table =
     ebind (eget (\<lambda>s. get_keys (\<lambda>_. True) (m_manager_data (table s)))) (\<lambda>keys.
       case keys of [] \<Rightarrow> ethrow UndefinedBehaviour | k # _ \<Rightarrow> eret k)"

text \<open>The registers of the switch of a zone, which every operation on the hardware reads first.\<close>

definition zone_gas :: "'h access_interface \<Rightarrow> uuid \<Rightarrow> ('h, unit) pnc_eff" where
  "zone_gas i zone_uuid =
     ebind (pnc_get zones zone_uuid) (\<lambda>z.
     ebind (pnc_get switches (m_switch_uuid z)) (\<lambda>sw.
     ebind (on_hw (get_default i (m_memory_path sw))) (\<lambda>_. eret ())))"

definition throw_if_duplicates :: "string \<Rightarrow> uuid list \<Rightarrow> ('h, unit) pnc_eff" where
  "throw_if_duplicates message endpoints_uuids =
     (if length (fold insort_insert endpoints_uuids []) \<noteq> length endpoints_uuids then ethrow (InvalidValue message) else eret ())"

fun state_name :: "state \<Rightarrow> string" where
  "state_name State_Enabled = ''Enabled''"
| "state_name State_Disabled = ''Disabled''"
| "state_name State_StandbyOffline = ''StandbyOffline''"
| "state_name State_StandbySpare = ''StandbySpare''"
| "state_name State_InTest = ''InTest''"
| "state_name State_Starting = ''Starting''"
| "state_name State_Absent = ''Absent''"
| "state_name State_UnavailableOffline = ''UnavailableOffline''"
| "state_name State_Deferring = ''Deferring''"
| "state_name State_Quiesced = ''Quiesced''"
| "state_name State_Updating = ''Updating''"

text \<open>Several values appended to the database of one resource, which is read and written once.\<close>

fun append_values :: "string \<Rightarrow> string list \<Rightarrow> aggregate \<Rightarrow> db_exception + aggregate" where
  "append_values key [] a = Inr a"
| "append_values key (v # vs) a = (case agg_append key v a of Inl e \<Rightarrow> Inl e | Inr a' \<Rightarrow> append_values key vs a')"

fun del_values :: "string list \<Rightarrow> aggregate \<Rightarrow> db_exception + aggregate" where
  "del_values [] a = Inr a"
| "del_values (v # vs) a = (case entity_del v a of Inl e \<Rightarrow> Inl e | Inr a' \<Rightarrow> del_values vs a')"

text \<open>Responses; an empty UUID is one that was not set. The \<open>Oem\<close> attribute is an empty object.\<close>

record zone_response =
  rsp_zone :: uuid
  rsp_task :: uuid

definition task_entry_json :: "uuid \<Rightarrow> (string \<times> json) list" where
  "task_entry_json task_uuid = (if task_uuid = [] then [] else [(''task'', JString task_uuid)])"

definition add_zone_to_json :: "zone_response \<Rightarrow> json" where
  "add_zone_to_json r = JObject ((''oem'', JObject []) # task_entry_json (rsp_task r) @ [(''zone'', JString (rsp_zone r))])"

definition zone_task_to_json :: "zone_response \<Rightarrow> json" where
  "zone_task_to_json r = JObject ((''oem'', JObject []) # task_entry_json (rsp_task r))"

definition empty_response :: zone_response where
  "empty_response = \<lparr> rsp_zone = [], rsp_task = [] \<rparr>"

type_synonym ('h, 'a) command = "('h pnc, pnc_exception, 'a) agent_eff"
type_synonym 'h pnc_task = "('h pnc, pnc_exception) agent_task"

text \<open>Hands the task to the task runner, after which the command returns.\<close>

definition start_task :: "uuid \<Rightarrow> ('h, unit) pnc_eff list \<Rightarrow> ('h, unit) pnc_eff list \<Rightarrow> string \<Rightarrow> json
     \<Rightarrow> ('h, uuid \<times> 'h pnc_task) command" where
  "start_task task_v1 prerun_actions subtasks prefix response =
     ebind (build_task task_v1 prerun_actions subtasks (pnc_error_with prefix) response) (\<lambda>c.
       eret (get_uuid (m_task_resource c), m_task c))"

subsection \<open>AddZone\<close>

definition throw_if_endpoints_are_bound :: "uuid list \<Rightarrow> ('h, unit) pnc_eff" where
  "throw_if_endpoints_are_bound endpoint_uuids =
     efor (\<lambda>endpoint_uuid.
       ebind (pnc_get endpoints endpoint_uuid) (\<lambda>e.
         let st = status_state (m_status e)
         in if st \<noteq> State_Enabled
            then ethrow (InvalidValue (''Endpoint '' @ endpoint_uuid @ '' is in wrong state: '' @ state_name st @ ''.''))
            else ebind (eget (\<lambda>s. m2m_child_exists (zone_endpoint s) endpoint_uuid)) (\<lambda>bound.
              if bound then ethrow (InvalidValue (''Endpoint '' @ endpoint_uuid @ '' already assigned to a zone.''))
              else eret ()))) endpoint_uuids"

text \<open>The loop over the endpoints with the counter of initiators.\<close>

fun check_zone_endpoints :: "u16 \<Rightarrow> uuid list \<Rightarrow> ('h, unit) pnc_eff" where
  "check_zone_endpoints initiator_counter [] = eret ()"
| "check_zone_endpoints initiator_counter (endpoint_uuid # rest) =
     ebind (pnc_get endpoints endpoint_uuid) (\<lambda>e.
       case m_connected_entities e of
         [] \<Rightarrow> ethrow (InvalidValue ''No connected entity found in endpoint.'')
       | front # _ \<Rightarrow>
           (let counter = (if m_entity_role front = Some Initiator then initiator_counter + 1 else initiator_counter)
            in if m_entity_role front = Some Initiator \<and> 1 < counter
               then ethrow (InvalidValue ''Zone cannot have more than one initiator endpoint.'')
               else ebind (eget (\<lambda>s. m2m_get_parents (zone_endpoint s) (get_uuid e))) (\<lambda>parents.
                 if parents \<noteq> [] then ethrow (InvalidValue ''Endpoint is already in a zone.'')
                 else check_zone_endpoints counter rest)))"

definition validate_zone_endpoints :: "uuid list \<Rightarrow> ('h, unit) pnc_eff" where
  "validate_zone_endpoints endpoints_uuids =
     eseq (throw_if_duplicates ''Cannot create zone with duplicate endpoints.'' endpoints_uuids)
     (ebind (get_endpoints_with_role Target endpoints_uuids) (\<lambda>targets.
       eseq (throw_if_endpoints_are_bound targets)
            (check_zone_endpoints 0 endpoints_uuids)))"

definition add_zone_bind_endpoints :: "'h access_interface \<Rightarrow> uuid list \<Rightarrow> uuid list \<Rightarrow> uuid \<Rightarrow> ('h, unit) pnc_eff" where
  "add_zone_bind_endpoints i host_endpoints_uuids target_endpoints_uuids zone_uuid =
     ebind (pnc_get zones zone_uuid) (\<lambda>z.
     eseq (zone_gas i zone_uuid)
     (eseq (efor (\<lambda>host. link_zone_endpoint (get_uuid z) host) host_endpoints_uuids)
       (efor (\<lambda>target. eseq (bind_endpoint_to_zone i zone_uuid target) (link_zone_endpoint (get_uuid z) target)) target_endpoints_uuids)))"

definition store_zone_in_db :: "uuid list \<Rightarrow> uuid list \<Rightarrow> uuid \<Rightarrow> uuid \<Rightarrow> ('h, unit) pnc_eff" where
  "store_zone_in_db host_endpoints_uuids target_endpoints_uuids zone_uuid fabric_uuid =
     eseq (pnc_entity ''fabric'' fabric_uuid (agg_append db_ZONES zone_uuid))
          (pnc_entity ''zone'' zone_uuid (append_values db_ENDPOINTS (host_endpoints_uuids @ target_endpoints_uuids)))"

definition run_add_zone_task ::
    "'h access_interface \<Rightarrow> uuid \<Rightarrow> uuid list \<Rightarrow> uuid list \<Rightarrow> uuid \<Rightarrow> uuid \<Rightarrow> ('h, uuid \<times> 'h pnc_task) command" where
  "run_add_zone_task i task_v1 host_endpoints_uuids target_endpoints_uuids zone_uuid fabric_uuid =
     start_task task_v1
       [throw_if_endpoints_are_bound target_endpoints_uuids]
       [add_zone_bind_endpoints i host_endpoints_uuids target_endpoints_uuids zone_uuid,
        store_zone_in_db host_endpoints_uuids target_endpoints_uuids zone_uuid fabric_uuid]
       ''Could not add endpoints to zone. '' (add_zone_to_json (empty_response\<lparr> rsp_zone := zone_uuid \<rparr>))"

definition add_initiator_zone :: "uuid list \<Rightarrow> uuid \<Rightarrow> uuid \<Rightarrow> ('h, unit) pnc_eff" where
  "add_initiator_zone host_endpoints_uuids zone_uuid fabric_uuid =
     eseq (efor (link_zone_endpoint zone_uuid) host_endpoints_uuids)
          (store_zone_in_db host_endpoints_uuids [] zone_uuid fabric_uuid)"

definition build_zone :: "uuid \<Rightarrow> uuid \<Rightarrow> uuid \<Rightarrow> zone" where
  "build_zone zone_v1 fabric_uuid switch_uuid =
     (new_zone zone_v1 fabric_uuid)\<lparr> m_status := healthy State_Enabled, m_collections := [(''Endpoints'', ''Endpoints'')],
                                     m_switch_uuid := switch_uuid \<rparr>"

text \<open>\<open>log_and_add\<close>: the resource is added to its table.\<close>

definition log_and_add ::
    "('h pnc \<Rightarrow> 'r resource_scheme manager) \<Rightarrow> (('r resource_scheme manager \<Rightarrow> 'r resource_scheme manager) \<Rightarrow> 'h pnc \<Rightarrow> 'h pnc)
       \<Rightarrow> 'r resource_scheme \<Rightarrow> ('h, uuid) pnc_eff" where
  "log_and_add table update_table r s =
     (case add_entry r (table s) of
        (Inl e, _) \<Rightarrow> (Inl (ModelError e), s)
      | (Inr _, t) \<Rightarrow> (Inr (get_uuid r), update_table (\<lambda>_. t) s))"

definition add_zone ::
    "'h access_interface \<Rightarrow> uuid \<Rightarrow> uuid \<Rightarrow> uuid \<Rightarrow> uuid list \<Rightarrow> ('h, zone_response \<times> 'h pnc_task option) command" where
  "add_zone i zone_v1 task_v1 fabric_uuid request_endpoints =
     eseq (on_model (validate_zone_endpoints request_endpoints))
     (ebind (on_model (pnc_get fabrics fabric_uuid)) (\<lambda>_.
      ebind (on_model (front_key switches)) (\<lambda>switch_uuid.
      ebind (on_model (log_and_add zones zones_update (build_zone zone_v1 fabric_uuid switch_uuid))) (\<lambda>zone_uuid.
      ebind (on_model (get_endpoints_with_role Initiator request_endpoints)) (\<lambda>hosts.
      ebind (on_model (get_endpoints_with_role Target request_endpoints)) (\<lambda>targets.
        if hosts = [] \<and> targets = []
        then eseq (on_model (store_zone_in_db hosts targets zone_uuid fabric_uuid))
               (eret (empty_response\<lparr> rsp_zone := zone_uuid \<rparr>, None))
        else if targets = []
        then eseq (on_model (add_initiator_zone hosts zone_uuid fabric_uuid))
               (eret (empty_response\<lparr> rsp_zone := zone_uuid \<rparr>, None))
        else ebind (run_add_zone_task i task_v1 hosts targets zone_uuid fabric_uuid) (\<lambda>(task_uuid, task).
               eret (\<lparr> rsp_zone = zone_uuid, rsp_task = task_uuid \<rparr>, Some task))))))))"

subsection \<open>AddZoneEndpoints\<close>

definition validate_endpoints_are_unbound :: "uuid list \<Rightarrow> ('h, unit) pnc_eff" where
  "validate_endpoints_are_unbound endpoint_uuids =
     efor (\<lambda>endpoint_uuid.
       ebind (pnc_get endpoints endpoint_uuid) (\<lambda>e.
         let st = status_state (m_status e)
         in if st \<noteq> State_Enabled then ethrow (InvalidValue (''Endpoint is in wrong state: '' @ state_name st @ ''.''))
            else ebind (eget (\<lambda>s. m2m_child_exists (zone_endpoint s) endpoint_uuid)) (\<lambda>bound.
              if bound then ethrow (InvalidValue ''Endpoint already assigned to a zone.'') else eret ()))) endpoint_uuids"

definition validate_number_of_initiator_endpoints :: "uuid \<Rightarrow> uuid list \<Rightarrow> ('h, unit) pnc_eff" where
  "validate_number_of_initiator_endpoints zone_uuid request_endpoints =
     ebind (get_endpoints_with_role Initiator request_endpoints) (\<lambda>initiators.
       if length initiators > 1 then ethrow (InvalidValue ''Unable to add more than 1 Initiator Endpoint to the Zone'')
       else if length initiators = 1
       then ebind (eget (\<lambda>s. m2m_get_children (zone_endpoint s) zone_uuid)) (\<lambda>children.
            ebind (get_endpoints_with_role Initiator children) (\<lambda>in_zone.
              if length in_zone \<noteq> 0
              then ethrow (InvalidValue ''Unable to add Initiator Endpoint to a Zone which already contains Initiator Endpoint'')
              else eret ()))
       else eret ())"

definition validate_add_zone_endpoints :: "uuid \<Rightarrow> uuid list \<Rightarrow> ('h, unit) pnc_eff" where
  "validate_add_zone_endpoints zone_uuid request_endpoints =
     eseq (throw_if_duplicates ''Request contains duplicated endpoints.'' request_endpoints)
     (eseq (validate_endpoints_are_unbound request_endpoints)
           (validate_number_of_initiator_endpoints zone_uuid request_endpoints))"

definition bind_zone_endpoints :: "'h access_interface \<Rightarrow> uuid list \<Rightarrow> uuid \<Rightarrow> ('h, unit) pnc_eff" where
  "bind_zone_endpoints i endpoints_uuids zone_uuid =
     eseq (zone_gas i zone_uuid)
     (eseq (efor (link_zone_endpoint zone_uuid) endpoints_uuids)
     (ebind (get_endpoints_with_role Initiator endpoints_uuids) (\<lambda>initiators.
     ebind (if length initiators = 0 then get_endpoints_with_role Target endpoints_uuids
            else ebind (eget (\<lambda>s. m2m_get_children (zone_endpoint s) zone_uuid)) (get_endpoints_with_role Target)) (\<lambda>targets.
       efor (bind_endpoint_to_zone i zone_uuid) targets))))"

definition store_endpoints_in_zone_db :: "uuid list \<Rightarrow> uuid \<Rightarrow> ('h, unit) pnc_eff" where
  "store_endpoints_in_zone_db endpoints_uuids zone_uuid = pnc_entity ''zone'' zone_uuid (append_values db_ENDPOINTS endpoints_uuids)"

definition add_zone_endpoints ::
    "'h access_interface \<Rightarrow> uuid \<Rightarrow> uuid \<Rightarrow> uuid list \<Rightarrow> ('h, zone_response \<times> 'h pnc_task option) command" where
  "add_zone_endpoints i task_v1 zone_uuid request_endpoints =
     eseq (on_model (validate_add_zone_endpoints zone_uuid request_endpoints))
     (ebind (start_task task_v1 []
               [bind_zone_endpoints i request_endpoints zone_uuid, store_endpoints_in_zone_db request_endpoints zone_uuid]
               ''Could not add endpoints to zone. '' (zone_task_to_json empty_response)) (\<lambda>(task_uuid, task).
        eret (empty_response\<lparr> rsp_task := task_uuid \<rparr>, Some task)))"

subsection \<open>DeleteZone\<close>

definition remove_zone_from_model_and_db :: "uuid \<Rightarrow> ('h, unit) pnc_eff" where
  "remove_zone_from_model_and_db zone_uuid =
     eseq (emodify (\<lambda>s. s\<lparr> zones := snd (manager_remove_entry zone_uuid (zones s)) \<rparr>))
     (ebind (front_key fabrics) (\<lambda>fabric_uuid.
       eseq (pnc_entity ''fabric'' fabric_uuid (entity_del zone_uuid))
            (pnc_entity_remove ''zone'' zone_uuid)))"

definition delete_zone_unbind_endpoints :: "'h access_interface \<Rightarrow> uuid list \<Rightarrow> uuid \<Rightarrow> ('h, unit) pnc_eff" where
  "delete_zone_unbind_endpoints i endpoint_uuids zone_uuid =
     eseq (zone_gas i zone_uuid)
       (efor (\<lambda>endpoint_uuid. ebind (endpoint_is_target endpoint_uuid) (\<lambda>target.
          if target then unbind_endpoint_from_zone i zone_uuid endpoint_uuid else eret ())) endpoint_uuids)"

definition remove_endpoints_from_zone_model :: "uuid list \<Rightarrow> uuid \<Rightarrow> ('h, unit) pnc_eff" where
  "remove_endpoints_from_zone_model endpoint_uuids zone_uuid =
     ebind (pnc_get zones zone_uuid) (\<lambda>_. efor (unlink_zone_endpoint zone_uuid) endpoint_uuids)"

text \<open>\<open>std::count_if\<close> with a predicate that may throw.\<close>

definition count_initiators :: "uuid list \<Rightarrow> ('h, nat) pnc_eff" where
  "count_initiators us =
     ebind (efor_concat (\<lambda>u. ebind (endpoint_is_initiator u) (\<lambda>b. eret (if b then [u] else []))) us) (\<lambda>found. eret (length found))"

definition delete_zone :: "'h access_interface \<Rightarrow> uuid \<Rightarrow> uuid \<Rightarrow> ('h, zone_response \<times> 'h pnc_task option) command" where
  "delete_zone i task_v1 zone_uuid =
     ebind (on_model (pnc_get zones zone_uuid)) (\<lambda>_.
     ebind (on_model (eget (\<lambda>s. m2m_get_children (zone_endpoint s) zone_uuid))) (\<lambda>endpoints_uuids.
     ebind (on_model (is_initiator_in_zone zone_uuid)) (\<lambda>initiator.
     ebind (if initiator then on_model (is_target_in_zone zone_uuid) else eret False) (\<lambda>bound.
       if bound
       then ebind (on_model (count_initiators endpoints_uuids)) (\<lambda>initiator_counter.
            ebind (start_task task_v1 []
                     ((if initiator_counter \<noteq> 0 then [delete_zone_unbind_endpoints i endpoints_uuids zone_uuid] else [])
                      @ [remove_endpoints_from_zone_model endpoints_uuids zone_uuid, remove_zone_from_model_and_db zone_uuid])
                     ''Could not unbind endpoint. '' (zone_task_to_json empty_response)) (\<lambda>(task_uuid, task).
              eret (empty_response\<lparr> rsp_task := task_uuid \<rparr>, Some task)))
       else eseq (on_model (remove_endpoints_from_zone_model endpoints_uuids zone_uuid))
            (eseq (on_model (remove_zone_from_model_and_db zone_uuid))
              (eret (empty_response, None)))))))"

subsection \<open>DeleteZoneEndpoints\<close>

text \<open>Targets first; an endpoint in both roles counts as a target.\<close>

fun partition_target_and_initiator_endpoints :: "uuid list \<Rightarrow> ('h, uuid list \<times> uuid list) pnc_eff" where
  "partition_target_and_initiator_endpoints [] = eret ([], [])"
| "partition_target_and_initiator_endpoints (u # us) =
     ebind (endpoint_is_target u) (\<lambda>target.
     ebind (partition_target_and_initiator_endpoints us) (\<lambda>(targets, initiators).
       eret (if target then (u # targets, initiators) else (targets, u # initiators))))"

definition validate_endpoints_are_bound :: "uuid list \<Rightarrow> uuid \<Rightarrow> ('h, unit) pnc_eff" where
  "validate_endpoints_are_bound endpoint_uuids zone_uuid =
     efor (\<lambda>endpoint_uuid. ebind (eget (\<lambda>s. m2m_entry_exists (zone_endpoint s) zone_uuid endpoint_uuid)) (\<lambda>present.
       if \<not> present then ethrow (InvalidValue ''Endpoint not present in given zone.'') else eret ())) endpoint_uuids"

definition validate_delete_zone_endpoints :: "uuid \<Rightarrow> uuid list \<Rightarrow> ('h, unit) pnc_eff" where
  "validate_delete_zone_endpoints zone_uuid request_endpoints =
     eseq (throw_if_duplicates ''Request contains duplicated endpoints.'' request_endpoints)
          (validate_endpoints_are_bound request_endpoints zone_uuid)"

definition unbind_zone_endpoints :: "'h access_interface \<Rightarrow> uuid list \<Rightarrow> uuid \<Rightarrow> ('h, unit) pnc_eff" where
  "unbind_zone_endpoints i endpoint_uuids zone_uuid =
     eseq (zone_gas i zone_uuid)
       (efor (\<lambda>endpoint_uuid. ebind (endpoint_is_target endpoint_uuid) (\<lambda>target.
          if target then unbind_endpoint_from_zone i zone_uuid endpoint_uuid
          else pnc_edit zones zones_update zone_uuid (\<lambda>z. z\<lparr> m_zone_id := None \<rparr>))) endpoint_uuids)"

definition remove_endpoints_from_zone_db :: "uuid list \<Rightarrow> uuid \<Rightarrow> ('h, unit) pnc_eff" where
  "remove_endpoints_from_zone_db endpoints_uuids zone_uuid = pnc_entity ''zone'' zone_uuid (del_values endpoints_uuids)"

text \<open>What the command does itself where nothing is bound on the switch.\<close>

definition forget_endpoints :: "uuid list \<Rightarrow> uuid \<Rightarrow> ('h, unit) pnc_eff" where
  "forget_endpoints endpoint_uuids zone_uuid =
     eseq (remove_endpoints_from_zone_model endpoint_uuids zone_uuid) (remove_endpoints_from_zone_db endpoint_uuids zone_uuid)"

definition delete_zone_endpoints ::
    "'h access_interface \<Rightarrow> uuid \<Rightarrow> uuid \<Rightarrow> uuid list \<Rightarrow> ('h, zone_response \<times> 'h pnc_task option) command" where
  "delete_zone_endpoints i task_v1 zone_uuid request_endpoints =
     eseq (on_model (validate_delete_zone_endpoints zone_uuid request_endpoints))
     (ebind (on_model (partition_target_and_initiator_endpoints request_endpoints)) (\<lambda>(request_targets, request_initiators).
     ebind (on_model (eget (\<lambda>s. m2m_get_children (zone_endpoint s) zone_uuid))) (\<lambda>endpoints_in_zone.
     ebind (on_model (partition_target_and_initiator_endpoints endpoints_in_zone)) (\<lambda>(zone_targets, zone_initiators).
     ebind (on_model (pnc_get zones zone_uuid)) (\<lambda>_.
       let delete_initiator = (request_initiators \<noteq> []); delete_targets = (request_targets \<noteq> []);
           in_task = (\<lambda>unbind remove.
             ebind (start_task task_v1 []
                      [unbind_zone_endpoints i unbind zone_uuid, remove_endpoints_from_zone_model remove zone_uuid,
                       remove_endpoints_from_zone_db remove zone_uuid]
                      ''Could not unbind endpoint. '' (zone_task_to_json empty_response)) (\<lambda>(task_uuid, task).
               eret (empty_response\<lparr> rsp_task := task_uuid \<rparr>, Some task)));
           at_once = (\<lambda>remove. eseq (on_model (forget_endpoints remove zone_uuid)) (eret (empty_response, None)))
       in if delete_initiator \<and> delete_targets then in_task endpoints_in_zone request_endpoints
          else if delete_initiator
          then (if zone_targets = [] then at_once request_initiators else in_task endpoints_in_zone request_initiators)
          else if \<not> delete_targets then eret (empty_response, None)
          else if zone_initiators \<noteq> [] then in_task request_targets request_targets
          else at_once request_targets)))))"

end
