(* ===== verification/Effect_Frame.thy ===== *)
theory Effect_Frame
  imports PSME_Prelude
begin

text \<open>
  What code leaves alone. A relation between the state before and after that is reflexive and
  transitive holds across a composition when it holds across the parts, whether they return
  or throw; this is shown once for every such relation.
\<close>

definition leaves :: "('s \<Rightarrow> 's \<Rightarrow> bool) \<Rightarrow> ('s, 'e, 'a) eff \<Rightarrow> bool" where
  "leaves R m \<longleftrightarrow> (\<forall>s. R s (snd (m s)))"

lemma leavesD: "\<lbrakk>leaves R m; m s = (r, s')\<rbrakk> \<Longrightarrow> R s s'"
  unfolding leaves_def by (metis snd_conv)

text \<open>The same for calls that return; what an exception leaves behind is not constrained.\<close>

definition returns :: "('s \<Rightarrow> 's \<Rightarrow> bool) \<Rightarrow> ('s, 'e, 'a) eff \<Rightarrow> bool" where
  "returns R m \<longleftrightarrow> (\<forall>s a s'. m s = (Inr a, s') \<longrightarrow> R s s')"

lemma returnsD: "\<lbrakk>returns R m; m s = (Inr a, s')\<rbrakk> \<Longrightarrow> R s s'"
  unfolding returns_def by blast

lemma ebind_InrE:
  assumes "ebind m f s = (Inr b, s')"
  obtains a t where "m s = (Inr a, t)" "f a t = (Inr b, s')"
  using assms by (auto simp: eff_simps split: prod.splits sum.splits)

lemma eseq_InrE:
  assumes "eseq m n s = (Inr b, s')"
  obtains t where "m s = (Inr (), t)" "n t = (Inr b, s')"
  using assms by (auto simp: eff_simps split: prod.splits sum.splits)

text \<open>A loop that returns has established of every element what its turn establishes and no turn destroys.\<close>

lemma efor_establishes:
  assumes "efor body xs s = (Inr (), s')" and "x \<in> set xs" and "I s"
    and "\<And>y s s'. \<lbrakk>I s; body y s = (Inr (), s')\<rbrakk> \<Longrightarrow> I s'"
    and "\<And>s s'. \<lbrakk>I s; body x s = (Inr (), s')\<rbrakk> \<Longrightarrow> P s'"
    and "\<And>y s s'. \<lbrakk>I s; P s; body y s = (Inr (), s')\<rbrakk> \<Longrightarrow> P s'"
  shows "P s'"
proof -
  have keep: "efor body ys t = (Inr (), t') \<Longrightarrow> I t \<Longrightarrow> P t \<Longrightarrow> P t'" for ys t t'
    by (induction ys arbitrary: t) (auto elim!: eseq_InrE dest: assms(4) assms(6))
  have "efor body ys t = (Inr (), t') \<Longrightarrow> I t \<Longrightarrow> x \<in> set ys \<Longrightarrow> P t'" for ys t t'
    by (induction ys arbitrary: t) (auto elim!: eseq_InrE intro: keep assms(4) assms(5))
  with assms(1-3) show ?thesis by blast
qed

locale effect_frame =
  fixes R :: "'s \<Rightarrow> 's \<Rightarrow> bool"
  assumes same: "R s s"
    and chain: "\<lbrakk>R s t; R t u\<rbrakk> \<Longrightarrow> R s u"
begin

lemma leaves_quiet: "(\<And>s. snd (m s) = s) \<Longrightarrow> leaves R m"
  by (simp add: leaves_def same)

lemma leaves_eret [simp, intro]: "leaves R (eret a)"
  by (simp add: leaves_quiet)

lemma leaves_ethrow [simp, intro]: "leaves R (ethrow e)"
  by (simp add: leaves_quiet)

lemma leaves_eget [simp, intro]: "leaves R (eget f)"
  by (simp add: leaves_quiet)

lemma leaves_Pair [simp, intro]: "leaves R (Pair r)"
  by (simp add: leaves_quiet)

lemma leaves_if: "\<lbrakk>c \<Longrightarrow> leaves R m; \<not> c \<Longrightarrow> leaves R n\<rbrakk> \<Longrightarrow> leaves R (if c then m else n)"
  by simp

lemma leaves_ebind:
  assumes "leaves R m" and "\<And>a s s'. m s = (Inr a, s') \<Longrightarrow> leaves R (f a)"
  shows "leaves R (ebind m f)"
  unfolding leaves_def
proof
  fix s
  obtain r s' where m: "m s = (r, s')" by fastforce
  with assms(1) have "R s s'" by (rule leavesD)
  moreover have "R s' (snd (f a s'))" if "r = Inr a" for a
    using assms(2) m that by (simp add: leaves_def)
  ultimately show "R s (snd (ebind m f s))"
    using m by (auto simp: eff_simps split: sum.split intro: chain)
qed

lemma leaves_ebind_at:
  assumes "leaves R m" and "\<And>a s s'. m s = (Inr a, s') \<Longrightarrow> R s' (snd (f a s'))"
  shows "leaves R (ebind m f)"
  unfolding leaves_def
proof
  fix s
  obtain r s' where m: "m s = (r, s')" by fastforce
  with assms(1) have "R s s'" by (rule leavesD)
  then show "R s (snd (ebind m f s))"
    using m assms(2)[of s] by (auto simp: eff_simps split: sum.split intro: chain)
qed

lemma leaves_eseq: "\<lbrakk>leaves R m; leaves R n\<rbrakk> \<Longrightarrow> leaves R (eseq m n)"
  unfolding eseq_def by (rule leaves_ebind)

lemma leaves_ecatch: "\<lbrakk>leaves R m; \<And>e. leaves R (h e)\<rbrakk> \<Longrightarrow> leaves R (ecatch m h)"
  unfolding leaves_def by (auto simp: eff_simps split: prod.split sum.split) (metis chain snd_conv)+

lemma leaves_emodify: "(\<And>s. R s (f s)) \<Longrightarrow> leaves R (emodify f)"
  by (simp add: leaves_def)

lemma returns_leaves: "leaves R m \<Longrightarrow> returns R m"
  by (auto simp: returns_def dest: leavesD)

lemma returns_ebind:
  "\<lbrakk>returns R m; \<And>a s s'. m s = (Inr a, s') \<Longrightarrow> returns R (f a)\<rbrakk> \<Longrightarrow> returns R (ebind m f)"
  unfolding returns_def by (blast elim: ebind_InrE intro: chain)

lemma returns_eseq: "\<lbrakk>returns R m; returns R n\<rbrakk> \<Longrightarrow> returns R (eseq m n)"
  unfolding eseq_def by (rule returns_ebind)

lemma returns_efor: "(\<And>x. x \<in> set xs \<Longrightarrow> returns R (body x)) \<Longrightarrow> returns R (efor body xs)"
  by (induction xs) (auto intro: returns_eseq returns_leaves)

lemma leaves_efor: "(\<And>x. x \<in> set xs \<Longrightarrow> leaves R (body x)) \<Longrightarrow> leaves R (efor body xs)"
  by (induction xs) (auto intro: leaves_eseq)

end

text \<open>Code that only reads.\<close>

interpretation reads: effect_frame "(=)"
  by unfold_locales auto

lemma leaves_eq_iff: "leaves (=) m \<longleftrightarrow> (\<forall>s. snd (m s) = s)"
  by (auto simp: leaves_def)

text \<open>Code that keeps a property of the state.\<close>

definition keeps :: "('s \<Rightarrow> bool) \<Rightarrow> ('s, 'e, 'a) eff \<Rightarrow> bool" where
  "keeps I m = leaves (\<lambda>s s'. I s \<longrightarrow> I s') m"

interpretation keeping: effect_frame "\<lambda>s s'. I s \<longrightarrow> I s'" for I
  by unfold_locales auto

lemmas keeps_rules = keeping.leaves_eseq[folded keeps_def] keeping.leaves_ebind[folded keeps_def]
  keeping.leaves_efor[folded keeps_def]

lemma keepsD: "\<lbrakk>keeps I m; I s; m s = (r, s')\<rbrakk> \<Longrightarrow> I s'"
  unfolding keeps_def by (blast dest: leavesD)

lemma keepsI: "(\<And>s r s'. \<lbrakk>I s; m s = (r, s')\<rbrakk> \<Longrightarrow> I s') \<Longrightarrow> keeps I m"
  by (auto simp: keeps_def leaves_def) (metis prod.collapse)

lemma keeps_read: "(\<And>s. I s \<Longrightarrow> keeps I (f (g s))) \<Longrightarrow> keeps I (ebind (eget g) f)"
  by (simp add: keeps_def leaves_def eff_simps)

end
