(* ===== verification/Agent_Frame.thy ===== *)
theory Agent_Frame
  imports Effect_Frame Task_Creator
begin

text \<open>
  What the tasks of an agent leave alone: a relation between models that composes, and the
  relation between agents that it gives.
\<close>

definition on_models :: "('s \<Rightarrow> 's \<Rightarrow> bool) \<Rightarrow> 's agent \<Rightarrow> 's agent \<Rightarrow> bool" where
  "on_models R a b \<longleftrightarrow> R (model a) (model b)"

locale agent_frame = effect_frame R + agents: effect_frame "on_models R"
  for R :: "'s \<Rightarrow> 's \<Rightarrow> bool"
begin

lemma leaves_on_model: "leaves R m \<Longrightarrow> leaves (on_models R) (on_model m)"
  by (auto simp: leaves_def on_models_def on_model_def split: prod.split sum.split) (metis snd_conv)+

lemma leaves_same_model: "(\<And>a. model (snd (m a)) = model a) \<Longrightarrow> leaves (on_models R) m"
  by (simp add: leaves_def on_models_def same)

lemma leaves_move_task_to: "leaves (on_models R) (move_task_to st verb operation u)"
  by (rule leaves_same_model) (auto simp: move_task_to_def Let_def split: option.split sum.split)

lemma leaves_build_task: "leaves (on_models R) (build_task u pre subs thrower response)"
  by (rule leaves_same_model) (auto simp: build_task_outcome Let_def split: option.split)

lemma leaves_task_call:
  assumes "\<And>m. m \<in> set (pre @ subs) \<Longrightarrow> leaves R m"
  shows "leaves (on_models R) (task_call classify (created_task u pre subs thrower response))"
proof -
  have quiet: "leaves (on_models R) (emodify f)" if "\<And>a. model (f a) = model a" for f
    using that by (intro leaves_same_model) simp
  have actions: "leaves (on_models R) (efor (\<lambda>x. x) (map on_model ms))" if "set ms \<subseteq> set (pre @ subs)" for ms
    using that assms by (force intro: agents.leaves_efor leaves_on_model)
  show ?thesis
    unfolding task_call_def prerun_def task_run_def postrun_def run_completion_callbacks_def run_exception_callbacks_def
      run_exception_handlers_def created_task_def task.simps efor.simps
      prerun_action_unbound_def completion_callback_unbound_def exception_callback_unbound_def send_task_update_event_def
    by (auto intro!: agents.leaves_eseq agents.leaves_ecatch agents.leaves_ebind quiet actions leaves_move_task_to
        split: option.split)
qed

end

lemma agent_frameI: "effect_frame R \<Longrightarrow> agent_frame R"
  by (auto simp: agent_frame_def effect_frame_def on_models_def)

end
