(* ===== verification/Zone_Membership.thy ===== *)
theory Zone_Membership
  imports Zone_Commands Agent_Frame
begin

text \<open>
  Which endpoints are in which zones after the zone commands: what a validated request
  guarantees, that commands whose tasks run at once keep every endpoint in at most one zone,
  and that commands whose tasks wait in the queue do not.
\<close>

subsection \<open>Operations that leave the zones and their links alone\<close>

definition same_zones :: "'h pnc \<Rightarrow> 'h pnc \<Rightarrow> bool" where
  "same_zones s s' \<longleftrightarrow> zone_endpoint s' = zone_endpoint s \<and> zones s' = zones s"

interpretation sz: effect_frame "same_zones :: 'h pnc \<Rightarrow> 'h pnc \<Rightarrow> bool"
  by unfold_locales (auto simp: same_zones_def)

declare sz.leaves_eret [intro!] sz.leaves_Pair [intro!] sz.leaves_ethrow [intro!] sz.leaves_eget [intro!]

lemma only_hardware_leaves: "only_hardware m \<Longrightarrow> leaves same_zones m"
  unfolding only_hardware_def leaves_def same_zones_def
proof (intro allI)
  fix s
  assume "\<forall>s. \<exists>h. snd (m s) = s\<lparr> hardware := h \<rparr>"
  then obtain h where "snd (m s) = s\<lparr> hardware := h \<rparr>" by blast
  then show "zone_endpoint (snd (m s)) = zone_endpoint s \<and> zones (snd (m s)) = zones s" by simp
qed

lemma leaves_pnc_get [intro!]: "leaves same_zones (pnc_get table u)"
  by (rule only_hardware_leaves) simp

lemma leaves_on_hw [intro!]: "leaves same_zones (on_hw m)"
  by (rule only_hardware_leaves) simp

lemma leaves_available_bridge [intro!]: "leaves same_zones (get_available_bridge_id info)"
  by (rule sz.leaves_quiet) (auto simp: get_available_bridge_id_def split: option.split)

lemma leaves_partition_id [intro!]: "leaves same_zones (get_partition_id_by_zone i z)"
  by (rule only_hardware_leaves) (rule only_hardware_get_partition_id)

lemma leaves_entity [intro!]: "leaves same_zones (pnc_entity nm u f)" "leaves same_zones (pnc_entity_remove nm u)"
  by (auto simp: leaves_def same_zones_def pnc_entity_def pnc_entity_remove_def split: prod.split sum.split)

lemma leaves_efor_concat: "(\<And>x. x \<in> set xs \<Longrightarrow> leaves same_zones (body x)) \<Longrightarrow> leaves same_zones (efor_concat body xs)"
  by (induction xs) (auto intro!: sz.leaves_ebind)

lemma leaves_roles [intro!]:
  "leaves same_zones (get_endpoints_with_role role us)"
  "leaves same_zones (endpoint_is_target u)"
  "leaves same_zones (endpoint_is_initiator u)"
  "leaves same_zones (front_key table)"
  unfolding get_endpoints_with_role_def endpoint_is_target_def endpoint_is_initiator_def front_key_def
  by (auto intro!: sz.leaves_ebind leaves_efor_concat split: list.split)

lemma leaves_zone_gas [intro!]: "leaves same_zones (zone_gas i z)"
  unfolding zone_gas_def by (auto intro!: sz.leaves_ebind)

lemma leaves_bind [intro!]: "leaves same_zones (bind_endpoint_to_zone i z e)"
  unfolding bind_endpoint_to_zone_def by (auto intro!: sz.leaves_ebind sz.leaves_efor split: option.split)

lemma leaves_unbind [intro!]: "leaves same_zones (unbind_endpoint_from_zone i z e)"
  unfolding unbind_endpoint_from_zone_def by (auto intro!: sz.leaves_ebind sz.leaves_efor)

lemma leaves_store_zone [intro!]: "leaves same_zones (store_zone_in_db hosts targets z f)"
  unfolding store_zone_in_db_def by (intro sz.leaves_eseq) auto

lemma leaves_bound_check [intro!]: "leaves same_zones (throw_if_endpoints_are_bound us)"
  unfolding throw_if_endpoints_are_bound_def Let_def by (auto intro!: sz.leaves_efor sz.leaves_ebind)

subsection \<open>Operations that link endpoints to one zone\<close>

text \<open>
  Only the links of \<open>L\<close> are new, as long as the zone that \<open>z\<close> finds has \<open>z\<close> as its own UUID;
  and links are removed but none is new.
\<close>

definition own_zone :: "uuid \<Rightarrow> 'h pnc \<Rightarrow> bool" where
  "own_zone z s \<longleftrightarrow> (\<forall>e. find_entry (zones s) z = Some e \<longrightarrow> get_uuid e = z)"

definition links_within :: "uuid \<Rightarrow> m2m \<Rightarrow> 'h pnc \<Rightarrow> 'h pnc \<Rightarrow> bool" where
  "links_within z L s s' \<longleftrightarrow> (own_zone z s \<longrightarrow> own_zone z s' \<and> set (zone_endpoint s') \<subseteq> set (zone_endpoint s) \<union> set L)"

definition fewer_links :: "'h pnc \<Rightarrow> 'h pnc \<Rightarrow> bool" where
  "fewer_links s s' \<longleftrightarrow> set (zone_endpoint s') \<subseteq> set (zone_endpoint s)"

lemma zone_frames: "effect_frame (links_within z L)" "effect_frame fewer_links"
  by (unfold_locales; auto simp: links_within_def fewer_links_def)+

interpretation lw: agent_frame "links_within z L :: 'h pnc \<Rightarrow> 'h pnc \<Rightarrow> bool" for z L
  by (rule agent_frameI[OF zone_frames(1)])

interpretation fl: agent_frame "fewer_links :: 'h pnc \<Rightarrow> 'h pnc \<Rightarrow> bool"
  by (rule agent_frameI[OF zone_frames(2)])

lemma same_zones_leaves:
  assumes "leaves same_zones m"
  shows "leaves (links_within z L) m" and "leaves fewer_links m"
  using assms by (auto simp: leaves_def same_zones_def links_within_def fewer_links_def own_zone_def)

lemmas quiet_ops = leaves_pnc_get leaves_zone_gas leaves_bind leaves_unbind leaves_roles leaves_entity leaves_store_zone leaves_bound_check

lemmas lw_intros = quiet_ops[THEN same_zones_leaves(1)] lw.leaves_eseq lw.leaves_efor lw.leaves_ebind lw.leaves_eret lw.leaves_ethrow lw.leaves_eget

lemmas fl_intros = quiet_ops[THEN same_zones_leaves(2)] fl.leaves_eseq fl.leaves_efor fl.leaves_ebind fl.leaves_eret fl.leaves_ethrow fl.leaves_eget

lemma leaves_link: "(z, e, []) \<in> set L \<Longrightarrow> leaves (links_within z L) (link_zone_endpoint z e)"
  by (auto simp: leaves_def links_within_def own_zone_def link_zone_endpoint_def m2m_add_entry_def set_insort_insert)

lemma leaves_get_zone:
  assumes "\<And>e. get_uuid e = z \<Longrightarrow> leaves (links_within z L) (f e)"
  shows "leaves (links_within z L) (ebind (pnc_get zones z) f)"
  unfolding leaves_def
proof
  fix s
  show "links_within z L s (snd (ebind (pnc_get zones z) f s))"
  proof (cases "find_entry (zones s) z")
    case None
    then show ?thesis by (simp add: eff_simps pnc_get_def get_entry_def lw.same)
  next
    case (Some e)
    then have run: "ebind (pnc_get zones z) f s = f e s" by (simp add: eff_simps pnc_get_def get_entry_def)
    show ?thesis
    proof (cases "own_zone z s")
      case True
      with Some have "get_uuid e = z" by (simp add: own_zone_def)
      with assms show ?thesis by (simp add: run leaves_def)
    next
      case False
      then show ?thesis by (simp add: links_within_def)
    qed
  qed
qed

lemma leaves_unlink [intro!]: "leaves fewer_links (unlink_zone_endpoint z e)"
  using set_remove_first_subset
  by (fastforce simp: leaves_def fewer_links_def unlink_zone_endpoint_def m2m_remove_entry_def)

lemma leaves_edit_zone [intro!]: "leaves fewer_links (pnc_edit zones zones_update u f)"
  by (auto simp: leaves_def fewer_links_def pnc_edit_def split: prod.split sum.split)

definition zone_links :: "uuid \<Rightarrow> uuid list \<Rightarrow> m2m" where
  "zone_links z us = map (\<lambda>u. (z, u, [])) us"

lemma in_zone_links [simp]: "(z, u, g) \<in> set (zone_links z' us) \<longleftrightarrow> z = z' \<and> u \<in> set us \<and> g = []"
  by (auto simp: zone_links_def)

lemma leaves_add_zone_bind:
  assumes "set hosts \<union> set targets \<subseteq> set us"
  shows "leaves (links_within z (zone_links z us)) (add_zone_bind_endpoints i hosts targets z)"
  unfolding add_zone_bind_endpoints_def
  using assms by (auto intro!: leaves_get_zone leaves_link lw_intros)

lemma leaves_bind_zone_endpoints: "leaves (links_within z (zone_links z us)) (bind_zone_endpoints i us z)"
  unfolding bind_zone_endpoints_def
  by (auto intro!: leaves_link lw_intros)

subsection \<open>What a validated request guarantees\<close>

definition has_role :: "'h pnc \<Rightarrow> entity_role \<Rightarrow> uuid \<Rightarrow> bool" where
  "has_role s role u \<longleftrightarrow> (case find_entry (endpoints s) u of None \<Rightarrow> False | Some e \<Rightarrow> first_role e = Some role)"

lemma duplicates_found: "length (fold insort_insert us []) = length us \<longleftrightarrow> distinct us" for us :: "uuid list"
proof -
  have "distinct (fold insort_insert us [])" using oset_fold_insert[of "[]" us] by (simp add: oset_def)
  then have "length (fold insort_insert us []) = card (set us)"
    using distinct_card[of "fold insort_insert us []"] by (simp add: set_fold_insert)
  then show ?thesis using card_distinct distinct_card by metis
qed

lemma throw_if_duplicates_iff: "throw_if_duplicates m us s = (if distinct us then Inr () else Inl (InvalidValue m), s)"
  by (simp add: throw_if_duplicates_def duplicates_found)

lemma endpoints_with_role:
  "get_endpoints_with_role role us s =
     (case find (\<lambda>u. find_entry (endpoints s) u = None) us of
        Some u \<Rightarrow> (Inl (ModelError (InvalidUuid EntryNotFound u)), s)
      | None \<Rightarrow> (Inr (filter (has_role s role) us), s))"
  unfolding get_endpoints_with_role_def
  by (induction us) (auto simp: eff_simps pnc_get_def get_entry_def has_role_def split: option.splits)

lemma bound_check_outcome:
  "snd (throw_if_endpoints_are_bound us s) = s"
  "fst (throw_if_endpoints_are_bound us s) = Inr () \<longleftrightarrow>
     (\<forall>u \<in> set us. \<exists>e. find_entry (endpoints s) u = Some e \<and> status_state (m_status e) = State_Enabled
        \<and> \<not> m2m_child_exists (zone_endpoint s) u)"
  unfolding throw_if_endpoints_are_bound_def
  by (induction us) (auto simp: eff_simps Let_def pnc_get_def get_entry_def split: option.split prod.splits sum.splits)

lemma zone_check_outcome:
  "n \<le> 1 \<Longrightarrow> snd (check_zone_endpoints n us s) = s \<and>
   (fst (check_zone_endpoints n us s) = Inr () \<longleftrightarrow>
     (\<forall>u \<in> set us. \<exists>e. find_entry (endpoints s) u = Some e \<and> m_connected_entities e \<noteq> []
        \<and> m2m_get_parents (zone_endpoint s) (get_uuid e) = [])
     \<and> unat n + length (filter (has_role s Initiator) us) \<le> 1)"
proof (induction us arbitrary: n)
  case Nil
  then show ?case by (simp add: word_le_nat_alt)
next
  case (Cons u us)
  have "unat n = unat (0 :: u16) \<or> unat n = unat (1 :: u16)" using Cons.prems by (auto simp: word_le_nat_alt)
  then have n: "n = 0 \<or> n = 1" by (simp only: word_unat_eq_iff)
  show ?case
  proof (cases "find_entry (endpoints s) u")
    case None
    then show ?thesis by (auto simp: eff_simps pnc_get_def get_entry_def)
  next
    case (Some e)
    show ?thesis
    proof (cases "m_connected_entities e")
      case Nil
      with Some show ?thesis by (auto simp: eff_simps pnc_get_def get_entry_def)
    next
      case (Cons front rest)
      with Some Cons.IH[of n] Cons.IH[of 1] n show ?thesis
        by (auto simp: eff_simps pnc_get_def get_entry_def has_role_def first_role_def Let_def)
    qed
  qed
qed

text \<open>The requests that \<open>AddZone\<close> accepts.\<close>

definition zone_request_ok :: "'h pnc \<Rightarrow> uuid list \<Rightarrow> bool" where
  "zone_request_ok s us \<longleftrightarrow> distinct us
     \<and> (\<forall>u \<in> set us. \<exists>e. find_entry (endpoints s) u = Some e \<and> m_connected_entities e \<noteq> []
          \<and> m2m_get_parents (zone_endpoint s) (get_uuid e) = []
          \<and> (first_role e = Some Target \<longrightarrow> status_state (m_status e) = State_Enabled \<and> \<not> m2m_child_exists (zone_endpoint s) u))
     \<and> length (filter (has_role s Initiator) us) \<le> 1"

lemma validate_zone_outcome:
  "snd (validate_zone_endpoints us s) = s \<and> (fst (validate_zone_endpoints us s) = Inr () \<longleftrightarrow> zone_request_ok s us)"
proof (cases "distinct us \<and> find (\<lambda>u. find_entry (endpoints s) u = None) us = None")
  case False
  then show ?thesis
    by (auto simp: validate_zone_endpoints_def eff_simps throw_if_duplicates_iff endpoints_with_role zone_request_ok_def find_None_iff
        split: option.splits) fastforce
next
  case True
  let ?targets = "filter (has_role s Target) us"
  obtain r s' where b: "throw_if_endpoints_are_bound ?targets s = (r, s')" by fastforce
  have "s' = s" using bound_check_outcome(1)[of ?targets s] b by simp
  with True b have run: "validate_zone_endpoints us s = (case r of Inl e \<Rightarrow> (Inl e, s) | Inr _ \<Rightarrow> check_zone_endpoints 0 us s)"
    by (simp add: validate_zone_endpoints_def eff_simps throw_if_duplicates_iff endpoints_with_role split: sum.split)
  have r: "r = Inr () \<longleftrightarrow> (\<forall>u \<in> set ?targets. \<exists>e. find_entry (endpoints s) u = Some e \<and> status_state (m_status e) = State_Enabled
        \<and> \<not> m2m_child_exists (zone_endpoint s) u)"
    using bound_check_outcome(2)[of ?targets s] b by simp
  show ?thesis
  proof (cases r)
    case (Inl e)
    with r have "\<not> zone_request_ok s us" by (fastforce simp: zone_request_ok_def has_role_def)
    with run Inl show ?thesis by simp
  next
    case (Inr x)
    with r have "\<forall>u \<in> set us. \<forall>e. find_entry (endpoints s) u = Some e \<longrightarrow> first_role e = Some Target
        \<longrightarrow> status_state (m_status e) = State_Enabled \<and> \<not> m2m_child_exists (zone_endpoint s) u"
      by (fastforce simp: has_role_def)
    with run Inr zone_check_outcome[of 0 us s] True show ?thesis by (auto simp: zone_request_ok_def)
  qed
qed

subsection \<open>Commands whose tasks run at once\<close>

text \<open>The command, and then the task it started, before anything else happens.\<close>

definition run_now :: "'h pnc_task option \<Rightarrow> ('h, unit) command" where
  "run_now t = (case t of None \<Rightarrow> eret () | Some task \<Rightarrow> task_call (classify_agent pnc_classify) task)"

definition serve :: "('h, zone_response \<times> 'h pnc_task option) command \<Rightarrow> ('h, unit) command" where
  "serve cmd = ebind cmd (\<lambda>(_, t). run_now t)"

lemma start_task_outcome:
  assumes "start_task tv pre subs prefix response a = (Inr (u, task), a')"
  shows "task = created_task tv pre subs (pnc_error_with prefix) response"
  using assms by (auto simp: start_task_def eff_simps build_task_outcome Let_def split: option.splits)

text \<open>A task that is started and run respects what its actions respect.\<close>

lemma leaves_started_task:
  assumes "agent_frame R" and "\<And>m. m \<in> set (pre @ subs) \<Longrightarrow> leaves R m"
  shows "leaves (on_models R) (ebind (start_task tv pre subs prefix response) (\<lambda>(u, task). run_now (Some task)))"
proof (rule effect_frame.leaves_ebind[OF agent_frame.axioms(2)[OF assms(1)]])
  show "leaves (on_models R) (start_task tv pre subs prefix response)"
    unfolding start_task_def
    by (intro effect_frame.leaves_ebind[OF agent_frame.axioms(2)[OF assms(1)]] agent_frame.leaves_build_task[OF assms(1)]
        effect_frame.leaves_eret[OF agent_frame.axioms(2)[OF assms(1)]])
next
  fix ut and a a' :: "'a pnc agent"
  assume "start_task tv pre subs prefix response a = (Inr ut, a')"
  then have "snd ut = created_task tv pre subs (pnc_error_with prefix) response"
    using start_task_outcome[of tv pre subs prefix response a "fst ut" "snd ut" a'] by simp
  then show "leaves (on_models R) (case ut of (u, task) \<Rightarrow> run_now (Some task))"
    using agent_frame.leaves_task_call[OF assms(1), of pre subs] assms(2) by (cases ut) (simp add: run_now_def)
qed

lemma leaves_run_none: "agent_frame R \<Longrightarrow> leaves (on_models R) (run_now None)"
  by (simp add: run_now_def effect_frame.leaves_eret[OF agent_frame.axioms(2)])

lemma ebind_assoc: "ebind (ebind m f) k = ebind m (\<lambda>a. ebind (f a) k)"
  by (auto simp: fun_eq_iff eff_simps split: prod.splits sum.splits)

lemma ebind_eret [simp]: "ebind (eret a) k = k a"
  by (simp add: fun_eq_iff eff_simps)

lemma ebind_if: "ebind (if c then m else n) k = (if c then ebind m k else ebind n k)"
  by simp

lemmas command_shape = serve_def eseq_def ebind_assoc ebind_eret ebind_if case_prod_unfold fst_conv snd_conv

lemma lw_frame: "agent_frame (links_within z L :: 'h pnc \<Rightarrow> 'h pnc \<Rightarrow> bool)"
  and fl_frame: "agent_frame (fewer_links :: 'h pnc \<Rightarrow> 'h pnc \<Rightarrow> bool)"
  by (rule agent_frameI[OF zone_frames(1)], rule agent_frameI[OF zone_frames(2)])

text \<open>\<open>AddZone\<close> and \<open>AddZoneEndpoints\<close> with their tasks add links of the requested endpoints to the one zone.\<close>

lemma unbound_check_outcome:
  "snd (validate_endpoints_are_unbound us s) = s"
  "fst (validate_endpoints_are_unbound us s) = Inr () \<longleftrightarrow>
     (\<forall>u \<in> set us. \<exists>e. find_entry (endpoints s) u = Some e \<and> status_state (m_status e) = State_Enabled
        \<and> \<not> m2m_child_exists (zone_endpoint s) u)"
  unfolding validate_endpoints_are_unbound_def
  by (induction us) (auto simp: eff_simps Let_def pnc_get_def get_entry_def split: option.split prod.splits sum.splits)

lemma initiator_check_quiet: "snd (validate_number_of_initiator_endpoints z us s) = s"
  by (auto simp: validate_number_of_initiator_endpoints_def eff_simps endpoints_with_role split: option.split)

lemma validate_add_outcome:
  "snd (validate_add_zone_endpoints z us s) = s \<and>
   (fst (validate_add_zone_endpoints z us s) = Inr () \<longrightarrow> distinct us \<and> (\<forall>u \<in> set us. \<not> m2m_child_exists (zone_endpoint s) u))"
  using unbound_check_outcome[of us s] initiator_check_quiet[of z us s]
  by (auto simp: validate_add_zone_endpoints_def eff_simps throw_if_duplicates_iff split: prod.splits sum.splits)

lemma leaves_validate:
  "leaves (links_within z L) (validate_zone_endpoints us)"
  "leaves (links_within z L) (validate_add_zone_endpoints z' us)"
  using conjunct1[OF validate_zone_outcome] conjunct1[OF validate_add_outcome] lw.leaves_quiet by blast+

lemma new_zone_uuid [simp]: "get_uuid (build_zone zv f sw) = zv"
  by (simp add: build_zone_def new_zone_def resource.defs zone.defs get_uuid_def new_resource_def)

lemma leaves_new_zone: "leaves (links_within zv L) (log_and_add zones zones_update (build_zone zv f sw))"
proof -
  have "own_zone zv (s\<lparr> zones := zt \<rparr>)" if "add_entry (build_zone zv f sw) (zones s) = (Inr x, zt)" for s :: "'a pnc" and x zt
    using that by (auto simp: own_zone_def add_entry_def find_entry_append Let_def split: option.splits if_splits)
  then show ?thesis
    by (auto simp: leaves_def links_within_def log_and_add_def split: prod.split sum.split)
qed

lemma log_and_add_uuid: "log_and_add table upd r s = (Inr u, s') \<Longrightarrow> u = get_uuid r"
  by (auto simp: log_and_add_def split: prod.splits sum.splits)

lemma on_model_returns: "on_model m a = (Inr x, a') \<Longrightarrow> m (model a) = (Inr x, model a')"
  by (auto simp: on_model_def split: prod.splits sum.splits)

lemma role_subset: "get_endpoints_with_role role us s = (Inr vs, s') \<Longrightarrow> set vs \<subseteq> set us"
  by (auto simp: endpoints_with_role split: option.splits)

lemma leaves_add_zone_task:
  assumes "set hosts \<union> set targets \<subseteq> set us"
  shows "leaves (on_models (links_within z (zone_links z us)))
     (ebind (run_add_zone_task i tv hosts targets z f) (\<lambda>(u, task). run_now (Some task)))"
  unfolding run_add_zone_task_def
  using leaves_add_zone_bind[OF assms] by (intro leaves_started_task[OF lw_frame]) (auto intro: lw_intros)

lemma leaves_add_initiator_zone:
  "set hosts \<subseteq> set us \<Longrightarrow> leaves (links_within z (zone_links z us)) (add_initiator_zone hosts z f)"
  unfolding add_initiator_zone_def by (auto intro!: leaves_link lw_intros)

lemma leaves_serve_add_zone:
  "leaves (on_models (links_within zv (zone_links zv us))) (serve (add_zone i zv tv f us))"
proof -
  have tail: "leaves (on_models (links_within zv (zone_links zv us)))
       (if hosts = [] \<and> targets = [] then ebind (on_model (store_zone_in_db hosts targets z f)) (\<lambda>_. run_now None)
        else if targets = [] then ebind (on_model (add_initiator_zone hosts z f)) (\<lambda>_. run_now None)
        else ebind (run_add_zone_task i tv hosts targets z f) (\<lambda>(u, task). run_now (Some task)))"
    if "on_model (log_and_add zones zones_update (build_zone zv f sw)) a1 = (Inr z, a1')"
      "on_model (get_endpoints_with_role Initiator us) a2 = (Inr hosts, a2')"
      "on_model (get_endpoints_with_role Target us) a3 = (Inr targets, a3')"
    for sw z hosts targets and a1 a1' a2 a2' a3 a3' :: "'a pnc agent"
  proof -
    have "z = zv" using log_and_add_uuid[OF on_model_returns[OF that(1)]] by simp
    moreover have "set hosts \<union> set targets \<subseteq> set us"
      using role_subset[OF on_model_returns[OF that(2)]] role_subset[OF on_model_returns[OF that(3)]] by simp
    ultimately show ?thesis
      by (auto intro!: lw.agents.leaves_ebind lw.leaves_on_model leaves_run_none[OF lw_frame] leaves_add_zone_task
          leaves_add_initiator_zone same_zones_leaves(1)[OF leaves_store_zone])
  qed
  show ?thesis
    unfolding add_zone_def command_shape
    by (intro lw.agents.leaves_ebind lw.leaves_on_model leaves_validate leaves_new_zone quiet_ops[THEN same_zones_leaves(1)])
       (drule (2) tail, auto simp: case_prod_unfold split: if_splits)
qed

lemma leaves_serve_add_endpoints:
  "leaves (on_models (links_within z (zone_links z us))) (serve (add_zone_endpoints i tv z us))"
proof -
  have "leaves (on_models (links_within z (zone_links z us))) (ebind (start_task tv []
       [bind_zone_endpoints i us z, store_endpoints_in_zone_db us z] prefix response) (\<lambda>(u, task). run_now (Some task)))" for prefix response
    by (intro leaves_started_task[OF lw_frame])
       (auto simp: store_endpoints_in_zone_db_def intro: leaves_bind_zone_endpoints same_zones_leaves(1)[OF leaves_entity(1)])
  then show ?thesis
    unfolding add_zone_endpoints_def command_shape
    by (intro lw.agents.leaves_ebind[OF lw.leaves_on_model[OF leaves_validate(2)]]) simp
qed

text \<open>\<open>DeleteZone\<close> and \<open>DeleteZoneEndpoints\<close> with their tasks add no link.\<close>

lemma leaves_forget [intro!]:
  "leaves fewer_links (remove_endpoints_from_zone_model us z)"
  "leaves fewer_links (remove_endpoints_from_zone_db us z)"
  "leaves fewer_links (forget_endpoints us z)"
  "leaves fewer_links (remove_zone_from_model_and_db z)"
  "leaves fewer_links (delete_zone_unbind_endpoints i us z)"
  "leaves fewer_links (unbind_zone_endpoints i us z)"
  unfolding forget_endpoints_def remove_endpoints_from_zone_model_def remove_endpoints_from_zone_db_def remove_zone_from_model_and_db_def
    delete_zone_unbind_endpoints_def unbind_zone_endpoints_def
  by (auto intro!: fl_intros fl.leaves_emodify simp: fewer_links_def)

lemma any_matches_quiet: "(\<And>u. leaves same_zones (p u)) \<Longrightarrow> leaves same_zones (any_matches p us)"
  by (induction us) (auto intro!: sz.leaves_ebind)

lemma leaves_delete_checks [intro!]:
  "leaves same_zones (is_initiator_in_zone z)"
  "leaves same_zones (is_target_in_zone z)"
  "leaves same_zones (count_initiators us)"
  "leaves same_zones (partition_target_and_initiator_endpoints us)"
  "leaves same_zones (validate_delete_zone_endpoints z us)"
proof -
  show "leaves same_zones (partition_target_and_initiator_endpoints us)"
    by (induction us) (auto intro!: sz.leaves_ebind split: prod.split)
qed (auto simp: is_initiator_in_zone_def is_target_in_zone_def count_initiators_def validate_delete_zone_endpoints_def
      throw_if_duplicates_def validate_endpoints_are_bound_def
      intro!: sz.leaves_ebind sz.leaves_eseq sz.leaves_efor any_matches_quiet leaves_efor_concat)

lemmas fl_command_intros = fl.agents.leaves_ebind fl.leaves_on_model leaves_run_none[OF fl_frame]
  leaves_delete_checks[THEN same_zones_leaves(2)] quiet_ops[THEN same_zones_leaves(2)] leaves_forget fl.leaves_eget

lemma leaves_serve_delete_zone: "leaves (on_models fewer_links) (serve (delete_zone i tv z))"
proof -
  have task: "leaves (on_models fewer_links) (ebind (start_task tv []
       ((if n \<noteq> 0 then [delete_zone_unbind_endpoints i us z] else []) @ [remove_endpoints_from_zone_model us z, remove_zone_from_model_and_db z])
       prefix response) (\<lambda>(u, task). run_now (Some task)))" for n :: nat and us prefix response
    by (intro leaves_started_task[OF fl_frame]) (auto split: if_splits)
  show ?thesis
    unfolding delete_zone_def command_shape
    by (intro task[unfolded case_prod_unfold] fl.agents.leaves_if fl_command_intros fl.agents.leaves_eret)
qed

lemma leaves_serve_delete_endpoints: "leaves (on_models fewer_links) (serve (delete_zone_endpoints i tv z us))"
proof -
  have task: "leaves (on_models fewer_links) (ebind (start_task tv []
       [unbind_zone_endpoints i unbind z, remove_endpoints_from_zone_model rm z, remove_endpoints_from_zone_db rm z]
       prefix response) (\<lambda>(u, task). run_now (Some task)))" for unbind rm prefix response
    by (intro leaves_started_task[OF fl_frame]) auto
  show ?thesis
    unfolding delete_zone_endpoints_def command_shape Let_def
    by (intro task[unfolded case_prod_unfold] fl.agents.leaves_if fl_command_intros fl.agents.leaves_eret)
qed

subsection \<open>At most one zone per endpoint\<close>

definition one_zone :: "m2m \<Rightarrow> bool" where
  "one_zone t \<longleftrightarrow> (\<forall>p q c g h. (p, c, g) \<in> set t \<longrightarrow> (q, c, h) \<in> set t \<longrightarrow> p = q)"

definition own_endpoint :: "'h pnc \<Rightarrow> uuid \<Rightarrow> bool" where
  "own_endpoint s u \<longleftrightarrow> (\<forall>e. find_entry (endpoints s) u = Some e \<longrightarrow> get_uuid e = u)"

lemma one_zone_fewer: "\<lbrakk>one_zone t; set t' \<subseteq> set t\<rbrakk> \<Longrightarrow> one_zone t'"
  unfolding one_zone_def by blast

lemma one_zone_extend:
  assumes "one_zone t" and "set t' \<subseteq> set t \<union> set (zone_links z us)" and "\<And>u. u \<in> set us \<Longrightarrow> \<not> m2m_child_exists t u"
  shows "one_zone t'"
  unfolding one_zone_def
proof (intro allI impI)
  fix p q c g h
  assume "(p, c, g) \<in> set t'" "(q, c, h) \<in> set t'"
  with assms(2) have m: "(p, c, g) \<in> set t \<or> p = z \<and> c \<in> set us" "(q, c, h) \<in> set t \<or> q = z \<and> c \<in> set us" by auto
  show "p = q"
  proof (cases "c \<in> set us")
    case True
    with assms(3) m show ?thesis by (auto simp: m2m_child_exists_iff)
  next
    case False
    with m assms(1) show ?thesis by (auto simp: one_zone_def)
  qed
qed

lemma serve_add_zone_one_zone:
  assumes "one_zone (zone_endpoint (model a))" and "find_entry (zones (model a)) zv = None" and "\<forall>u \<in> set us. own_endpoint (model a) u"
  shows "one_zone (zone_endpoint (model (snd (serve (add_zone i zv tv f us) a))))"
proof (cases "zone_request_ok (model a) us")
  case True
  have "\<not> m2m_child_exists (zone_endpoint (model a)) u" if "u \<in> set us" for u
  proof -
    obtain e where "find_entry (endpoints (model a)) u = Some e" "m2m_get_parents (zone_endpoint (model a)) (get_uuid e) = []"
      using True \<open>u \<in> set us\<close> by (auto simp: zone_request_ok_def)
    then have "m2m_get_parents (zone_endpoint (model a)) u = []" using assms(3) that by (simp add: own_endpoint_def)
    then show ?thesis by (metis (mono_tags, lifting) empty_iff empty_set m2m_child_exists_iff mem_Collect_eq set_m2m_get_parents)
  qed
  moreover have "set (zone_endpoint (model (snd (serve (add_zone i zv tv f us) a)))) \<subseteq> set (zone_endpoint (model a)) \<union> set (zone_links zv us)"
    using leaves_serve_add_zone[of zv us i tv f] assms(2) by (simp add: leaves_def on_models_def links_within_def own_zone_def)
  ultimately show ?thesis using one_zone_extend[OF assms(1)] by blast
next
  case False
  obtain r s where v: "validate_zone_endpoints us (model a) = (r, s)" by fastforce
  with False validate_zone_outcome[of us "model a"] obtain e where "r = Inl e" "s = model a" by (cases r) auto
  with v have "serve (add_zone i zv tv f us) a = (Inl (FromModel e), a)"
    by (simp add: serve_def add_zone_def eff_simps on_model_def)
  with assms(1) show ?thesis by simp
qed

lemma serve_add_endpoints_one_zone:
  assumes "one_zone (zone_endpoint (model a))" and "own_zone z (model a)"
  shows "one_zone (zone_endpoint (model (snd (serve (add_zone_endpoints i tv z us) a))))"
proof (cases "fst (validate_add_zone_endpoints z us (model a)) = Inr ()")
  case True
  then have "\<not> m2m_child_exists (zone_endpoint (model a)) u" if "u \<in> set us" for u
    using validate_add_outcome[of z us "model a"] that by blast
  moreover have "set (zone_endpoint (model (snd (serve (add_zone_endpoints i tv z us) a)))) \<subseteq> set (zone_endpoint (model a)) \<union> set (zone_links z us)"
    using leaves_serve_add_endpoints[of z us i tv] assms(2) by (simp add: leaves_def on_models_def links_within_def)
  ultimately show ?thesis using one_zone_extend[OF assms(1)] by blast
next
  case False
  obtain r s where v: "validate_add_zone_endpoints z us (model a) = (r, s)" by fastforce
  with False validate_add_outcome[of z us "model a"] obtain e where "r = Inl e" "s = model a" by (cases r) auto
  with v have "serve (add_zone_endpoints i tv z us) a = (Inl (FromModel e), a)"
    by (simp add: serve_def add_zone_endpoints_def eff_simps on_model_def)
  with assms(1) show ?thesis by simp
qed

text \<open>
  Zone commands one after the other, each with its task: any outcome of the command and of the
  task. A new zone gets a UUID that finds no zone; the request names an endpoint or a zone by
  its own UUID, not by an older one that still finds it.
\<close>

inductive zone_service :: "'h access_interface \<Rightarrow> 'h pnc agent \<Rightarrow> 'h pnc agent \<Rightarrow> bool" for i where
  service_add_zone:
    "\<lbrakk>find_entry (zones (model a)) zv = None; \<forall>u \<in> set us. own_endpoint (model a) u\<rbrakk>
     \<Longrightarrow> zone_service i a (snd (serve (add_zone i zv tv f us) a))"
| service_add_endpoints:
    "own_zone z (model a) \<Longrightarrow> zone_service i a (snd (serve (add_zone_endpoints i tv z us) a))"
| service_delete_zone: "zone_service i a (snd (serve (delete_zone i tv z) a))"
| service_delete_endpoints: "zone_service i a (snd (serve (delete_zone_endpoints i tv z us) a))"

lemma zone_service_one_zone: "\<lbrakk>zone_service i a b; one_zone (zone_endpoint (model a))\<rbrakk> \<Longrightarrow> one_zone (zone_endpoint (model b))"
proof (induction rule: zone_service.induct)
  case (service_add_zone a zv us tv f)
  then show ?case by (intro serve_add_zone_one_zone)
next
  case (service_add_endpoints z a tv us)
  then show ?case by (intro serve_add_endpoints_one_zone)
next
  case (service_delete_zone a tv z)
  then show ?case using leaves_serve_delete_zone[of i tv z] by (auto simp: leaves_def on_models_def fewer_links_def intro: one_zone_fewer)
next
  case (service_delete_endpoints a tv z us)
  then show ?case using leaves_serve_delete_endpoints[of i tv z us] by (auto simp: leaves_def on_models_def fewer_links_def intro: one_zone_fewer)
qed

subsection \<open>Commands whose tasks wait\<close>

lemma link_all:
  "efor (link_zone_endpoint z) us s = (Inr (), s\<lparr> zone_endpoint := fold (\<lambda>u. m2m_add_entry z u []) us (zone_endpoint s) \<rparr>)"
  by (induction us arbitrary: s) (simp_all add: eff_simps link_zone_endpoint_def)

lemma set_add_all: "set (fold (\<lambda>u. m2m_add_entry z u []) us t) = set t \<union> set (zone_links z us)"
  by (induction us arbitrary: t) (auto simp: m2m_add_entry_def set_insort_insert zone_links_def)

text \<open>The actions of the task of \<open>AddZoneEndpoints\<close>.\<close>

definition add_endpoints_actions :: "'h access_interface \<Rightarrow> uuid list \<Rightarrow> uuid \<Rightarrow> ('h, unit) pnc_eff list" where
  "add_endpoints_actions i us z = [bind_zone_endpoints i us z, store_endpoints_in_zone_db us z]"

lemma add_endpoints_links:
  assumes "efor (\<lambda>x. x) (add_endpoints_actions i us z) s = (Inr (), s')"
  shows "set (zone_endpoint s') = set (zone_endpoint s) \<union> set (zone_links z us)"
proof -
  obtain s1 where b: "bind_zone_endpoints i us z s = (Inr (), s1)" and st: "store_endpoints_in_zone_db us z s1 = (Inr (), s')"
    using assms by (auto simp: add_endpoints_actions_def eff_simps split: prod.splits sum.splits)
  obtain s0 where g: "zone_gas i z s = (Inr (), s0)"
    using b by (auto simp: bind_zone_endpoints_def eseq_apply split: prod.splits sum.splits)
  let ?m = "ebind (get_endpoints_with_role Initiator us) (\<lambda>initiators.
     ebind (if length initiators = 0 then get_endpoints_with_role Target us
            else ebind (eget (\<lambda>s. m2m_get_children (zone_endpoint s) z)) (get_endpoints_with_role Target)) (\<lambda>targets.
       efor (bind_endpoint_to_zone i z) targets))"
  have "leaves same_zones ?m" by (auto intro!: sz.leaves_ebind sz.leaves_efor)
  moreover have "?m (s0\<lparr> zone_endpoint := fold (\<lambda>u. m2m_add_entry z u []) us (zone_endpoint s0) \<rparr>) = (Inr (), s1)"
    using b g by (simp add: bind_zone_endpoints_def eseq_apply link_all)
  ultimately have "zone_endpoint s1 = fold (\<lambda>u. m2m_add_entry z u []) us (zone_endpoint s0)"
    using leavesD by (fastforce simp: same_zones_def)
  moreover have "zone_endpoint s0 = zone_endpoint s" using leavesD[OF leaves_zone_gas g] by (simp add: same_zones_def)
  moreover have "zone_endpoint s' = zone_endpoint s1"
    using leavesD[OF leaves_entity(1) st[unfolded store_endpoints_in_zone_db_def]] by (simp add: same_zones_def)
  ultimately show ?thesis by (simp add: set_add_all)
qed

lemma accepted_add_endpoints:
  assumes "fst (validate_add_zone_endpoints z us (model a)) = Inr ()" and "find_entry (task_manager a) tv = None"
  shows "\<exists>rsp. add_zone_endpoints i tv z us a
     = (Inr (rsp, Some (created_task tv [] (add_endpoints_actions i us z) (pnc_error_with ''Could not add endpoints to zone. '')
                          (zone_task_to_json empty_response))),
        snd (build_task tv [] (add_endpoints_actions i us z) (pnc_error_with ''Could not add endpoints to zone. '')
               (zone_task_to_json empty_response) a))"
proof -
  have "validate_add_zone_endpoints z us (model a) = (Inr (), model a)"
    using assms(1) validate_add_outcome[of z us "model a"] by (metis prod.collapse)
  then have "on_model (validate_add_zone_endpoints z us) a = (Inr (), a)" by (simp add: on_model_def)
  with assms(2) show ?thesis
    by (simp add: add_zone_endpoints_def eff_simps start_task_def add_endpoints_actions_def build_task_outcome Let_def)
qed

lemma any_pending: "any_uuid_matches v (touch ep ((new_task_resource u)\<lparr> m_state := x \<rparr>)) \<longleftrightarrow> v = [] \<or> v = u"
  by (auto simp: any_uuid_matches_def new_task_resource_def resource.defs task_resource.defs new_resource_def touch_def)

lemma get_uuid_pending [simp]: "get_uuid ((new_task_resource u)\<lparr> m_state := x \<rparr>) = u"
  by (simp add: new_task_resource_def resource.defs task_resource.defs new_resource_def get_uuid_def)

lemma pending_own:
  "uuid_matches u (touch ep ((new_task_resource u)\<lparr> m_state := x \<rparr>))" "not_started (touch ep ((new_task_resource u)\<lparr> m_state := x \<rparr>))"
  by (simp_all add: uuid_matches_def new_task_resource_def resource.defs task_resource.defs new_resource_def touch_def not_started_def)

lemma two_pending:
  assumes none: "find (any_uuid_matches t1) (m_manager_data (task_manager a)) = None"
      "find (any_uuid_matches t2) (m_manager_data (task_manager a)) = None"
    and ne: "t1 \<noteq> t2" "t1 \<noteq> []" "t2 \<noteq> []"
    and a1: "a1 = snd (build_task t1 pre1 subs1 th1 rs1 a)" and a2: "a2 = snd (build_task t2 pre2 subs2 th2 rs2 a1)"
  shows "find_entry (task_manager a) t1 = None" "find_entry (task_manager a1) t2 = None" "model a1 = model a" "model a2 = model a"
    "m_results a2 = m_results a"
    "\<exists>w1 w2. task_entry t1 w1 a2 \<and> task_entry t2 w2 a2 \<and> not_started w1 \<and> not_started w2 \<and> \<not> any_uuid_matches t2 w1"
proof -
  let ?xs = "m_manager_data (task_manager a)" and ?ep = "m_current_epoch (task_manager a)"
  let ?w = "\<lambda>ep u. touch ep ((new_task_resource u)\<lparr> m_state := Some Task_Pending \<rparr>)"
  have f1: "find_entry (task_manager a) t1 = None"
    using none(1) uuid_matches_any by (auto simp: find_entry_def find_None_iff)
  then have m1: "m_manager_data (task_manager a1) = ?xs @ [?w (?ep + 1) t1]" and o1: "model a1 = model a" "m_results a1 = m_results a"
    by (simp_all add: a1 build_task_outcome Let_def)
  have f2: "find_entry (task_manager a1) t2 = None"
    using none(2) uuid_matches_any ne any_pending[of t2] by (fastforce simp: find_entry_def find_None_iff m1)
  then have m2: "m_manager_data (task_manager a2) = ?xs @ [?w (?ep + 1) t1, ?w (m_current_epoch (task_manager a1) + 1) t2]"
    and o2: "model a2 = model a" "m_results a2 = m_results a"
    using o1 by (simp_all add: a2 build_task_outcome Let_def m1)
  have "task_entry t1 (?w (?ep + 1) t1) a2" "task_entry t2 (?w (m_current_epoch (task_manager a1) + 1) t2) a2"
    using none ne by (simp_all add: task_entry_def m2 find_append any_pending pending_own)
  moreover have "\<not> any_uuid_matches t2 (?w (?ep + 1) t1)" using ne by (simp add: any_pending)
  ultimately show "\<exists>w1 w2. task_entry t1 w1 a2 \<and> task_entry t2 w2 a2 \<and> not_started w1 \<and> not_started w2 \<and> \<not> any_uuid_matches t2 w1"
    using pending_own(2) by blast
  show "find_entry (task_manager a) t1 = None" "find_entry (task_manager a1) t2 = None" "model a1 = model a" "model a2 = model a"
    "m_results a2 = m_results a" using f1 f2 o1 o2 by simp_all
qed

subsection \<open>Properties\<close>

text \<open>
  \<open>AddZone\<close> accepts exactly the requests whose endpoints are all known, listed once, have a
  connected entity, are in no zone, of which at most one is an initiator and of which every
  target is Enabled; validation changes nothing.
\<close>

theorem validate_zone_endpoints_outcome:
  "snd (validate_zone_endpoints us s) = s \<and> (fst (validate_zone_endpoints us s) = Inr () \<longleftrightarrow> zone_request_ok s us)"
  by (rule validate_zone_outcome)

text \<open>
  C9: As long as every zone command is followed by its task before the next command is taken,
  no endpoint is ever in two zones, whatever the commands and the hardware return.
\<close>

theorem zone_service_keeps_one_zone:
  assumes "(zone_service i)\<^sup>*\<^sup>* a b" and "one_zone (zone_endpoint (model a))"
  shows "one_zone (zone_endpoint (model b))"
  using assms by (induction rule: rtranclp_induct) (auto intro: zone_service_one_zone)

text \<open>
  C35: Two requests to add the same endpoint to two zones can both succeed. \<open>AddZoneEndpoints\<close>
  checks the endpoints when the request comes in but links them in its task, which checks
  nothing again: when both requests are validated before the first task runs, both tasks
  complete and the endpoint ends up in both zones.
\<close>

theorem waiting_tasks_share_endpoint:
  fixes a :: "'h pnc agent" and i :: "'h access_interface"
  defines "C \<equiv> classify_agent pnc_classify"
  assumes "fst (validate_add_zone_endpoints z1 [e] (model a)) = Inr ()" and "fst (validate_add_zone_endpoints z2 [e] (model a)) = Inr ()"
    and "find (any_uuid_matches t1) (m_manager_data (task_manager a)) = None"
    and "find (any_uuid_matches t2) (m_manager_data (task_manager a)) = None"
    and "t1 \<noteq> t2" "t1 \<noteq> []" "t2 \<noteq> []" and "m_results a t1 = None" and "m_results a t2 = None"
    and "efor (\<lambda>x. x) (add_endpoints_actions i [e] z1) (model a) = (Inr (), s1)"
    and "efor (\<lambda>x. x) (add_endpoints_actions i [e] z2) s1 = (Inr (), s2)"
  shows "\<exists>rsp1 task1 a1 rsp2 task2 a2 b1 b2.
     add_zone_endpoints i t1 z1 [e] a = (Inr (rsp1, Some task1), a1) \<and> add_zone_endpoints i t2 z2 [e] a1 = (Inr (rsp2, Some task2), a2)
     \<and> task_call C task1 a2 = (Inr (), b1) \<and> task_call C task2 b1 = (Inr (), b2)
     \<and> m2m_entry_exists (zone_endpoint (model b2)) z1 e \<and> m2m_entry_exists (zone_endpoint (model b2)) z2 e"
proof -
  let ?th = "pnc_error_with ''Could not add endpoints to zone. ''" and ?rs = "zone_task_to_json empty_response"
  let ?s1 = "add_endpoints_actions i [e] z1" and ?s2 = "add_endpoints_actions i [e] z2"
  define a1 where "a1 = snd (build_task t1 [] ?s1 ?th ?rs a)"
  define a2 where "a2 = snd (build_task t2 [] ?s2 ?th ?rs a1)"
  note two = two_pending[OF assms(4-8) a1_def a2_def]
  obtain w1 w2 where w: "task_entry t1 w1 a2" "task_entry t2 w2 a2" "not_started w1" "not_started w2" "\<not> any_uuid_matches t2 w1"
    using two(6) by blast
  obtain rsp1 where c1: "add_zone_endpoints i t1 z1 [e] a = (Inr (rsp1, Some (created_task t1 [] ?s1 ?th ?rs)), a1)"
    using accepted_add_endpoints[OF assms(2) two(1), of i] unfolding a1_def by blast
  obtain rsp2 where c2: "add_zone_endpoints i t2 z2 [e] a1 = (Inr (rsp2, Some (created_task t2 [] ?s2 ?th ?rs)), a2)"
    using accepted_add_endpoints[of z2 "[e]" a1 t2 i] two assms(3) unfolding a2_def by auto
  have "m_results a2 t1 = None" "m_results a2 t2 = None" using two(5) assms(9,10) by simp_all
  moreover have "efor (\<lambda>x. x) ([] @ ?s1) (model a2) = (Inr (), s1)" using assms(11) two(4) by simp
  ultimately obtain b1 where b1: "task_call C (created_task t1 [] ?s1 ?th ?rs) a2 = (Inr (), b1)" "model b1 = s1"
      "task_entry t2 w2 b1" "m_results b1 t2 = None"
    using created_task_call[of t1 w1 a2 "[]" ?s1 "Inr ()" s1 pnc_classify undefined ?th ?rs] w assms(6) unfolding C_def by auto
  have "efor (\<lambda>x. x) ([] @ ?s2) (model b1) = (Inr (), s2)" using assms(12) b1(2) by simp
  then obtain b2 where b2: "task_call C (created_task t2 [] ?s2 ?th ?rs) b1 = (Inr (), b2)" "model b2 = s2"
    using created_task_call[of t2 w2 b1 "[]" ?s2 "Inr ()" s2 pnc_classify undefined ?th ?rs] w b1 unfolding C_def by auto
  have "(z1, e, []) \<in> set (zone_endpoint s2)" "(z2, e, []) \<in> set (zone_endpoint s2)"
    using add_endpoints_links[OF assms(11)] add_endpoints_links[OF assms(12)] by auto
  with c1 c2 b1(1) b2 show ?thesis by (auto simp: m2m_entry_exists_iff)
qed

text \<open>An agent with two empty zones and an enabled target endpoint.\<close>

definition race_model :: "sim_switch pnc" where
  "race_model = (empty_pnc \<lparr> sim_input = [], sim_ret = 0, sim_out = [], sim_bound = [] \<rparr>)\<lparr>
     switches := \<lparr> m_manager_data = [new_switch ''sw''], m_current_epoch = 1 \<rparr>,
     zones := \<lparr> m_manager_data = [(new_zone ''z1'' ''f'')\<lparr> m_switch_uuid := ''sw'' \<rparr>, (new_zone ''z2'' ''f'')\<lparr> m_switch_uuid := ''sw'' \<rparr>],
                m_current_epoch = 1 \<rparr>,
     endpoints := \<lparr> m_manager_data = [(new_endpoint ''e'' ''f'')\<lparr> m_status := healthy State_Enabled,
                      m_connected_entities := [\<lparr> m_entity_role = Some Target, m_entity = Some ''d'' \<rparr>] \<rparr>],
                    m_current_epoch = 1 \<rparr> \<rparr>"

definition race_state :: "sim_switch pnc" where
  "race_state = snd (efor (\<lambda>x. x) (add_endpoints_actions sim_iface [''e''] ''z1'') race_model)"

lemma race_facts:
  "fst (validate_add_zone_endpoints ''z1'' [''e''] race_model) = Inr ()"
  "fst (validate_add_zone_endpoints ''z2'' [''e''] race_model) = Inr ()"
  "fst (efor (\<lambda>x. x) (add_endpoints_actions sim_iface [''e''] ''z1'') race_model) = Inr ()"
  "fst (efor (\<lambda>x. x) (add_endpoints_actions sim_iface [''e''] ''z2'') race_state) = Inr ()"
     apply code_simp
    apply code_simp
   apply code_simp
  apply code_simp
  done

lemma fst_returns: "fst p = Inr () \<Longrightarrow> p = (Inr (), snd p)"
  by (metis prod.collapse)

theorem waiting_tasks_share_endpoint_witness:
  "\<exists>rsp1 task1 a1 rsp2 task2 a2 b1 b2.
     add_zone_endpoints sim_iface ''t1'' ''z1'' [''e''] (fresh_agent race_model) = (Inr (rsp1, Some task1), a1)
     \<and> add_zone_endpoints sim_iface ''t2'' ''z2'' [''e''] a1 = (Inr (rsp2, Some task2), a2)
     \<and> task_call (classify_agent pnc_classify) task1 a2 = (Inr (), b1) \<and> task_call (classify_agent pnc_classify) task2 b1 = (Inr (), b2)
     \<and> m2m_entry_exists (zone_endpoint (model b2)) ''z1'' ''e'' \<and> m2m_entry_exists (zone_endpoint (model b2)) ''z2'' ''e''"
proof (rule waiting_tasks_share_endpoint)
  show "efor (\<lambda>x. x) (add_endpoints_actions sim_iface [''e''] ''z1'') (model (fresh_agent race_model)) = (Inr (), race_state)"
    using fst_returns[OF race_facts(3)] by (simp add: fresh_agent_def race_state_def)
  show "efor (\<lambda>x. x) (add_endpoints_actions sim_iface [''e''] ''z2'') race_state
      = (Inr (), snd (efor (\<lambda>x. x) (add_endpoints_actions sim_iface [''e''] ''z2'') race_state))"
    by (rule fst_returns[OF race_facts(4)])
qed (simp_all add: fresh_agent_def empty_manager_def race_facts)

theorem zone_service_keeps_one_zone_witness:
  "one_zone (zone_endpoint (model (snd (serve (add_zone_endpoints sim_iface ''t1'' ''z1'' [''e'']) (fresh_agent race_model)))))"
proof (rule zone_service_keeps_one_zone[where i = sim_iface])
  have "own_zone ''z1'' race_model"
    by (simp add: own_zone_def race_model_def find_entry_def uuid_matches_def new_zone_def resource.defs zone.defs new_resource_def get_uuid_def)
  then show "(zone_service sim_iface)\<^sup>*\<^sup>* (fresh_agent race_model)
      (snd (serve (add_zone_endpoints sim_iface ''t1'' ''z1'' [''e'']) (fresh_agent race_model)))"
    by (intro r_into_rtranclp zone_service.service_add_endpoints) (simp add: fresh_agent_def)
  show "one_zone (zone_endpoint (model (fresh_agent race_model)))"
    by (simp add: one_zone_def fresh_agent_def race_model_def empty_pnc_def)
qed

end
