(* ===== verification/Endpoint_Commands.thy ===== *)
theory Endpoint_Commands
  imports Zone_Membership
begin

text \<open>
  The commands of the PNC agent that create and delete endpoints
  (\<open>agent/pnc/src/command/add_endpoint.cpp\<close>, \<open>delete_endpoint.cpp\<close>) with the endpoint builder
  and the stable UUID of an endpoint. An initiator endpoint stands for an upstream port, a
  target endpoint for a device and the port it is behind.
\<close>

subsection \<open>Building an endpoint\<close>

definition build_endpoint :: "uuid \<Rightarrow> uuid \<Rightarrow> connected_entity \<Rightarrow> endpoint" where
  "build_endpoint v1_uuid fabric_uuid entity =
     (new_endpoint v1_uuid fabric_uuid)\<lparr> m_status := healthy State_Enabled, m_collections := [(''Ports'', ''Ports'')],
                                         m_connected_entities := [entity] \<rparr>"

definition host_entity :: connected_entity where
  "host_entity = \<lparr> m_entity_role = Some Initiator, m_entity = None \<rparr>"

definition device_entity :: "uuid \<Rightarrow> connected_entity" where
  "device_entity device_uuid = \<lparr> m_entity_role = Some Target, m_entity = Some device_uuid \<rparr>"

text \<open>The version-5 UUIDs of the service, and the agent's part of every key.\<close>

record naming =
  make_v5_uuid :: "uuid \<Rightarrow> string \<Rightarrow> uuid"
  service_uuid :: uuid
  key_agent_id :: string

fun role_name :: "entity_role \<Rightarrow> string" where
  "role_name Initiator = ''Initiator''"
| "role_name Target = ''Target''"
| "role_name Both = ''Both''"

text \<open>
  The unique key of an endpoint; \<open>None\<close> where \<open>KeyValueMissingError\<close> is thrown. The commands
  call it with one entity and one port, which there is nothing to sort of.
\<close>

definition entity_key :: "connected_entity \<Rightarrow> string" where
  "entity_key c = (case m_entity c of Some u \<Rightarrow> u | None \<Rightarrow> []) @ (case m_entity_role c of Some r \<Rightarrow> role_name r | None \<Rightarrow> [])"

definition generate_endpoint_key :: "naming \<Rightarrow> endpoint \<Rightarrow> port \<Rightarrow> string option" where
  "generate_endpoint_key nm e p =
     (case m_connected_entities e of
        [] \<Rightarrow> None
      | c # _ \<Rightarrow> Some (key_agent_id nm @ ''_PCIeEndpoint_'' @ entity_key c @ (case m_unique_key p of Some k \<Rightarrow> k | None \<Rightarrow> [])))"

definition stabilize_endpoint :: "naming \<Rightarrow> port \<Rightarrow> endpoint \<Rightarrow> uuid \<times> endpoint" where
  "stabilize_endpoint nm p e =
     (case generate_endpoint_key nm e p of
        None \<Rightarrow> (get_uuid e, e)
      | Some key \<Rightarrow>
          (let e' = snd (make_persistent_uuid (make_v5_uuid nm) (service_uuid nm) (e\<lparr> m_unique_key := Some key \<rparr>))
           in (get_uuid e', e')))"

subsection \<open>AddEndpoint\<close>

record add_endpoint_request =
  req_fabric :: uuid
  req_ports :: "uuid list"
  req_entities :: "connected_entity list"

definition link_endpoint_port :: "uuid \<Rightarrow> uuid \<Rightarrow> ('h, unit) pnc_eff" where
  "link_endpoint_port endpoint_uuid port_uuid = emodify (\<lambda>s. s\<lparr> endpoint_port := m2m_add_entry endpoint_uuid port_uuid [] (endpoint_port s) \<rparr>)"

definition unlink_endpoint_port :: "uuid \<Rightarrow> uuid \<Rightarrow> ('h, unit) pnc_eff" where
  "unlink_endpoint_port endpoint_uuid port_uuid = emodify (\<lambda>s. s\<lparr> endpoint_port := m2m_remove_entry endpoint_uuid port_uuid (endpoint_port s) \<rparr>)"

definition quoted :: "string \<Rightarrow> string" where
  "quoted x = [CHR 0x22] @ x @ [CHR 0x22]"

definition throw_if_fabric_not_in_model :: "uuid \<Rightarrow> ('h, unit) pnc_eff" where
  "throw_if_fabric_not_in_model fabric_uuid =
     ebind (eget (\<lambda>s. entry_exists (fabrics s) fabric_uuid)) (\<lambda>known.
       if \<not> known then ethrow (InvalidValue ''Invalid value in Fabric property, invalid Fabric UUID.'') else eret ())"

definition throw_if_connected_entities_have_wrong_size :: "connected_entity list \<Rightarrow> ('h, unit) pnc_eff" where
  "throw_if_connected_entities_have_wrong_size es =
     (if length es \<noteq> 1
      then ethrow (InvalidValue (''ConnectedEntities array should have exactly 1 entry. Found: '' @ to_string (length es)))
      else eret ())"

definition validate_request_for_initiator :: "add_endpoint_request \<Rightarrow> ('h, unit) pnc_eff" where
  "validate_request_for_initiator request =
     (if length (req_ports request) \<noteq> 1 then ethrow (InvalidValue ''Ports array should have exactly 1 member.'')
      else if m_entity (hd (req_entities request)) \<noteq> None
      then ethrow (InvalidValue ''Property Entity should be empty for Initiator Endpoint.'')
      else efor (\<lambda>port_uuid.
             ebind (pnc_get ports port_uuid) (\<lambda>p.
               if m_port_type p \<noteq> Some UpstreamPort \<and> m_port_type p \<noteq> Some BidirectionalPort
               then ethrow (InvalidValue (''Invalid value in Ports property, when '' @ quoted ''EntityRole'' @ '' is set to '' @ quoted ''Initiator'' @ '',''
                      @ quoted ''Ports'' @ '' should contain link to Upstream Port.''))
               else ebind (eget (\<lambda>s. m2m_get_parents (endpoint_port s) port_uuid)) (\<lambda>associated_endpoints.
                 if associated_endpoints \<noteq> []
                 then ethrow (InvalidValue ''Invalid value in Ports property, specified Port already has an associated Endpoint.'')
                 else eret ()))) (req_ports request))"

definition validate_request_for_target :: "add_endpoint_request \<Rightarrow> ('h, unit) pnc_eff" where
  "validate_request_for_target request =
     (case m_entity (hd (req_entities request)) of
        None \<Rightarrow> ethrow (InvalidValue ''Field Entity is required for Target Endpoints.'')
      | Some entity \<Rightarrow>
          ebind (eget (\<lambda>s. exists_in_components s entity)) (\<lambda>known.
            if \<not> known then ethrow (InvalidValue ''Invalid value in Entity property: Device not found.'')
            else if req_ports request \<noteq> [] then ethrow (InvalidValue ''Array of Ports should be empty for Target Endpoints.'')
            else ebind (get_ports_by_device_uuid entity) (\<lambda>ports_uuids.
              case ports_uuids of
                [] \<Rightarrow> ethrow (InvalidValue (''Device doesn'' @ [CHR 0x27] @ ''t have associated Port.''))
              | port_uuid # _ \<Rightarrow>
                  ebind (eget (\<lambda>s. m2m_get_parents (endpoint_port s) port_uuid)) (\<lambda>associated_endpoints.
                    if associated_endpoints \<noteq> []
                    then ethrow (InvalidValue ''Invalid value in Entity property, Port of specified entity already has an associated Endpoint.'')
                    else eret ()))))"

definition validate_add_endpoint :: "add_endpoint_request \<Rightarrow> ('h, unit) pnc_eff" where
  "validate_add_endpoint request =
     eseq (throw_if_fabric_not_in_model (req_fabric request))
     (eseq (throw_if_connected_entities_have_wrong_size (req_entities request))
       (if m_entity_role (hd (req_entities request)) = Some Initiator then validate_request_for_initiator request
        else if m_entity_role (hd (req_entities request)) = Some Target then validate_request_for_target request
        else ethrow (InvalidValue (quoted ''EntityRole'' @ '' should be '' @ quoted ''Target'' @ '' or '' @ quoted ''Initiator'' @ ''.''))))"

definition db_DEVICE :: string where "db_DEVICE = ''device_uuid''"

definition db_DEVICE_PORT :: string where "db_DEVICE_PORT = ''device_port_uuid''"

definition db_ENDPOINT_ROLE :: string where "db_ENDPOINT_ROLE = ''endpoint_role''"

definition db_PORT :: string where "db_PORT = ''port_uuid''"

fun put_values :: "(string \<times> string) list \<Rightarrow> aggregate \<Rightarrow> db_exception + aggregate" where
  "put_values [] a = Inr a"
| "put_values ((k, v) # kvs) a = (case entity_put k v a of Inl e \<Rightarrow> Inl e | Inr a' \<Rightarrow> put_values kvs a')"

text \<open>\<open>get_ports()[0]\<close> of a validated request; \<open>[]\<close> would be an access outside the array.\<close>

definition first_element :: "uuid list \<Rightarrow> ('h, uuid) pnc_eff" where
  "first_element us = (case us of [] \<Rightarrow> ethrow UndefinedBehaviour | u # _ \<Rightarrow> eret u)"

definition add_initiator_endpoint :: "naming \<Rightarrow> uuid \<Rightarrow> add_endpoint_request \<Rightarrow> ('h, uuid) pnc_eff" where
  "add_initiator_endpoint nm endpoint_v1 request =
     ebind (pnc_get fabrics (req_fabric request)) (\<lambda>_.
     ebind (first_element (req_ports request)) (\<lambda>port_uuid.
     ebind (pnc_get ports port_uuid) (\<lambda>p.
       let e = snd (stabilize_endpoint nm p (build_endpoint endpoint_v1 (req_fabric request) host_entity))
       in ebind (log_and_add endpoints endpoints_update e) (\<lambda>endpoint_uuid.
          eseq (link_endpoint_port endpoint_uuid (get_uuid p))
          (eseq (pnc_entity ''endpoint'' endpoint_uuid (put_values [(db_ENDPOINT_ROLE, ''Initiator''), (db_PORT, get_uuid p)]))
          (eseq (pnc_entity ''fabric'' (req_fabric request) (agg_append db_ENDPOINTS endpoint_uuid))
            (eret (get_uuid e))))))))"

definition add_target_endpoint :: "naming \<Rightarrow> uuid \<Rightarrow> add_endpoint_request \<Rightarrow> ('h, uuid) pnc_eff" where
  "add_target_endpoint nm endpoint_v1 request =
     ebind (pnc_get fabrics (req_fabric request)) (\<lambda>_.
     ebind (opt_value (m_entity (hd (req_entities request)))) (\<lambda>connected_device_uuid.
     ebind (get_ports_by_device_uuid connected_device_uuid) (\<lambda>ports_uuids.
     ebind (first_element ports_uuids) (\<lambda>port_uuid.
     ebind (pnc_get ports port_uuid) (\<lambda>p.
       let e = snd (stabilize_endpoint nm p (build_endpoint endpoint_v1 (req_fabric request) (device_entity connected_device_uuid)))
       in ebind (log_and_add endpoints endpoints_update e) (\<lambda>endpoint_uuid.
          eseq (link_endpoint_port endpoint_uuid port_uuid)
          (eseq (pnc_entity ''endpoint'' endpoint_uuid (put_values [(db_DEVICE, connected_device_uuid), (db_DEVICE_PORT, get_uuid p),
                   (db_ENDPOINT_ROLE, ''Target'')]))
          (eseq (pnc_entity ''fabric'' (req_fabric request) (agg_append db_ENDPOINTS endpoint_uuid))
            (eret (get_uuid e))))))))))"

text \<open>The response carries the UUID of the endpoint, and is empty for a role that validation rejects.\<close>

definition add_endpoint :: "naming \<Rightarrow> uuid \<Rightarrow> add_endpoint_request \<Rightarrow> ('h, uuid) pnc_eff" where
  "add_endpoint nm endpoint_v1 request =
     eseq (validate_add_endpoint request)
       (if m_entity_role (hd (req_entities request)) = Some Initiator then add_initiator_endpoint nm endpoint_v1 request
        else if m_entity_role (hd (req_entities request)) = Some Target then add_target_endpoint nm endpoint_v1 request
        else eret [])"

subsection \<open>DeleteEndpoint\<close>

definition throw_if_endpoint_in_zone :: "uuid \<Rightarrow> ('h, unit) pnc_eff" where
  "throw_if_endpoint_in_zone endpoint_uuid =
     ebind (is_bound_to_zone endpoint_uuid) (\<lambda>bound.
       if bound then ethrow (InvalidValue (''Can'' @ [CHR 0x27] @ ''t delete endpoint. Remove it from a zone first.'')) else eret ())"

definition remove_target_endpoint_association_with_port :: "endpoint \<Rightarrow> ('h, unit) pnc_eff" where
  "remove_target_endpoint_association_with_port e =
     (case m_connected_entities e of
        [] \<Rightarrow> ethrow UndefinedBehaviour
      | c # _ \<Rightarrow>
          ebind (opt_value (m_entity c)) (\<lambda>connected_device_uuid.
          ebind (get_ports_by_device_uuid connected_device_uuid)
            (efor (unlink_endpoint_port (get_uuid e)))))"

definition remove_initiator_endpoint_association_with_port :: "endpoint \<Rightarrow> ('h, unit) pnc_eff" where
  "remove_initiator_endpoint_association_with_port e =
     ebind (eget (\<lambda>s. get_ports_uuids_by_endpoint_uuid s (get_uuid e))) (efor (unlink_endpoint_port (get_uuid e)))"

definition delete_endpoint :: "uuid \<Rightarrow> ('h, unit) pnc_eff" where
  "delete_endpoint endpoint_uuid =
     ebind (pnc_get endpoints endpoint_uuid) (\<lambda>e.
     eseq (throw_if_endpoint_in_zone endpoint_uuid)
     (ebind (endpoint_is_target endpoint_uuid) (\<lambda>target.
     eseq (if target then remove_target_endpoint_association_with_port e else remove_initiator_endpoint_association_with_port e)
     (ebind (front_key fabrics) (\<lambda>fabric_uuid.
     eseq (pnc_entity ''fabric'' fabric_uuid (entity_del endpoint_uuid))
     (eseq (pnc_entity_remove ''endpoint'' endpoint_uuid)
       (emodify (\<lambda>s. s\<lparr> endpoints := snd (manager_remove_entry endpoint_uuid (endpoints s)) \<rparr>))))))))"

subsection \<open>At most one endpoint per port\<close>

definition same_ports :: "'h pnc \<Rightarrow> 'h pnc \<Rightarrow> bool" where
  "same_ports s s' \<longleftrightarrow> endpoint_port s' = endpoint_port s"

definition fewer_ports :: "'h pnc \<Rightarrow> 'h pnc \<Rightarrow> bool" where
  "fewer_ports s s' \<longleftrightarrow> set (endpoint_port s') \<subseteq> set (endpoint_port s)"

interpretation sp: effect_frame "same_ports :: 'h pnc \<Rightarrow> 'h pnc \<Rightarrow> bool"
  by unfold_locales (auto simp: same_ports_def)

interpretation fp: effect_frame "fewer_ports :: 'h pnc \<Rightarrow> 'h pnc \<Rightarrow> bool"
  by unfold_locales (auto simp: fewer_ports_def)

lemma same_ports_leaves: "leaves same_ports m \<Longrightarrow> leaves fewer_ports m"
  by (simp add: leaves_def same_ports_def fewer_ports_def)

lemma entity_same_ports: "leaves same_ports (pnc_entity nm u f)" "leaves same_ports (pnc_entity_remove nm u)"
  by (auto simp: leaves_def same_ports_def pnc_entity_def pnc_entity_remove_def split: prod.split sum.split)

lemma get_same_ports: "leaves same_ports (pnc_get table u)" "leaves same_ports (opt_value x)" "leaves same_ports (front_key table2)"
  by (rule sp.leaves_quiet; auto simp: pnc_get_def opt_value_def front_key_def eff_simps split: sum.split option.split list.split)+

lemma reads_basics:
  "leaves (=) (pnc_get table u)" "leaves (=) (opt_value x)" "leaves (=) (eget f)" "leaves (=) (eret a)" "leaves (=) (ethrow err)"
  by (auto simp: leaves_eq_iff pnc_get_def opt_value_def split: sum.split option.split)

lemma reads_efor_concat: "(\<And>x. leaves (=) (body x)) \<Longrightarrow> leaves (=) (efor_concat body xs)"
  by (induction xs) (simp_all add: reads.leaves_ebind)

lemma device_ports_quiet: "leaves (=) (get_ports_by_device_uuid u)"
  unfolding get_ports_by_device_uuid_def by (intro reads.leaves_ebind reads_basics reads_efor_concat)

lemma device_ports_same_ports: "leaves same_ports (get_ports_by_device_uuid u)"
  by (rule sp.leaves_quiet) (simp add: device_ports_quiet[unfolded leaves_eq_iff])

lemma unlink_fewer_ports: "leaves fewer_ports (unlink_endpoint_port e p)"
  using set_remove_first_subset
  by (fastforce simp: leaves_def fewer_ports_def unlink_endpoint_port_def m2m_remove_entry_def)

lemma delete_endpoint_ports: "leaves fewer_ports (delete_endpoint u)"
  unfolding delete_endpoint_def throw_if_endpoint_in_zone_def is_bound_to_zone_def endpoint_is_target_def
    remove_target_endpoint_association_with_port_def remove_initiator_endpoint_association_with_port_def
  by (auto intro!: fp.leaves_ebind fp.leaves_eseq fp.leaves_efor fp.leaves_emodify fp.leaves_eret fp.leaves_ethrow fp.leaves_eget
      get_same_ports[THEN same_ports_leaves] entity_same_ports[THEN same_ports_leaves] device_ports_same_ports[THEN same_ports_leaves]
      unlink_fewer_ports simp: fewer_ports_def split: list.split)

lemma validate_add_quiet: "leaves (=) (validate_add_endpoint r)"
  unfolding validate_add_endpoint_def throw_if_fabric_not_in_model_def throw_if_connected_entities_have_wrong_size_def
    validate_request_for_initiator_def validate_request_for_target_def
  by (auto intro!: reads.leaves_ebind reads.leaves_eseq reads.leaves_efor reads_basics device_ports_quiet split: option.split list.split)

text \<open>A new endpoint is linked to one port, or the links stay as they are.\<close>

lemma registered_endpoint_ports:
  "endpoint_port (snd (ebind (log_and_add endpoints endpoints_update e) (\<lambda>u. eseq (link_endpoint_port u p) (n u)) s)) \<in>
     {endpoint_port s, m2m_add_entry (get_uuid e) p [] (endpoint_port s)}"
  if "\<And>u. leaves same_ports (n u)"
proof -
  have n: "endpoint_port (snd (n u t)) = endpoint_port t" for u t
    using that[of u] by (simp add: leaves_def same_ports_def)
  show ?thesis
    by (auto simp: eff_simps log_and_add_def link_endpoint_port_def n split: prod.split sum.split)
qed

lemma registered_in_range:
  "(\<And>u. leaves same_ports (n u)) \<Longrightarrow>
   endpoint_port (snd (ebind (log_and_add endpoints endpoints_update e) (\<lambda>u. eseq (link_endpoint_port u p) (n u)) s))
     \<in> {endpoint_port s} \<union> range (\<lambda>u. m2m_add_entry u p [] (endpoint_port s))"
  using registered_endpoint_ports[of n e p s] by auto

definition own_port :: "'h pnc \<Rightarrow> uuid \<Rightarrow> bool" where
  "own_port s u \<longleftrightarrow> (\<forall>p. find_entry (ports s) u = Some p \<longrightarrow> get_uuid p = u)"

definition one_endpoint :: "m2m \<Rightarrow> bool" where
  "one_endpoint t \<longleftrightarrow> (\<forall>d e p g h. (d, p, g) \<in> set t \<longrightarrow> (e, p, h) \<in> set t \<longrightarrow> d = e)"

lemma one_endpoint_add: "\<lbrakk>one_endpoint t; m2m_get_parents t p = []\<rbrakk> \<Longrightarrow> one_endpoint (m2m_add_entry e p [] t)"
  using set_m2m_get_parents[of t p] by (fastforce simp: one_endpoint_def m2m_add_entry_def set_insort_insert)

lemma pnc_get_bind:
  "find_entry (table s) u = Some x \<Longrightarrow> ebind (pnc_get table u) f s = f x s"
  "find_entry (table s) u = None \<Longrightarrow> ebind (pnc_get table u) f s = (Inl (ModelError (InvalidUuid EntryNotFound u)), s)"
  by (simp_all add: ebind_apply pnc_get_def get_entry_def)

lemma opt_value_eret: "opt_value (Some x) = eret x"
  by (simp add: fun_eq_iff opt_value_def)

lemma returned_bind: "m s = (Inr x, s') \<Longrightarrow> ebind m f s = f x s'"
  by (simp add: ebind_apply)

lemma update_first_const: "find P xs = Some x \<Longrightarrow> update_first P f xs = update_first P (\<lambda>_. f x) xs"
  by (induction xs) (auto split: if_splits)

lemma register_tail:
  "leaves same_ports (eseq (pnc_entity n1 u1 f1) (eseq (pnc_entity n2 u2 f2) (eret r)))"
  by (intro sp.leaves_eseq entity_same_ports sp.leaves_eret)

lemma initiator_request_ok:
  assumes "fst (validate_request_for_initiator r s) = Inr ()"
  obtains q where "req_ports r = [q]" "m2m_get_parents (endpoint_port s) q = []"
  using assms
  by (cases "req_ports r") (auto simp: validate_request_for_initiator_def eff_simps pnc_get_def split: if_splits sum.splits)

lemma target_request_ok:
  assumes "fst (validate_request_for_target r s) = Inr ()"
  obtains d q qs where "m_entity (hd (req_entities r)) = Some d" "get_ports_by_device_uuid d s = (Inr (q # qs), s)"
    "m2m_get_parents (endpoint_port s) q = []"
proof -
  obtain d where d: "m_entity (hd (req_entities r)) = Some d"
    using assms by (auto simp: validate_request_for_target_def split: option.splits)
  obtain x where x: "get_ports_by_device_uuid d s = (x, s)"
    using device_ports_quiet[of d, where ?'a = 'a, unfolded leaves_eq_iff] by (metis prod.collapse)
  from assms d x obtain q qs where "x = Inr (q # qs)" "m2m_get_parents (endpoint_port s) q = []"
    by (auto simp: validate_request_for_target_def eff_simps split: if_splits sum.splits list.splits)
  with d x that show ?thesis by blast
qed

lemma add_endpoint_one_endpoint:
  assumes "one_endpoint (endpoint_port s)" and "\<forall>q \<in> set (req_ports r). own_port s q"
  shows "one_endpoint (endpoint_port (snd (add_endpoint nm v1 r s)))"
proof (cases "fst (validate_add_endpoint r s) = Inr ()")
  case False
  obtain x where x: "validate_add_endpoint r s = (x, s)"
    using validate_add_quiet[of r, where ?'a = 'a, unfolded leaves_eq_iff] by (metis prod.collapse)
  with False obtain err where "x = Inl err" by (cases x) auto
  with x assms(1) show ?thesis by (simp add: add_endpoint_def eff_simps)
next
  case True
  have v: "validate_add_endpoint r s = (Inr (), s)"
    using True validate_add_quiet[of r, where ?'a = 'a, unfolded leaves_eq_iff] by (metis prod.collapse)
  have grows: "one_endpoint t" if "t \<in> {endpoint_port s, m2m_add_entry u q [] (endpoint_port s)}" "m2m_get_parents (endpoint_port s) q = []" for t u q
    using that assms(1) one_endpoint_add by auto
  let ?role = "m_entity_role (hd (req_entities r))"
  consider "?role = Some Initiator" | "?role = Some Target" | "?role \<noteq> Some Initiator" "?role \<noteq> Some Target" by blast
  then show ?thesis
  proof cases
    case 1
    with v have "fst (validate_request_for_initiator r s) = Inr ()"
      by (auto simp: validate_add_endpoint_def throw_if_fabric_not_in_model_def throw_if_connected_entities_have_wrong_size_def eff_simps split: if_splits)
    then obtain q where q: "req_ports r = [q]" "m2m_get_parents (endpoint_port s) q = []" by (rule initiator_request_ok)
    then have own: "get_uuid p = q" if "find_entry (ports s) q = Some p" for p using assms(2) that by (simp add: own_port_def)
    have "endpoint_port (snd (add_initiator_endpoint nm v1 r s)) \<in> {endpoint_port s} \<union> range (\<lambda>u. m2m_add_entry u q [] (endpoint_port s))"
    proof (cases "find_entry (fabrics s) (req_fabric r) = None \<or> find_entry (ports s) q = None")
      case True
      then show ?thesis
        by (cases "find_entry (fabrics s) (req_fabric r)") (simp_all add: add_initiator_endpoint_def pnc_get_bind first_element_def q(1))
    next
      case False
      then obtain fb p where f: "find_entry (fabrics s) (req_fabric r) = Some fb" "find_entry (ports s) q = Some p" by auto
      show ?thesis
        unfolding add_initiator_endpoint_def pnc_get_bind(1)[where table = fabrics, OF f(1)] pnc_get_bind(1)[where table = ports, OF f(2)]
          first_element_def q(1) list.case ebind_eret Let_def own[OF f(2)]
        by (rule registered_in_range) (rule register_tail)
    qed
    with grows q(2) v 1 show ?thesis by (auto simp: add_endpoint_def eff_simps)
  next
    case 2
    with v have "fst (validate_request_for_target r s) = Inr ()"
      by (auto simp: validate_add_endpoint_def throw_if_fabric_not_in_model_def throw_if_connected_entities_have_wrong_size_def eff_simps split: if_splits)
    then obtain d q qs where q: "m_entity (hd (req_entities r)) = Some d" "get_ports_by_device_uuid d s = (Inr (q # qs), s)"
        "m2m_get_parents (endpoint_port s) q = []" by (rule target_request_ok)
    have "endpoint_port (snd (add_target_endpoint nm v1 r s)) \<in> {endpoint_port s} \<union> range (\<lambda>u. m2m_add_entry u q [] (endpoint_port s))"
    proof (cases "find_entry (fabrics s) (req_fabric r) = None \<or> find_entry (ports s) q = None")
      case True
      then show ?thesis
        by (cases "find_entry (fabrics s) (req_fabric r)")
           (simp_all add: add_target_endpoint_def pnc_get_bind opt_value_eret returned_bind[where m = "get_ports_by_device_uuid d" and s = s, OF q(2)] first_element_def q(1))
    next
      case False
      then obtain fb p where f: "find_entry (fabrics s) (req_fabric r) = Some fb" "find_entry (ports s) q = Some p" by auto
      show ?thesis
        unfolding add_target_endpoint_def pnc_get_bind(1)[where table = fabrics, OF f(1)] opt_value_eret q(1) returned_bind[where m = "get_ports_by_device_uuid d" and s = s, OF q(2)]
          first_element_def list.case ebind_eret pnc_get_bind(1)[where table = ports, OF f(2)] Let_def
        by (rule registered_in_range) (rule register_tail)
    qed
    with grows q(3) v 2 show ?thesis by (auto simp: add_endpoint_def eff_simps)
  next
    case 3
    with v assms(1) show ?thesis by (simp add: add_endpoint_def eff_simps)
  qed
qed

text \<open>The endpoint commands, one after the other; a request names a port by its own UUID.\<close>

inductive endpoint_service :: "naming \<Rightarrow> 'h pnc \<Rightarrow> 'h pnc \<Rightarrow> bool" for nm where
  service_add: "\<forall>q \<in> set (req_ports r). own_port s q \<Longrightarrow> endpoint_service nm s (snd (add_endpoint nm v1 r s))"
| service_delete: "endpoint_service nm s (snd (delete_endpoint u s))"

lemma endpoint_service_one_endpoint:
  "\<lbrakk>endpoint_service nm s s'; one_endpoint (endpoint_port s)\<rbrakk> \<Longrightarrow> one_endpoint (endpoint_port s')"
proof (induction rule: endpoint_service.induct)
  case (service_add r s v1)
  then show ?case by (intro add_endpoint_one_endpoint)
next
  case (service_delete s u)
  have "set (endpoint_port (snd (delete_endpoint u s))) \<subseteq> set (endpoint_port s)"
    using delete_endpoint_ports[of u, where ?'a = 'a] by (simp add: leaves_def fewer_ports_def)
  with service_delete show ?case unfolding one_endpoint_def by blast
qed

subsection \<open>Properties\<close>

text \<open>
  C12: Whatever sequence of endpoint commands the agent serves, with whatever outcome, a port
  never belongs to two endpoints.
\<close>

theorem endpoint_service_keeps_one_endpoint:
  assumes "(endpoint_service nm)\<^sup>*\<^sup>* s s'" and "one_endpoint (endpoint_port s)"
  shows "one_endpoint (endpoint_port s')"
  using assms by (induction rule: rtranclp_induct) (auto intro: endpoint_service_one_endpoint)

text \<open>
  The endpoint of a device that was taken out cannot be deleted. \<open>degenerate_endpoint\<close> clears
  the entity of the endpoint and leaves its role, so \<open>DeleteEndpoint\<close> takes the path for
  targets and reads the missing entity: it ends with \<open>bad_optional_access\<close> and changes
  nothing, and the port stays taken.
\<close>

theorem degenerated_endpoint_undeletable:
  assumes "find (any_uuid_matches u) (m_manager_data (endpoints s)) = Some e" and "uuid_matches u e"
    and "m_connected_entities e = c # cs" and "m_entity_role c = Some Target" and "m_entity c = Some d" and "d \<in> set devices"
    and "m2m_get_parents (zone_endpoint s) u = []"
    and "degenerate_endpoint u devices s = (Inr (), s')"
  shows "delete_endpoint u s' = (Inl BadOptionalAccess, s') \<and> endpoint_port s' = endpoint_port s"
proof -
  let ?f = "\<lambda>e. e\<lparr> m_status := healthy State_Disabled,
                m_connected_entities := map (\<lambda>c. if \<exists>d \<in> set devices. m_entity c = Some d then c\<lparr> m_entity := None \<rparr> else c)
                                            (m_connected_entities e) \<rparr>"
  let ?xs = "update_first (any_uuid_matches u) (\<lambda>_. ?f e) (m_manager_data (endpoints s))"
  have s': "endpoints s' = (endpoints s)\<lparr> m_manager_data := ?xs \<rparr>" "zone_endpoint s' = zone_endpoint s" "endpoint_port s' = endpoint_port s"
    using assms(8) assms(1) update_first_const[OF assms(1), of ?f]
    by (auto simp: degenerate_endpoint_def eff_simps pnc_edit_def get_entry_reference_def pnc_get_def pnc_send_event_def split: sum.splits)
  have "find (uuid_matches u) ?xs = Some (?f e)"
    by (rule find_update_first_stronger[OF assms(1) uuid_matches_any]) (use assms(2) in \<open>simp_all add: uuid_matches_def\<close>)
  then have e': "find_entry (endpoints s') u = Some (?f e)" by (simp add: find_entry_def s'(1))
  have "is_target (?f e)" using assms(3,4) by (auto simp: is_target_def is_in_role_def)
  moreover have "m_entity (hd (m_connected_entities (?f e))) = None" "m_connected_entities (?f e) \<noteq> []" using assms(3,5,6) by auto
  ultimately show ?thesis
    using assms(7) s'(2,3)
    by (auto simp: delete_endpoint_def pnc_get_bind(1)[where table = endpoints, OF e'] throw_if_endpoint_in_zone_def is_bound_to_zone_def eff_simps endpoint_is_target_def
        remove_target_endpoint_association_with_port_def opt_value_def assms(3) pnc_get_def get_entry_def e' split: list.split)
qed

text \<open>An agent with a fabric and a free upstream port.\<close>

definition host_model :: "unit pnc" where
  "host_model = (empty_pnc ())\<lparr>
     fabrics := \<lparr> m_manager_data = [new_resource ''f'' [] ''None''], m_current_epoch = 1 \<rparr>,
     ports := \<lparr> m_manager_data = [(new_port ''p'' ''sw'')\<lparr> m_port_type := Some UpstreamPort \<rparr>], m_current_epoch = 1 \<rparr> \<rparr>"

definition host_request :: add_endpoint_request where
  "host_request = \<lparr> req_fabric = ''f'', req_ports = [''p''], req_entities = [host_entity] \<rparr>"

definition plain_naming :: naming where
  "plain_naming = \<lparr> make_v5_uuid = (\<lambda>namespace key. key), service_uuid = [], key_agent_id = ''a'' \<rparr>"

theorem endpoint_service_keeps_one_endpoint_witness:
  "map (fst \<circ> snd) (endpoint_port (snd (add_endpoint plain_naming ''v'' host_request host_model))) = [''p'']
     \<and> one_endpoint (endpoint_port (snd (add_endpoint plain_naming ''v'' host_request host_model)))"
proof
  show "map (fst \<circ> snd) (endpoint_port (snd (add_endpoint plain_naming ''v'' host_request host_model))) = [''p'']" by code_simp
  have "own_port host_model ''p''"
    by (simp add: own_port_def host_model_def find_entry_def uuid_matches_def new_port_def resource.defs port.defs new_resource_def get_uuid_def)
  then have "endpoint_service plain_naming host_model (snd (add_endpoint plain_naming ''v'' host_request host_model))"
    by (intro endpoint_service.service_add) (simp add: host_request_def)
  then show "one_endpoint (endpoint_port (snd (add_endpoint plain_naming ''v'' host_request host_model)))"
    by (rule endpoint_service_keeps_one_endpoint[where nm = plain_naming, OF r_into_rtranclp])
       (simp add: one_endpoint_def host_model_def empty_pnc_def)
qed

theorem degenerated_endpoint_undeletable_witness:
  "fst (delete_endpoint ''e'' (snd (degenerate_endpoint ''e'' [''d''] race_model))) = Inl BadOptionalAccess"
proof -
  let ?c = "\<lparr> m_entity_role = Some Target, m_entity = Some ''d'' \<rparr>"
  let ?e = "(new_endpoint ''e'' ''f'')\<lparr> m_status := healthy State_Enabled, m_connected_entities := [?c] \<rparr>"
  have "delete_endpoint ''e'' (snd (degenerate_endpoint ''e'' [''d''] race_model))
      = (Inl BadOptionalAccess, snd (degenerate_endpoint ''e'' [''d''] race_model))
     \<and> endpoint_port (snd (degenerate_endpoint ''e'' [''d''] race_model)) = endpoint_port race_model"
  proof (rule degenerated_endpoint_undeletable)
    show "degenerate_endpoint ''e'' [''d''] race_model = (Inr (), snd (degenerate_endpoint ''e'' [''d''] race_model))"
      by (rule fst_returns) code_simp
    show "find (any_uuid_matches ''e'') (m_manager_data (endpoints race_model)) = Some ?e"
      by (simp add: race_model_def any_uuid_matches_def new_endpoint_def resource.defs endpoint.defs new_resource_def)
    show "m_entity_role ?c = Some Target" "m_entity ?c = Some ''d''" by (rule connected_entity.select_convs)+
  qed (simp_all add: race_model_def empty_pnc_def uuid_matches_def new_endpoint_def resource.defs endpoint.defs new_resource_def)
  then show ?thesis by simp
qed

end
