(* ===== verification/Id_Policy.thy ===== *)
theory Id_Policy
  imports File_Database "HOL-Library.AList"
begin

text \<open>
  The numbers the REST service gives to resources (\<open>id_policy.hpp\<close>, \<open>id_memoizer.cpp\<close>). A number
  is unique among the resources of one kind, or among those with one parent. The memoizer
  holds the numbers of live resources; the database keeps the number of every resource and
  the last number given out, so that numbers survive a restart of the service. The location
  of the database and the time are arguments. Assertions, which are left out of release
  builds, are not modelled; \<open>reset\<close>, \<open>clear\<close> and \<open>remove\<close>, which only tests call, are not either.
\<close>

subsection \<open>Numbers of live resources\<close>

datatype numbering_zone = SHARED | PARENT_SPACE

type_synonym id_map = "(u64 \<times> uuid) list"
type_synonym allocated = "uuid \<rightharpoonup> id_map"

definition is_allocated_for :: "uuid \<Rightarrow> u64 \<Rightarrow> allocated \<Rightarrow> uuid" where
  "is_allocated_for parent i ids =
     (case ids parent of
        Some m \<Rightarrow> (case map_of m i of Some u \<Rightarrow> u | None \<Rightarrow> [])
      | None \<Rightarrow> [])"

definition allocate :: "uuid \<Rightarrow> uuid \<Rightarrow> u64 \<Rightarrow> allocated \<Rightarrow> bool \<times> allocated" where
  "allocate parent u i ids =
     (if is_allocated_for parent i ids \<noteq> [] then (False, ids)
      else (True, ids(parent \<mapsto> AList.update i u (case ids parent of Some m \<Rightarrow> m | None \<Rightarrow> []))))"

definition remove_allocated :: "uuid \<Rightarrow> u64 \<Rightarrow> allocated \<Rightarrow> bool \<times> allocated" where
  "remove_allocated parent i ids =
     (case ids parent of
        Some m \<Rightarrow>
          (if i \<in> fst ` set m
           then let m' = AList.delete i m
                in (True, if m' = [] then ids(parent := None) else ids(parent \<mapsto> m'))
           else (False, ids))
      | None \<Rightarrow> (False, ids))"

subsection \<open>The policy\<close>

text \<open>The files of the database and, by the name of the kind, the memoizers.\<close>

record id_state =
  id_files :: files
  id_memos :: "string \<Rightarrow> allocated"

record id_policy =
  policy_component :: string
  policy_zone :: numbering_zone
  policy_location :: string

text \<open>A stored number may not be one; the search may not end.\<close>

datatype id_error = BadNumber number_error | EndlessSearch

definition LAST :: string where
  "LAST = ''last''"

definition policy_db :: "id_policy \<Rightarrow> fdb" where
  "policy_db p = fdb_create (policy_component p) True (policy_location p)"

definition zone_parent :: "id_policy \<Rightarrow> uuid \<Rightarrow> uuid" where
  "zone_parent p parent_uuid = (if policy_zone p = SHARED then [] else parent_uuid)"

definition id_key :: "uuid \<Rightarrow> uuid \<Rightarrow> string" where
  "id_key u parent = uuid_key_serialize \<lparr> uk_uuid = u, uk_parent = parent \<rparr>"

definition get_id_value :: "fdb \<Rightarrow> string \<Rightarrow> files \<Rightarrow> number_error + u64 option" where
  "get_id_value db key fs =
     (case read_file (full_name db key) fs of None \<Rightarrow> Inr None | Some data \<Rightarrow> id_value_unserialize data)"

text \<open>The loop that looks for a number that is free or already that of the resource.\<close>

fun search_id :: "nat \<Rightarrow> (u64 \<Rightarrow> uuid) \<Rightarrow> uuid \<Rightarrow> u64 \<Rightarrow> u64 \<Rightarrow> u64 option" where
  "search_id 0 allocated_for u i next_free = None"
| "search_id (Suc n) allocated_for u i next_free =
     (if allocated_for i = [] then Some i
      else if allocated_for i = u then Some i
      else search_id n allocated_for u (next_free + 1) (next_free + 1))"

text \<open>
  One round for a number from the database, one for every number in use and one more: a search
  that has not ended by then meets only numbers in use.
\<close>

definition search_rounds :: "uuid \<Rightarrow> allocated \<Rightarrow> nat" where
  "search_rounds parent ids = (case ids parent of Some m \<Rightarrow> length m | None \<Rightarrow> 0) + 2"

text \<open>The end of \<open>get_id\<close>: the number is allocated and stored, as the last one too when it is the largest
  or the stored last number is not valid.\<close>

definition record_id :: "id_policy \<Rightarrow> int \<Rightarrow> uuid \<Rightarrow> uuid \<Rightarrow> u64 \<Rightarrow> u64 \<Rightarrow> id_state \<Rightarrow> id_state" where
  "record_id p now u parent last_id i s =
     (let db = policy_db p;
          last_key = id_key LAST parent;
          s1 = s\<lparr> id_memos := (id_memos s)(policy_component p :=
                   snd (allocate parent u i (id_memos s (policy_component p)))) \<rparr>;
          s2 = (if last_id < i \<or> fdb_get_validity now db last_key NEVER (id_files s1) \<noteq> VALID
                then s1\<lparr> id_files := snd (fdb_put now db last_key (id_value_serialize i) (id_files s1)) \<rparr>
                else s1)
      in s2\<lparr> id_files := snd (fdb_put now db (id_key u parent) (id_value_serialize i) (id_files s2)) \<rparr>)"

definition get_id :: "id_policy \<Rightarrow> int \<Rightarrow> uuid \<Rightarrow> uuid \<Rightarrow> (id_state, id_error, u64) eff" where
  "get_id p now u parent_uuid s =
     (let parent = zone_parent p parent_uuid;
          ids = id_memos s (policy_component p)
      in case get_id_value (policy_db p) (id_key LAST parent) (id_files s) of
           Inl e \<Rightarrow> (Inl (BadNumber e), s)
         | Inr stored_last \<Rightarrow>
             (let last_id = (case stored_last of Some i \<Rightarrow> i | None \<Rightarrow> 0);
                  next_free = last_id + 1
              in case get_id_value (policy_db p) (id_key u parent) (id_files s) of
                   Inl e \<Rightarrow> (Inl (BadNumber e), s)
                 | Inr stored \<Rightarrow>
                     (case search_id (search_rounds parent ids) (\<lambda>i. is_allocated_for parent i ids) u
                             (case stored of Some i \<Rightarrow> i | None \<Rightarrow> next_free) next_free of
                        None \<Rightarrow> (Inl EndlessSearch, s)
                      | Some i \<Rightarrow> (Inr i, record_id p now u parent last_id i s))))"

definition invalidate_last :: "id_policy \<Rightarrow> int \<Rightarrow> uuid \<Rightarrow> files \<Rightarrow> nat \<times> files" where
  "invalidate_last p now parent_uuid fs =
     fdb_cleanup now (fdb_create ''*parent'' True (policy_location p))
       (resource_last_key_unserialize (zone_parent p parent_uuid)) NEVER fs"

definition purge :: "id_policy \<Rightarrow> int \<Rightarrow> uuid \<Rightarrow> uuid \<Rightarrow> (id_state, id_error, unit) eff" where
  "purge p now u parent_uuid s =
     (let parent = zone_parent p parent_uuid;
          db = policy_db p;
          entity_key = id_key u parent
      in case get_id_value db entity_key (id_files s) of
           Inl e \<Rightarrow> (Inl (BadNumber e), s)
         | Inr None \<Rightarrow> (Inr (), s)
         | Inr (Some i) \<Rightarrow>
             (let fs1 = snd (invalidate_last p now u (id_files s));
                  fs2 = snd (fdb_invalidate now db entity_key fs1)
              in (Inr (), s\<lparr> id_files := fs2,
                    id_memos := (id_memos s)(policy_component p :=
                      snd (remove_allocated parent i (id_memos s (policy_component p)))) \<rparr>)))"

subsection \<open>The memoizer\<close>

lemma allocated_allocate:
  "is_allocated_for q j (snd (allocate parent u i ids)) =
     (if q = parent \<and> j = i \<and> is_allocated_for parent i ids = [] then u else is_allocated_for q j ids)"
  by (auto simp: allocate_def is_allocated_for_def AList.update_conv' split: option.split)

lemma allocated_remove:
  "is_allocated_for q j (snd (remove_allocated parent i ids)) =
     (if q = parent \<and> j = i then [] else is_allocated_for q j ids)"
proof (cases "ids parent")
  case None
  then show ?thesis by (auto simp: remove_allocated_def is_allocated_for_def)
next
  case (Some m)
  have gone: "map_of m i = None" if "i \<notin> fst ` set m" using that by (simp add: map_of_eq_None_iff)
  have rest: "map_of m j = None" if "AList.delete i m = []" "j \<noteq> i"
    using that AList.delete_conv'[of i m] by (metis fun_upd_other map_of.simps(1))
  show ?thesis using Some gone rest
    by (auto simp: remove_allocated_def is_allocated_for_def AList.delete_conv' Let_def)
qed

subsection \<open>The search for a number\<close>

lemma search_id_sound: "search_id n f u i nf = Some j \<Longrightarrow> f j = [] \<or> f j = u"
  by (induction n arbitrary: i nf) (auto split: if_splits)

lemma search_id_first: "f i = [] \<or> f i = u \<Longrightarrow> search_id (Suc n) f u i nf = Some i"
  by auto

lemma search_id_None:
  "search_id n f u i nf = None \<Longrightarrow> \<forall>k < n - 1. f (nf + 1 + of_nat k) \<notin> {[], u}"
proof (induction n arbitrary: i nf)
  case (Suc n)
  then have rec: "search_id n f u (nf + 1) (nf + 1) = None" by (auto split: if_splits)
  have "f (nf + 1 + of_nat k) \<notin> {[], u}" if "k < n" for k
  proof (cases k)
    case 0
    with rec that show ?thesis by (cases n) (auto split: if_splits)
  next
    case (Suc k')
    with Suc.IH[OF rec] that have "f (nf + 1 + 1 + of_nat k') \<notin> {[], u}" by auto
    with Suc show ?thesis by (simp add: algebra_simps)
  qed
  then show ?case by simp
qed simp

text \<open>With fewer numbers in use than there are, the rounds are enough.\<close>

lemma search_id_ends:
  assumes "(case ids parent of Some m \<Rightarrow> length m | None \<Rightarrow> 0) + 1 < 2 ^ 64"
  shows "search_id (search_rounds parent ids) (\<lambda>i. is_allocated_for parent i ids) u i nf \<noteq> None"
proof
  define m where "m = (case ids parent of Some m \<Rightarrow> m | None \<Rightarrow> [])"
  let ?f = "\<lambda>i. is_allocated_for parent i ids" and ?g = "\<lambda>k. nf + 1 + of_nat k :: u64"
  have len: "length m + 1 < 2 ^ 64" and rounds: "search_rounds parent ids = length m + 2"
    using assms by (auto simp: m_def search_rounds_def split: option.splits)
  have f: "?f j = (case map_of m j of Some u \<Rightarrow> u | None \<Rightarrow> [])" for j
    by (simp add: is_allocated_for_def m_def split: option.split)
  assume "search_id (search_rounds parent ids) ?f u i nf = None"
  then have "\<forall>k < length m + 1. ?f (?g k) \<noteq> []"
    using search_id_None[of "length m + 2" ?f u i nf] by (simp add: rounds)
  then have "?g ` {..< length m + 1} \<subseteq> fst ` set m"
    by (fastforce simp: f map_of_eq_None_iff split: option.splits dest: map_of_SomeD)
  then have "card (?g ` {..< length m + 1}) \<le> length m"
    using card_mono[of "fst ` set m" "?g ` {..< length m + 1}"] card_length[of "map fst m"] by simp
  moreover have "inj_on ?g {..< length m + 1}"
  proof (rule inj_onI)
    fix a b assume "a \<in> {..< length m + 1}" "b \<in> {..< length m + 1}" "?g a = ?g b"
    with len show "a = b" by (simp add: of_nat_eq_iff word_of_nat_eq_iff take_bit_nat_eq_self)
  qed
  ultimately show False by (simp add: card_image)
qed

subsection \<open>Numbers in the database\<close>

text \<open>Names of resources as the agents use them: no character with a meaning in a file name.\<close>

definition clean_name :: "string \<Rightarrow> bool" where
  "clean_name u \<longleftrightarrow> u \<noteq> [] \<and> set u \<inter> {CHR ''.'', CHR ''/'', CHR '':''} = {} \<and> take 4 u \<noteq> LAST"

definition clean_policy :: "id_policy \<Rightarrow> bool" where
  "clean_policy p \<longleftrightarrow> clean_name (policy_component p) \<and> CHR ''*'' \<notin> set (policy_component p)"

lemma clean_nameD:
  "clean_name u \<Longrightarrow> u \<noteq> []" "clean_name u \<Longrightarrow> CHR ''.'' \<notin> set u" "clean_name u \<Longrightarrow> CHR ''/'' \<notin> set u"
  "clean_name u \<Longrightarrow> CHR '':'' \<notin> set u" "clean_name u \<Longrightarrow> take 4 u \<noteq> ''last''" "clean_name u \<Longrightarrow> u \<noteq> LAST"
  by (auto simp: clean_name_def LAST_def)

lemma id_value_back: "id_value_unserialize (id_value_serialize i) = Inr (if i = 0 then None else Some i)"
proof -
  have "stoul (to_string (unat i)) = Inr i"
    using stoul_to_string[of "unat i"] unsigned_less[of i] by simp
  then show ?thesis by (simp add: id_value_serialize_def id_value_unserialize_def)
qed

lemma length_to_string: "n < 10 ^ k \<Longrightarrow> 0 < k \<Longrightarrow> length (to_string n) \<le> k"
proof (induction k arbitrary: n)
  case (Suc k)
  show ?case
  proof (cases "n < 10")
    case True
    then show ?thesis by (subst to_string.simps) simp
  next
    case False
    with Suc.prems have "n div 10 < 10 ^ k" "0 < k" by (cases k; simp add: less_mult_imp_div_less)+
    with Suc.IH[of "n div 10"] False show ?thesis by (subst to_string.simps) simp
  qed
qed simp

lemma id_value_fits: "length (id_value_serialize i) < VALUE_LENGTH"
proof -
  have "unat i < 2 ^ 64" using unsigned_less[of i] by simp
  then have "unat i < 10 ^ 20" by (rule less_trans) simp
  then have "length (to_string (unat i)) \<le> 20" by (rule length_to_string) simp
  then show ?thesis by (simp add: id_value_serialize_def VALUE_LENGTH_def)
qed

lemma get_id_value_put:
  assumes "name_ok k"
  shows "get_id_value db k' (snd (fdb_put now db k (id_value_serialize i) fs)) =
    (if k' = k then Inr (if i = 0 then None else Some i) else get_id_value db k' fs)"
proof -
  have "full_name db k' = full_name db k \<longleftrightarrow> k' = k"
    using assms full_name_inj[of k' k db] full_name_Nil[of db k] full_name_Nil[of db k'] by metis
  with assms show ?thesis
    by (auto simp: get_id_value_def fdb_put_def save_file_def read_file_def id_value_fits id_value_back)
qed

lemma get_id_value_empty: "get_id_value db k [] = Inr None"
  by (simp add: get_id_value_def read_file_def)

lemma id_key_ok:
  "\<lbrakk>clean_name u \<or> u = LAST; parent = [] \<or> clean_name parent\<rbrakk> \<Longrightarrow> name_ok (id_key u parent)"
  by (auto simp: id_key_def uuid_key_serialize_def name_ok_def clean_name_def LAST_def)

lemma id_key_inj:
  assumes "clean_name u \<or> u = LAST" "parent = [] \<or> clean_name parent"
    and "clean_name v \<or> v = LAST" "q = [] \<or> clean_name q"
  shows "id_key u parent = id_key v q \<longleftrightarrow> u = v \<and> parent = q"
proof -
  have dots: "CHR ''.'' \<notin> set u" "CHR ''.'' \<notin> set v" "CHR ''.'' \<notin> set parent" "CHR ''.'' \<notin> set q"
    using assms by (auto simp: clean_name_def LAST_def)
  have sep: "a @ CHR ''.'' # b = c @ CHR ''.'' # d \<longleftrightarrow> a = c \<and> b = d"
    if "CHR ''.'' \<notin> set a" "CHR ''.'' \<notin> set c" for a b c d :: string
    using that by (metis append_same_eq drop_Suc_Cons drop0 append_eq_append_conv takeWhile_neq_append list.inject)
  show ?thesis using dots by (auto simp: id_key_def uuid_key_serialize_def sep)
qed

text \<open>Only names with a part after the first that starts like the last-number key are cleaned up.\<close>

lemma contains_last_step:
  assumes "contains ''.last'' (a @ CHR ''.'' # b)" and "CHR ''.'' \<notin> set a"
  shows "take 4 b = ''last'' \<or> contains ''.last'' b"
proof -
  from assms(1) obtain i where i: "take 5 (drop i (a @ CHR ''.'' # b)) = ''.last''"
    unfolding contains_iff matches_at_def by (auto simp del: drop_append take_append simp: eval_nat_numeral)
  consider "i < length a" | "i = length a" | j where "i = Suc (length a + j)"
    by (metis add_Suc_right less_iff_Suc_add linorder_neqE_nat)
  then show ?thesis
  proof cases
    case 1
    then have "drop i (a @ CHR ''.'' # b) = a ! i # drop (Suc i) a @ CHR ''.'' # b"
      by (simp add: Cons_nth_drop_Suc)
    with i have "take 5 (a ! i # drop (Suc i) a @ CHR ''.'' # b) = ''.last''" by (simp only:)
    then have "a ! i = CHR ''.''" by (simp add: numeral_eq_Suc)
    with 1 assms(2) show ?thesis by (metis nth_mem)
  next
    case 2
    with i show ?thesis by (simp add: numeral_eq_Suc)
  next
    case 3
    with i have "take 5 (drop j b) = ''.last''" by simp
    then show ?thesis by (auto simp: contains_iff matches_at_def numeral_eq_Suc)
  qed
qed

lemma no_last_single: "CHR ''.'' \<notin> set u \<Longrightarrow> \<not> contains ''.last'' u"
  by (auto simp: contains_split)

lemma last_key_contains: "resource_last_key_unserialize parent n \<noteq> None \<Longrightarrow> contains ''.last'' n"
proof -
  assume "resource_last_key_unserialize parent n \<noteq> None"
  then have "rfind_str ''.last'' n \<noteq> None" by (auto simp: resource_last_key_unserialize_def split: option.splits)
  then obtain i where "matches_at ''.last'' n i" by (auto simp: rfind_str_def find_None_iff simp del: upt_Suc)
  then show ?thesis by (auto simp: contains_iff)
qed

lemma entity_name_no_last:
  assumes "clean_name c" "clean_name u" "parent = [] \<or> clean_name parent"
  shows "\<not> contains ''.last'' (c @ ''.'' @ id_key u parent)"
proof -
  have u: "\<not> contains ''.last'' u" "take 4 u \<noteq> ''last''"
    using assms(2) by (simp_all add: no_last_single clean_nameD)
  have "\<not> contains ''.last'' (parent @ ''.'' @ u)" "take 4 (parent @ ''.'' @ u) \<noteq> ''last''" if "clean_name parent"
  proof -
    show "\<not> contains ''.last'' (parent @ ''.'' @ u)"
      using contains_last_step[of parent u] u that by (auto simp: clean_nameD)
    show "take 4 (parent @ ''.'' @ u) \<noteq> ''last''"
    proof (cases "4 \<le> length parent")
      case False
      then have "CHR ''.'' \<in> set (take 4 (parent @ ''.'' @ u))" by (auto simp: take_Cons')
      moreover have "CHR ''.'' \<notin> set ''last''" by simp
      ultimately show ?thesis by metis
    qed (use clean_nameD(5)[OF that] in simp)
  qed
  with u assms(3) have "\<not> contains ''.last'' (id_key u parent)" "take 4 (id_key u parent) \<noteq> ''last''"
    by (auto simp: id_key_def uuid_key_serialize_def)
  with contains_last_step[of c "id_key u parent"] assms(1) show ?thesis by (auto simp: clean_nameD)
qed

subsection \<open>What the operations do to stored numbers\<close>

lemma cleanup_entry_other:
  "f \<noteq> full_name db n \<Longrightarrow> map_of (snd (cleanup_entry now db interval n fs)) f = map_of fs f"
  by (auto simp: cleanup_entry_def Let_def invalidate_file_def remove_file_def map_of_filter_name
      split: entity_validity.split option.split)

lemma cleanup_other:
  "\<forall>n \<in> set ns. full_name db n \<noteq> f
   \<Longrightarrow> map_of (snd (foreach_process (cleanup_entry now db interval) ns num fs)) f = map_of fs f"
proof (induction ns arbitrary: num fs)
  case (Cons n ns)
  then show ?case using cleanup_entry_other[of f db n now interval fs] by (auto split: prod.split)
qed simp

lemma policy_db_fields:
  "clean_policy p \<Longrightarrow> fdb_name (policy_db p) = policy_component p"
  "fdb_path (policy_db p) = policy_location p" "m_with_policy (policy_db p)"
  "clean_policy p \<Longrightarrow> name_prefix (policy_db p) = policy_component p @ ''.''"
proof -
  have "fdb_name (policy_db p) = policy_component p \<and> policy_component p \<noteq> []" if "clean_policy p"
    using that by (cases "policy_component p") (auto simp: clean_policy_def clean_name_def policy_db_def fdb_create_def)
  then show "clean_policy p \<Longrightarrow> fdb_name (policy_db p) = policy_component p"
    and "clean_policy p \<Longrightarrow> name_prefix (policy_db p) = policy_component p @ ''.''"
    by (auto simp: name_prefix_def)
qed (simp_all add: policy_db_def fdb_create_def)

lemma invalidate_last_entity:
  assumes p: "clean_policy p" and u: "clean_name u" "parent = [] \<or> clean_name parent"
  shows "map_of (snd (invalidate_last p now v fs)) (full_name (policy_db p) (id_key u parent))
       = map_of fs (full_name (policy_db p) (id_key u parent))"
proof -
  let ?db = "fdb_create ''*parent'' True (policy_location p)"
  have db: "fdb_path ?db = policy_location p" "name_prefix ?db = []" by (simp_all add: fdb_create_def name_prefix_def)
  have f: "full_name (policy_db p) (id_key u parent)
      = policy_location p @ ''/'' @ (policy_component p @ ''.'' @ id_key u parent) @ EXT"
    using p id_key_ok[of u parent] u by (simp add: full_name_ok policy_db_fields)
  have "full_name ?db n \<noteq> full_name (policy_db p) (id_key u parent)"
    if "n \<in> set (foreach_names ?db (resource_last_key_unserialize q) fs)" for q n
  proof
    assume "full_name ?db n = full_name (policy_db p) (id_key u parent)"
    moreover from this f have "name_ok n" by (metis append_is_Nil_conv full_name_Nil list.distinct(1))
    ultimately have "n = policy_component p @ ''.'' @ id_key u parent" by (simp add: full_name_ok db f)
    moreover have "contains ''.last'' n"
      using that by (auto simp: foreach_names_def intro: last_key_contains)
    ultimately show False using entity_name_no_last[of "policy_component p" u parent] p u by (simp add: clean_policy_def)
  qed
  then show ?thesis
    unfolding invalidate_last_def fdb_cleanup_def fdb_foreach_def by (intro cleanup_other) blast
qed

lemma read_file_cong: "map_of fs f = map_of fs' f \<Longrightarrow> read_file f fs = read_file f fs'"
  by (simp add: read_file_def)

lemma read_file_invalidate: "read_file f (snd (invalidate_file now g fs)) = read_file f fs"
  by (auto simp: invalidate_file_def read_file_def split: option.split)

abbreviation stored_id :: "id_policy \<Rightarrow> id_state \<Rightarrow> uuid \<Rightarrow> uuid \<Rightarrow> number_error + u64 option" where
  "stored_id p s u parent \<equiv> get_id_value (policy_db p) (id_key u parent) (id_files s)"

abbreviation held_by :: "id_policy \<Rightarrow> id_state \<Rightarrow> uuid \<Rightarrow> u64 \<Rightarrow> uuid" where
  "held_by p s parent i \<equiv> is_allocated_for parent i (id_memos s (policy_component p))"

text \<open>A clean-up removes an entry or leaves its content.\<close>

lemma read_file_cleanup_entry: "read_file f (snd (cleanup_entry now db interval n fs)) \<in> {read_file f fs, None}"
proof -
  have "read_file f (snd (remove_file g fs)) \<in> {read_file f fs, None}" for g
    by (auto simp: remove_file_def read_file_def map_of_filter_name split: option.split)
  then show ?thesis by (auto simp: cleanup_entry_def Let_def read_file_invalidate split: entity_validity.split)
qed

lemma read_file_cleanup:
  "read_file f (snd (foreach_process (cleanup_entry now db interval) ns num fs)) \<in> {read_file f fs, None}"
proof (induction ns arbitrary: num fs)
  case (Cons n ns)
  obtain ok fs' where c: "cleanup_entry now db interval n fs = (ok, fs')" by fastforce
  with read_file_cleanup_entry[of f now db interval n fs] have "read_file f fs' \<in> {read_file f fs, None}" by simp
  with Cons.IH[of "if ok then num + 1 else num" fs'] c show ?case by auto
qed simp

lemma zone_parent_clean: "clean_name q \<or> q = [] \<Longrightarrow> zone_parent p q = [] \<or> clean_name (zone_parent p q)"
  by (auto simp: zone_parent_def)

lemma stored_id_purge:
  assumes "clean_policy p" "clean_name v" "q' = [] \<or> clean_name q'"
  shows "stored_id p (snd (purge p now u parent_uuid s)) v q' = stored_id p s v q'"
proof -
  have "get_id_value (policy_db p) (id_key v q') (snd (fdb_invalidate now db k (snd (invalidate_last p now u fs))))
      = get_id_value (policy_db p) (id_key v q') fs" for db k fs
    by (simp add: get_id_value_def fdb_invalidate_def read_file_invalidate read_file_cong[OF invalidate_last_entity[OF assms]])
  then show ?thesis by (auto simp: purge_def Let_def split: sum.split option.split)
qed

lemma stored_last_purge:
  "stored_id p (snd (purge p now u parent_uuid s)) LAST q \<in> {stored_id p s LAST q, Inr None}"
proof -
  have "get_id_value db k (snd (fdb_invalidate now db' k' (snd (invalidate_last p now u fs)))) \<in> {get_id_value db k fs, Inr None}"
    for db db' k k' fs
  proof -
    have "read_file (full_name db k) (snd (invalidate_last p now u fs)) \<in> {read_file (full_name db k) fs, None}"
      unfolding invalidate_last_def fdb_cleanup_def fdb_foreach_def by (rule read_file_cleanup)
    then show ?thesis by (auto simp: get_id_value_def fdb_invalidate_def read_file_invalidate)
  qed
  then show ?thesis by (auto simp: purge_def Let_def split: sum.split option.split)
qed

lemma held_by_purge:
  "held_by p (snd (purge p now u parent_uuid s)) q i =
     (if q = zone_parent p parent_uuid \<and> stored_id p s u (zone_parent p parent_uuid) = Inr (Some i) then []
      else held_by p s q i)"
  by (auto simp: purge_def Let_def allocated_remove split: sum.split option.split)

text \<open>A successful call, in terms of the numbers stored and held.\<close>

lemma get_id_success:
  assumes "get_id p now u parent_uuid s = (Inr i, s')" and "parent_uuid = [] \<or> clean_name parent_uuid" "clean_name u"
  defines "parent \<equiv> zone_parent p parent_uuid"
  shows "held_by p s parent i \<in> {[], u}"
    and "held_by p s' q j = (if q = parent \<and> j = i then u else held_by p s q j)"
    and "clean_name v \<Longrightarrow> q = [] \<or> clean_name q \<Longrightarrow>
      stored_id p s' v q = (if v = u \<and> q = parent then Inr (if i = 0 then None else Some i) else stored_id p s v q)"
proof -
  have ok: "name_ok (id_key u parent)" "name_ok (id_key LAST parent)"
    using assms(2,3) zone_parent_clean[of parent_uuid p] by (auto simp: parent_def intro!: id_key_ok)
  obtain l n st where found: "search_id n (\<lambda>i. held_by p s parent i) u st (l + 1) = Some i"
    and s': "s' = record_id p now u parent l i s"
    using assms(1) by (auto simp: get_id_def Let_def parent_def split: sum.splits option.splits)
  have memo: "id_memos s' = (id_memos s)(policy_component p := snd (allocate parent u i (id_memos s (policy_component p))))"
    by (simp add: s' record_id_def Let_def)
  have files: "\<exists>fs. (fs = id_files s \<or> fs = snd (fdb_put now (policy_db p) (id_key LAST parent) (id_value_serialize i) (id_files s)))
      \<and> id_files s' = snd (fdb_put now (policy_db p) (id_key u parent) (id_value_serialize i) fs)"
    by (auto simp: s' record_id_def Let_def)
  show held: "held_by p s parent i \<in> {[], u}" using search_id_sound[OF found] by blast
  show "held_by p s' q j = (if q = parent \<and> j = i then u else held_by p s q j)"
    using held by (auto simp: memo allocated_allocate)
  show "stored_id p s' v q = (if v = u \<and> q = parent then Inr (if i = 0 then None else Some i) else stored_id p s v q)"
    if v: "clean_name v" "q = [] \<or> clean_name q"
  proof -
    have neq: "id_key v q \<noteq> id_key LAST parent" "id_key v q = id_key u parent \<longleftrightarrow> v = u \<and> q = parent"
      using v assms(2,3) zone_parent_clean[of parent_uuid p] by (auto simp: parent_def id_key_inj clean_nameD)
    from files show ?thesis by (auto simp: get_id_value_put ok neq)
  qed
qed

text \<open>The last number after a successful call can be read.\<close>

lemma get_id_last:
  assumes "get_id p now u parent_uuid s = (Inr i, s')" and "parent_uuid = [] \<or> clean_name parent_uuid" "clean_name u"
    and q: "q = [] \<or> clean_name q"
  shows "stored_id p s' LAST q = stored_id p s LAST q \<or> (\<exists>l. stored_id p s' LAST q = Inr l)"
    and "\<exists>l. stored_id p s' LAST (zone_parent p parent_uuid) = Inr l"
proof -
  define parent where "parent = zone_parent p parent_uuid"
  have par: "parent = [] \<or> clean_name parent" using zone_parent_clean[of parent_uuid p] assms(2) by (auto simp: parent_def)
  have ok: "name_ok (id_key u parent)" "name_ok (id_key LAST parent)" using assms(3) par by (auto intro!: id_key_ok)
  have neq: "id_key LAST q' \<noteq> id_key u parent" if "q' = [] \<or> clean_name q'" for q'
    using that par clean_nameD(6)[OF assms(3)] by (simp add: id_key_inj assms(3))
  obtain l where read: "\<exists>r. stored_id p s LAST parent = Inr r" and s': "s' = record_id p now u parent l i s"
    using assms(1) by (auto simp: get_id_def Let_def parent_def split: sum.splits option.splits)
  show "stored_id p s' LAST q = stored_id p s LAST q \<or> (\<exists>l. stored_id p s' LAST q = Inr l)"
    using neq[OF q] by (auto simp: s' record_id_def Let_def get_id_value_put ok)
  show "\<exists>l. stored_id p s' LAST (zone_parent p parent_uuid) = Inr l"
    using neq[OF par] read by (auto simp: s' record_id_def Let_def get_id_value_put ok parent_def[symmetric])
qed

subsection \<open>Numbering as an interface\<close>

text \<open>
  What the handlers rely on: a number is taken for a resource and released when the resource
  goes. A trace of such calls gives the numbers the resources have, computed from the results
  alone; \<open>valid\<close> excludes the number 0, which is only reached when the counter wraps around.
\<close>

datatype 'k number_op = Take int 'k | Release int 'k

fun number_run ::
    "(int \<Rightarrow> 'k \<Rightarrow> ('s, 'e, 'n) eff) \<Rightarrow> (int \<Rightarrow> 'k \<Rightarrow> ('s, 'e, unit) eff) \<Rightarrow> 'k number_op list
       \<Rightarrow> ('k \<rightharpoonup> 'n) \<Rightarrow> 's \<Rightarrow> ('k \<rightharpoonup> 'n) \<times> 's" where
  "number_run tak rel [] live s = (live, s)"
| "number_run tak rel (Take t k # ops) live s =
     (case tak t k s of
        (Inr n, s') \<Rightarrow> number_run tak rel ops (live(k \<mapsto> n)) s'
      | (Inl _, s') \<Rightarrow> number_run tak rel ops live s')"
| "number_run tak rel (Release t k # ops) live s =
     (case rel t k s of
        (Inr _, s') \<Rightarrow> number_run tak rel ops (live(k := None)) s'
      | (Inl _, s') \<Rightarrow> number_run tak rel ops live s')"

text \<open>Calls as the handlers make them: clean keys, only live resources are released, no wrap-around.\<close>

fun number_calls_ok ::
    "(int \<Rightarrow> 'k \<Rightarrow> ('s, 'e, 'n) eff) \<Rightarrow> (int \<Rightarrow> 'k \<Rightarrow> ('s, 'e, unit) eff) \<Rightarrow> ('k \<Rightarrow> bool) \<Rightarrow> ('n \<Rightarrow> bool)
       \<Rightarrow> 'k number_op list \<Rightarrow> ('k \<rightharpoonup> 'n) \<Rightarrow> 's \<Rightarrow> bool" where
  "number_calls_ok tak rel ok valid [] live s \<longleftrightarrow> True"
| "number_calls_ok tak rel ok valid (Take t k # ops) live s \<longleftrightarrow> ok k
     \<and> (case tak t k s of
          (Inr n, s') \<Rightarrow> valid n \<and> number_calls_ok tak rel ok valid ops (live(k \<mapsto> n)) s'
        | (Inl _, s') \<Rightarrow> number_calls_ok tak rel ok valid ops live s')"
| "number_calls_ok tak rel ok valid (Release t k # ops) live s \<longleftrightarrow> ok k \<and> live k \<noteq> None
     \<and> (case rel t k s of
          (Inr _, s') \<Rightarrow> number_calls_ok tak rel ok valid ops (live(k := None)) s'
        | (Inl _, s') \<Rightarrow> number_calls_ok tak rel ok valid ops live s')"

locale numbering =
  fixes tak :: "int \<Rightarrow> 'k \<Rightarrow> ('s, 'e, 'n) eff"
    and rel :: "int \<Rightarrow> 'k \<Rightarrow> ('s, 'e, unit) eff"
    and held :: "'s \<Rightarrow> 'k \<rightharpoonup> 'n"
    and zone :: "'k \<Rightarrow> 'z"
    and inv :: "'s \<Rightarrow> bool"
    and ok :: "'k \<Rightarrow> bool"
    and valid :: "'n \<Rightarrow> bool"
  assumes take_held: "\<lbrakk>inv s; ok k; tak t k s = (Inr n, s'); valid n\<rbrakk> \<Longrightarrow> inv s' \<and> held s' = (held s)(k \<mapsto> n)"
    and take_fails: "tak t k s = (Inl e, s') \<Longrightarrow> s' = s"
    and take_again: "\<lbrakk>inv s; held s k = Some n\<rbrakk> \<Longrightarrow> fst (tak t k s) = Inr n"
    and held_unique: "\<lbrakk>inv s; held s k = Some n; held s k' = Some n; zone k = zone k'\<rbrakk> \<Longrightarrow> k = k'"
    and release_held: "\<lbrakk>inv s; ok k; held s k \<noteq> None; rel t k s = (Inr (), s')\<rbrakk> \<Longrightarrow> inv s' \<and> held s' = (held s)(k := None)"
    and release_fails: "rel t k s = (Inl e, s') \<Longrightarrow> s' = s"
begin

lemma run_held:
  assumes "inv s" and "number_calls_ok tak rel ok valid ops (held s) s"
  shows "inv (snd (number_run tak rel ops (held s) s))
    \<and> fst (number_run tak rel ops (held s) s) = held (snd (number_run tak rel ops (held s) s))"
  using assms
proof (induction ops arbitrary: s)
  case (Cons op ops)
  show ?case
  proof (cases op)
    case (Take t k)
    obtain r s' where tk: "tak t k s = (r, s')" by fastforce
    show ?thesis
    proof (cases r)
      case (Inl e)
      with tk take_fails have "s' = s" by blast
      with Cons Take tk Inl show ?thesis by simp
    next
      case (Inr n)
      with Cons.prems Take tk have "inv s'" "held s' = (held s)(k \<mapsto> n)" using take_held[of s k t n s'] by auto
      with Cons Take tk Inr show ?thesis using Cons.IH[of s'] by (simp del: fun_upd_apply)
    qed
  next
    case (Release t k)
    obtain r s' where rl: "rel t k s = (r, s')" by fastforce
    show ?thesis
    proof (cases r)
      case (Inl e)
      with rl release_fails have "s' = s" by blast
      with Cons Release rl Inl show ?thesis by simp
    next
      case (Inr n)
      with Cons.prems Release rl have "inv s'" "held s' = (held s)(k := None)" using release_held[of s k t s'] by auto
      with Cons Release rl Inr show ?thesis using Cons.IH[of s'] by (simp del: fun_upd_apply)
    qed
  qed
qed simp

lemma run_unique:
  assumes "inv s" and "number_calls_ok tak rel ok valid ops (held s) s"
    and "number_run tak rel ops (held s) s = (live, s')"
  shows "\<lbrakk>live k = Some n; live k' = Some n; zone k = zone k'\<rbrakk> \<Longrightarrow> k = k'"
    and "live k = Some n \<Longrightarrow> fst (tak t k s') = Inr n"
  using run_held[OF assms(1,2)] assms(3) held_unique[of s'] take_again[of s'] by auto

end

text \<open>The policy: a key is a resource and the parent its number is unique under.\<close>

definition entity_ok :: "id_policy \<Rightarrow> uuid \<times> uuid \<Rightarrow> bool" where
  "entity_ok p k \<longleftrightarrow> clean_name (fst k) \<and> (snd k = [] \<or> clean_name (snd k)) \<and> zone_parent p (snd k) = snd k"

definition live_id :: "id_policy \<Rightarrow> id_state \<Rightarrow> uuid \<times> uuid \<Rightarrow> u64 option" where
  "live_id p s k =
     (case stored_id p s (fst k) (snd k) of
        Inr (Some i) \<Rightarrow> if fst k \<noteq> [] \<and> held_by p s (snd k) i = fst k then Some i else None
      | _ \<Rightarrow> None)"

definition ids_inv :: "id_policy \<Rightarrow> id_state \<Rightarrow> bool" where
  "ids_inv p s \<longleftrightarrow> (\<forall>q i. held_by p s q i \<noteq> [] \<longrightarrow>
     clean_name (held_by p s q i) \<and> (q = [] \<or> clean_name q) \<and> zone_parent p q = q
     \<and> stored_id p s (held_by p s q i) q = Inr (Some i) \<and> (\<exists>l. stored_id p s LAST q = Inr l))"

lemma live_id_iff:
  assumes "ids_inv p s"
  shows "live_id p s k = Some i \<longleftrightarrow> fst k \<noteq> [] \<and> held_by p s (snd k) i = fst k"
proof
  assume h: "fst k \<noteq> [] \<and> held_by p s (snd k) i = fst k"
  with assms have "stored_id p s (fst k) (snd k) = Inr (Some i)" unfolding ids_inv_def by metis
  with h show "live_id p s k = Some i" by (simp add: live_id_def)
qed (auto simp: live_id_def split: sum.splits option.splits if_splits)

lemma live_id_stored: "live_id p s (u, q) = Some i \<Longrightarrow> stored_id p s u q = Inr (Some i)"
  by (auto simp: live_id_def split: sum.splits option.splits if_splits)

lemma get_id_again:
  assumes "held_by p s q j = u" "stored_id p s u q = Inr (Some j)" "zone_parent p q = q" "stored_id p s LAST q = Inr l"
  shows "fst (get_id p now u q s) = Inr j"
  using assms by (auto simp: get_id_def Let_def search_rounds_def split: sum.splits option.splits if_splits)

lemma ids_inv_get_id:
  assumes "ids_inv p s" "entity_ok p (u, q)" "get_id p now u q s = (Inr i, s')" "i \<noteq> 0"
  shows "ids_inv p s'"
proof -
  have z: "zone_parent p q = q" and u: "clean_name u" and q: "q = [] \<or> clean_name q"
    using assms(2) by (auto simp: entity_ok_def)
  note res = get_id_success[OF assms(3) q u, unfolded z]
  have lst: "stored_id p s' LAST q' = stored_id p s LAST q' \<or> (\<exists>l. stored_id p s' LAST q' = Inr l)"
    "\<exists>l. stored_id p s' LAST q = Inr l" if "q' = [] \<or> clean_name q'" for q'
    using get_id_last[OF assms(3) q u] that z by auto
  show ?thesis unfolding ids_inv_def
  proof (intro allI impI)
    fix q' j assume h: "held_by p s' q' j \<noteq> []"
    show "clean_name (held_by p s' q' j) \<and> (q' = [] \<or> clean_name q') \<and> zone_parent p q' = q'
        \<and> stored_id p s' (held_by p s' q' j) q' = Inr (Some j) \<and> (\<exists>l. stored_id p s' LAST q' = Inr l)"
    proof (cases "q' = q \<and> j = i")
      case True
      with res u q z assms(4) lst show ?thesis by simp
    next
      case False
      then have v: "held_by p s' q' j = held_by p s q' j" using res(2) by auto
      with h assms(1) have old: "clean_name (held_by p s q' j)" "q' = [] \<or> clean_name q'"
        "stored_id p s (held_by p s q' j) q' = Inr (Some j)" "zone_parent p q' = q'" "\<exists>l. stored_id p s LAST q' = Inr l"
        by (auto simp: ids_inv_def)
      have "\<not> (held_by p s q' j = u \<and> q' = q)"
        using get_id_again[where p = p and s = s and q = q and j = j and now = now] old z assms(3) False by fastforce
      with old v lst[OF old(2)] res(3)[OF old(1,2)] show ?thesis by auto
    qed
  qed
qed

lemma ids_inv_purge:
  assumes "ids_inv p s" "clean_policy p" "entity_ok p (u, q)" "live_id p s (u, q) \<noteq> None"
  shows "ids_inv p (snd (purge p now u q s)) \<and> live_id p (snd (purge p now u q s)) = (live_id p s)((u, q) := None)"
proof -
  let ?s = "snd (purge p now u q s)"
  obtain i where i: "live_id p s (u, q) = Some i" using assms(4) by blast
  then have st: "stored_id p s u q = Inr (Some i)" by (rule live_id_stored)
  have z: "zone_parent p q = q" using assms(3) by (simp add: entity_ok_def)
  have held: "held_by p ?s q' j = (if q' = q \<and> j = i then [] else held_by p s q' j)" for q' j
    by (auto simp: held_by_purge z st)
  have inv: "ids_inv p ?s"
    unfolding ids_inv_def
  proof (intro allI impI)
    fix q' j assume "held_by p ?s q' j \<noteq> []"
    then have same: "held_by p ?s q' j = held_by p s q' j" and "held_by p s q' j \<noteq> []" by (auto simp: held split: if_splits)
    with assms(1) have old: "clean_name (held_by p s q' j)" "q' = [] \<or> clean_name q'" "zone_parent p q' = q'"
      "stored_id p s (held_by p s q' j) q' = Inr (Some j)" "\<exists>l. stored_id p s LAST q' = Inr l"
      by (auto simp: ids_inv_def)
    then show "clean_name (held_by p ?s q' j) \<and> (q' = [] \<or> clean_name q') \<and> zone_parent p q' = q'
        \<and> stored_id p ?s (held_by p ?s q' j) q' = Inr (Some j) \<and> (\<exists>l. stored_id p ?s LAST q' = Inr l)"
      using stored_id_purge[OF assms(2) old(1,2)] stored_last_purge[where p = p and s = s and q = q' and now = now and u = u and parent_uuid = q] by (auto simp: same)
  qed
  have "live_id p ?s k = Some j \<longleftrightarrow> ((live_id p s)((u, q) := None)) k = Some j" for k j
  proof -
    have own: "held_by p s q i = u" using i assms(1) by (simp add: live_id_iff)
    have "live_id p ?s k = Some j \<longleftrightarrow> fst k \<noteq> [] \<and> held_by p s (snd k) j = fst k \<and> \<not> (snd k = q \<and> j = i)"
      using inv by (auto simp: live_id_iff held)
    also have "\<dots> \<longleftrightarrow> live_id p s k = Some j \<and> k \<noteq> (u, q)"
    proof -
      have "j = i" if "live_id p s k = Some j" "k = (u, q)" using that i by simp
      moreover have "k = (u, q)" if "live_id p s k = Some j" "snd k = q" "j = i"
        using that own live_id_iff[OF assms(1), of k j] by (cases k) auto
      ultimately show ?thesis using live_id_iff[OF assms(1), of k j] by auto
    qed
    finally show ?thesis by simp
  qed
  then have "live_id p ?s k = ((live_id p s)((u, q) := None)) k" for k by (metis option.exhaust)
  with inv show ?thesis by blast
qed

lemma ids_inv_take:
  assumes "ids_inv p s" "entity_ok p (u, q)" "get_id p now u q s = (Inr i, s')" "i \<noteq> 0"
  shows "live_id p s' = (live_id p s)((u, q) \<mapsto> i)"
proof
  fix k :: "uuid \<times> uuid"
  have z: "zone_parent p q = q" and u: "clean_name u" and q: "q = [] \<or> clean_name q"
    using assms(2) by (auto simp: entity_ok_def)
  note res = get_id_success[OF assms(3) q u, unfolded z]
  note inv' = ids_inv_get_id[OF assms]
  have "live_id p s' k = Some j \<longleftrightarrow> ((live_id p s)((u, q) \<mapsto> i)) k = Some j" for j
  proof (cases "k = (u, q)")
    case True
    then have "live_id p s' k = Some i" using inv' res(2) u by (auto simp: live_id_iff clean_nameD)
    with True show ?thesis by simp
  next
    case False
    have "held_by p s (snd k) j \<noteq> fst k" if "fst k \<noteq> []" "snd k = q" "j = i"
      using that False res(1) by (cases k) auto
    moreover have "fst k \<noteq> u \<or> snd k \<noteq> q" using False by (cases k) auto
    ultimately have "live_id p s' k = Some j \<longleftrightarrow> live_id p s k = Some j"
      using assms(1) inv' res(2)[of "snd k" j] by (auto simp: live_id_iff split: if_splits)
    with False show ?thesis by simp
  qed
  then show "live_id p s' k = ((live_id p s)((u, q) \<mapsto> i)) k" by (metis option.exhaust)
qed

interpretation rest_ids: numbering "\<lambda>now k. get_id p now (fst k) (snd k)" "\<lambda>now k. purge p now (fst k) (snd k)"
    "live_id p" snd "\<lambda>s. ids_inv p s \<and> clean_policy p" "entity_ok p" "\<lambda>i. i \<noteq> 0" for p
proof (unfold_locales, goal_cases)
  case (1 s k t n s')
  then show ?case using ids_inv_get_id[of p s "fst k" "snd k" t n s'] ids_inv_take[of p s "fst k" "snd k" t n s'] by simp
next
  case (2 t k s e s')
  then show ?case by (auto simp: get_id_def Let_def split: sum.splits option.splits)
next
  case (3 s k n t)
  then have held: "fst k \<noteq> []" "held_by p s (snd k) n = fst k" using live_id_iff[of p s k n] by auto
  with 3 obtain l where "zone_parent p (snd k) = snd k" "stored_id p s (fst k) (snd k) = Inr (Some n)"
    "stored_id p s LAST (snd k) = Inr l"
    unfolding ids_inv_def by metis
  with held show ?case by (metis get_id_again)
next
  case (4 s k n k')
  then show ?case by (auto simp: live_id_iff prod_eq_iff)
next
  case (5 s k t s')
  then show ?case using ids_inv_purge[of p s "fst k" "snd k" t] by simp
next
  case (6 t k s e s')
  then show ?case by (auto simp: purge_def Let_def split: sum.splits option.splits)
qed

subsection \<open>Properties\<close>

abbreviation take_number :: "id_policy \<Rightarrow> int \<Rightarrow> uuid \<times> uuid \<Rightarrow> (id_state, id_error, u64) eff" where
  "take_number p now k \<equiv> get_id p now (fst k) (snd k)"

abbreviation release_number :: "id_policy \<Rightarrow> int \<Rightarrow> uuid \<times> uuid \<Rightarrow> (id_state, id_error, unit) eff" where
  "release_number p now k \<equiv> purge p now (fst k) (snd k)"

text \<open>
  C4: a service that starts with any content of the database never gives one number to two
  live resources of a numbering zone, and asking again for a live resource gives its number
  again, whatever calls were made in between.
\<close>

theorem live_numbers_unique:
  assumes "clean_policy p" and "id_memos s0 (policy_component p) = Map.empty"
    and "number_calls_ok (take_number p) (release_number p) (entity_ok p) (\<lambda>i. i \<noteq> 0) ops Map.empty s0"
    and "number_run (take_number p) (release_number p) ops Map.empty s0 = (live, s)"
  shows "(\<forall>u v q i. live (u, q) = Some i \<and> live (v, q) = Some i \<longrightarrow> u = v)
    \<and> (\<forall>u q i. live (u, q) = Some i \<longrightarrow> fst (get_id p now u q s) = Inr i)"
proof -
  have none: "held_by p s0 q i = []" for q i using assms(2) by (simp add: is_allocated_for_def)
  then have inv: "ids_inv p s0 \<and> clean_policy p" using assms(1) by (simp add: ids_inv_def)
  have empty: "live_id p s0 = Map.empty"
    by (auto simp: live_id_def none fun_eq_iff split: sum.split option.split)
  note run = rest_ids.run_unique[OF inv, unfolded empty, OF assms(3,4)]
  show ?thesis using run(1)[of "(_, _)" _ "(_, _)"] run(2)[of "(_, _)" _ now] by fastforce
qed

lemma clean_short: "clean_name ''Port''" "clean_name ''sw''" "clean_name ''a''" "clean_name ''b''" "clean_name ''c''"
  by (simp_all add: clean_name_def LAST_def)

theorem live_numbers_unique_witness:
  "let p = \<lparr> policy_component = ''Port'', policy_zone = PARENT_SPACE, policy_location = ''/d'' \<rparr>;
       s = snd (number_run (take_number p) (release_number p)
             [Take 1 (''a'', ''sw''), Take 2 (''b'', ''sw'')] Map.empty
             \<lparr> id_files = [], id_memos = (\<lambda>_. Map.empty) \<rparr>)
   in fst (get_id p 4 ''b'' ''sw'' s) = Inr 2"
proof -
  let ?p = "\<lparr> policy_component = ''Port'', policy_zone = PARENT_SPACE, policy_location = ''/d'' \<rparr>"
  let ?ops = "[Take 1 (''a'', ''sw''), Take 2 (''b'', ''sw'')]"
  let ?s0 = "\<lparr> id_files = [], id_memos = (\<lambda>_. Map.empty) \<rparr>"
  let ?run = "number_run (take_number ?p) (release_number ?p) ?ops Map.empty ?s0"
  let ?s1 = "snd (get_id ?p 1 ''a'' ''sw'' ?s0)"
  have calls: "number_calls_ok (take_number ?p) (release_number ?p) (entity_ok ?p) (\<lambda>i. i \<noteq> 0) ?ops Map.empty ?s0"
    by code_simp
  have g1: "get_id ?p 1 ''a'' ''sw'' ?s0 = (Inr 1, ?s1)"
    by (rule prod_eqI; simp) code_simp
  have g2: "get_id ?p 2 ''b'' ''sw'' ?s1 = (Inr 2, snd (get_id ?p 2 ''b'' ''sw'' ?s1))"
    by (rule prod_eqI; simp) code_simp
  have live: "fst ?run (''b'', ''sw'') = Some 2"
    unfolding number_run.simps fst_conv snd_conv
    by (subst g1, simp only: prod.case sum.case, subst g2, simp only: prod.case sum.case) simp
  have "clean_policy ?p" by (simp add: clean_policy_def clean_short)
  from live_numbers_unique[OF this _ calls prod.collapse[symmetric], of 4] live show ?thesis by (simp add: Let_def)
qed

text \<open>
  C22: the search for a number ends: when the stored numbers can be read and not all numbers
  are in use under the parent, the resource gets a number that is its own afterwards.
\<close>

theorem get_id_ends:
  assumes "stored_id p s LAST (zone_parent p q) = Inr l" and "stored_id p s u (zone_parent p q) = Inr r"
    and "(case id_memos s (policy_component p) (zone_parent p q) of Some m \<Rightarrow> length m | None \<Rightarrow> 0) + 1 < 2 ^ 64"
    and "clean_name u" and "q = [] \<or> clean_name q"
  shows "\<exists>i s'. get_id p now u q s = (Inr i, s') \<and> held_by p s' (zone_parent p q) i = u"
proof -
  have "\<exists>i s'. get_id p now u q s = (Inr i, s')"
    using assms(1,2) search_id_ends[where parent = "zone_parent p q" and ids = "id_memos s (policy_component p)", OF assms(3)] by (auto simp: get_id_def Let_def split: option.split)
  then show ?thesis using get_id_success(2)[OF _ assms(5,4)] by fastforce
qed

theorem get_id_ends_witness:
  "\<exists>i s'. get_id \<lparr> policy_component = ''Port'', policy_zone = SHARED, policy_location = ''/d'' \<rparr> 1 ''a'' ''sw''
     \<lparr> id_files = [], id_memos = (\<lambda>_. Map.empty) \<rparr> = (Inr i, s')"
  using get_id_ends[where p = "\<lparr> policy_component = ''Port'', policy_zone = SHARED, policy_location = ''/d'' \<rparr>"
      and s = "\<lparr> id_files = [], id_memos = (\<lambda>_. Map.empty) \<rparr>" and q = "''sw''" and u = "''a''" and now = 1
      and l = None and r = None]
  by (auto simp: get_id_value_empty clean_short)

text \<open>
  A resource that is removed and comes back gets the number it had, unless the number has
  been given away: removal only marks the stored number as invalid.
\<close>

theorem reinserted_keeps_number:
  assumes "clean_policy p" "ids_inv p s" "live_id p s (u, q) = Some i"
  shows "fst (get_id p now' u q (snd (purge p now u q s))) = Inr i"
proof -
  let ?s = "snd (purge p now u q s)"
  have held: "u \<noteq> []" "held_by p s q i = u" using live_id_iff[OF assms(2), of "(u, q)" i] assms(3) by auto
  with assms(2) have u: "clean_name u" "q = [] \<or> clean_name q" "zone_parent p q = q" and st: "stored_id p s u q = Inr (Some i)"
    and l: "\<exists>l. stored_id p s LAST q = Inr l" by (auto simp: ids_inv_def)
  have "stored_id p ?s u q = Inr (Some i)" using st stored_id_purge[OF assms(1) u(1,2)] by simp
  moreover have "held_by p ?s q i = []" by (simp add: held_by_purge u(3) st)
  moreover have "\<exists>l. stored_id p ?s LAST q = Inr l"
    using l stored_last_purge[where p = p and s = s and q = q and now = now and u = u and parent_uuid = q] by auto
  ultimately show ?thesis using u(3) by (auto simp: get_id_def Let_def search_rounds_def)
qed

theorem reinserted_keeps_number_witness:
  "let p = \<lparr> policy_component = ''Port'', policy_zone = SHARED, policy_location = ''/d'' \<rparr>;
       s = snd (get_id p 1 ''a'' [] \<lparr> id_files = [], id_memos = (\<lambda>_. Map.empty) \<rparr>)
   in fst (get_id p 3 ''a'' [] (snd (purge p 2 ''a'' [] s))) = Inr 1"
proof -
  let ?p = "\<lparr> policy_component = ''Port'', policy_zone = SHARED, policy_location = ''/d'' \<rparr>"
  let ?s0 = "\<lparr> id_files = [], id_memos = (\<lambda>_. Map.empty) \<rparr>"
  have g: "fst (get_id ?p 1 ''a'' [] ?s0) = Inr 1" by code_simp
  have "ids_inv ?p ?s0" by (simp add: ids_inv_def is_allocated_for_def)
  moreover have "entity_ok ?p (''a'', [])" by (simp add: entity_ok_def zone_parent_def clean_short)
  ultimately have "ids_inv ?p (snd (get_id ?p 1 ''a'' [] ?s0))"
    using ids_inv_get_id[of ?p ?s0 "''a''" "[]" 1 1] g by (metis prod.collapse zero_neq_one)
  moreover have "live_id ?p (snd (get_id ?p 1 ''a'' [] ?s0)) (''a'', []) = Some 1" by code_simp
  moreover have "clean_policy ?p" by (simp add: clean_policy_def clean_short)
  ultimately show ?thesis using reinserted_keeps_number[of ?p _ "''a''" "[]" 1 3 2] by (simp add: Let_def)
qed

text \<open>
  After a restart every stored number is marked invalid until its resource is seen again,
  the last number given out as well. The first resource seen then resets the last number to
  its own, so that a new resource seen next gets a number that belongs to a resource not seen
  yet, which in turn has to give it up.
\<close>

theorem renumbered_after_restart:
  assumes clean: "clean_name u1" "clean_name u2" "clean_name u3" "q = [] \<or> clean_name q" "zone_parent p q = q"
    and diff: "u1 \<noteq> u2" "u1 \<noteq> u3" "u2 \<noteq> u3"
    and stored: "stored_id p s u1 q = Inr (Some i)" "stored_id p s u2 q = Inr (Some (i + 1))"
      "stored_id p s u3 q = Inr None" "stored_id p s LAST q = Inr (Some l)"
    and restarted: "fdb_get_validity ta (policy_db p) (id_key LAST q) NEVER (id_files s) \<noteq> VALID"
      "\<forall>j. held_by p s q j = []"
    and nums: "0 < i" "i < i + 1" "i + 1 < i + 3"
  shows "case get_id p ta u1 q s of (r1, s1) \<Rightarrow> case get_id p tb u3 q s1 of (r2, s2) \<Rightarrow>
      case get_id p tc u2 q s2 of (r3, s3) \<Rightarrow> r1 = Inr i \<and> r2 = Inr (i + 1) \<and> r3 = Inr (i + 3)"
proof -
  have ok: "name_ok (id_key LAST q)" "name_ok (id_key u1 q)" "name_ok (id_key u2 q)" "name_ok (id_key u3 q)"
    using clean by (auto intro: id_key_ok)
  have neq: "u1 \<noteq> LAST" "u2 \<noteq> LAST" "u3 \<noteq> LAST" using clean by (auto simp: clean_nameD)
  have ids: "id_key u q = id_key v q \<longleftrightarrow> u = v" if "u \<in> {LAST, u1, u2, u3}" "v \<in> {LAST, u1, u2, u3}" for u v
    using that clean by (auto simp: id_key_inj)
  have i0: "i \<noteq> 0" "i + 1 \<noteq> 0" using nums by auto
  have val: "get_id_value (policy_db p) k (snd (fdb_put t (policy_db p) k' (id_value_serialize j) fs)) =
      (if k = k' then Inr (Some j) else get_id_value (policy_db p) k fs)"
    if "k' \<in> {id_key LAST q, id_key u1 q, id_key u2 q, id_key u3 q}" "j \<in> {i, i + 1}" for k k' j t fs
    using that ok i0 by (auto simp: get_id_value_put)
  define s1 where "s1 = record_id p ta u1 q l i s"
  have g1: "get_id p ta u1 q s = (Inr i, s1)"
    using stored restarted by (simp add: get_id_def clean search_rounds_def s1_def)
  have st1: "stored_id p s1 LAST q = Inr (Some i)" "stored_id p s1 u3 q = Inr None" "stored_id p s1 u2 q = Inr (Some (i + 1))"
    using restarted(1) stored diff neq by (simp_all add: s1_def record_id_def Let_def val ids)
  have h1: "held_by p s1 q j = (if j = i then u1 else [])" for j
    using restarted(2) by (simp add: s1_def record_id_def Let_def allocated_allocate)
  define s2 where "s2 = record_id p tb u3 q i (i + 1) s1"
  have g2: "get_id p tb u3 q s1 = (Inr (i + 1), s2)"
    using st1 h1 by (simp add: get_id_def clean search_rounds_def s2_def Let_def)
  have st2: "stored_id p s2 LAST q = Inr (Some (i + 1))" "stored_id p s2 u2 q = Inr (Some (i + 1))"
    using st1 nums diff neq by (simp_all add: s2_def record_id_def Let_def val ids)
  have h2: "held_by p s2 q j = (if j = i then u1 else if j = i + 1 then u3 else [])" for j
    using h1 by (simp add: s2_def record_id_def Let_def allocated_allocate)
  have "search_id (search_rounds q (id_memos s2 (policy_component p))) (held_by p s2 q) u2 (i + 1) (i + 1 + 1) = Some (i + 3)"
  proof -
    have three: "i + 1 + 1 + 1 = i + 3" by simp
    have "held_by p s2 q (i + 1) = u3" "held_by p s2 q (i + 3) = []" using h2 nums by auto
    then show ?thesis
      using diff(3) clean(3) by (simp only: search_rounds_def add_2_eq_Suc' search_id.simps three) (simp add: clean_nameD)
  qed
  then have "fst (get_id p tc u2 q s2) = Inr (i + 3)"
    using st2 by (simp add: get_id_def clean Let_def)
  then show ?thesis by (simp add: g1 g2 split_beta)
qed

theorem renumbered_after_restart_witness:
  "let p = \<lparr> policy_component = ''Port'', policy_zone = PARENT_SPACE, policy_location = ''/d'' \<rparr>;
       s1 = snd (get_id p 1 ''a'' ''sw'' \<lparr> id_files = [], id_memos = (\<lambda>_. Map.empty) \<rparr>);
       s2 = snd (get_id p 2 ''b'' ''sw'' s1);
       s = \<lparr> id_files = snd (invalidate_all 3 ''/d'' 60 (id_files s2)), id_memos = (\<lambda>_. Map.empty) \<rparr>
   in fst (get_id p 2 ''b'' ''sw'' s1) = Inr 2
     \<and> fst (get_id p 6 ''b'' ''sw'' (snd (get_id p 5 ''c'' ''sw'' (snd (get_id p 4 ''a'' ''sw'' s))))) = Inr 4"
proof -
  let ?p = "\<lparr> policy_component = ''Port'', policy_zone = PARENT_SPACE, policy_location = ''/d'' \<rparr>"
  let ?s1 = "snd (get_id ?p 1 ''a'' ''sw'' \<lparr> id_files = [], id_memos = (\<lambda>_. Map.empty) \<rparr>)"
  let ?s2 = "snd (get_id ?p 2 ''b'' ''sw'' ?s1)"
  define fs where "fs = snd (invalidate_all 3 ''/d'' 60 (id_files ?s2))"
  let ?s = "\<lparr> id_files = fs, id_memos = (\<lambda>_. Map.empty) \<rparr>"
  have z: "zone_parent ?p ''sw'' = ''sw''" by (simp add: zone_parent_def)
  have g: "fst (get_id ?p 2 ''b'' ''sw'' ?s1) = Inr 2" by code_simp
  have st: "stored_id ?p ?s ''a'' ''sw'' = Inr (Some 1)" "stored_id ?p ?s ''b'' ''sw'' = Inr (Some (1 + 1))"
    "stored_id ?p ?s ''c'' ''sw'' = Inr None" "stored_id ?p ?s LAST ''sw'' = Inr (Some 2)"
    unfolding fs_def by code_simp+
  have v: "fdb_get_validity 4 (policy_db ?p) (id_key LAST ''sw'') NEVER (id_files ?s) \<noteq> VALID"
    unfolding fs_def by code_simp
  have "fst (get_id ?p 6 ''b'' ''sw'' (snd (get_id ?p 5 ''c'' ''sw'' (snd (get_id ?p 4 ''a'' ''sw'' ?s))))) = Inr (1 + 3)"
    using renumbered_after_restart[where p = ?p and s = ?s and q = "''sw''" and i = 1 and l = 2 and tb = 5 and tc = 6,
        OF clean_short(3,4,5) disjI2[OF clean_short(2)] z _ _ _ st v]
    by (simp add: is_allocated_for_def split_beta)
  with g show ?thesis by (simp add: Let_def fs_def)
qed

lemma find_map_Some: "find P (xs @ [y] @ ys) = Some y" if "P y" "\<forall>x \<in> set xs. \<not> P x"
  using that by (induction xs) auto

lemma rfind_str_suffix:
  assumes "pat \<noteq> []"
  shows "rfind_str pat (a @ pat) = Some (length a)"
proof -
  let ?s = "a @ pat"
  have "[0..<Suc (length ?s)] = [0..<length a] @ [length a] @ [Suc (length a)..<Suc (length ?s)]"
    using upt_add_eq_append[of 0 "length a" "Suc (length pat)"] upt_conv_Cons[of "length a" "Suc (length ?s)"] by simp
  then have "rev [0..<Suc (length ?s)] = rev [Suc (length a)..<Suc (length ?s)] @ [length a] @ rev [0..<length a]" by simp
  moreover have "\<not> matches_at pat ?s i" if "i \<in> set (rev [Suc (length a)..<Suc (length ?s)])" for i
  proof
    assume "matches_at pat ?s i"
    then have "length (take (length pat) (drop i ?s)) = length pat" by (simp add: matches_at_def)
    with that assms show False by auto
  qed
  moreover have "matches_at pat ?s (length a)" by (simp add: matches_at_def)
  ultimately show ?thesis unfolding rfind_str_def by (metis find_map_Some)
qed

text \<open>
  When a resource is removed, the last numbers given to its children are marked invalid
  only if the resource itself is numbered under its parent. For a resource of a shared
  numbering zone (a system, a chassis, a manager) the parent that is searched for is replaced
  by the empty name, and the records of its children stay valid.
\<close>

theorem shared_removal_keeps_last:
  assumes dir: "good_dir fs" and pol: "clean_policy pc" "policy_location pc = policy_location p" and u: "clean_name u"
    and stored: "map_of fs (full_name (policy_db pc) (id_key LAST u)) = Some f" "file_wgrp f" "file_sticky f"
  shows "map_of (snd (invalidate_last p now u fs)) (full_name (policy_db pc) (id_key LAST u)) =
    Some (if policy_zone p = SHARED then f else f\<lparr> file_sticky := False, file_ctime := now \<rparr>)"
proof -
  let ?db = "retention_db (policy_location p)" and ?n = "policy_component pc @ ''.'' @ id_key LAST u"
  let ?names = "foreach_names ?db (resource_last_key_unserialize (zone_parent p u)) fs"
  have db: "fdb_create ''*parent'' True (policy_location p) = ?db" by (simp add: fdb_create_def)
  have c: "CHR ''.'' \<notin> set (policy_component pc)" "clean_name (policy_component pc)"
    using pol(1) by (auto simp: clean_policy_def clean_nameD)
  have n: "name_ok ?n"
    using c u by (auto simp: name_ok_def clean_name_def id_key_def uuid_key_serialize_def LAST_def)
  have full: "full_name (policy_db pc) (id_key LAST u) = full_name ?db ?n"
    using n pol u id_key_ok[of LAST u] by (simp add: full_name_ok policy_db_fields)
  have key: "?n = (policy_component pc @ CHR ''.'' # u) @ ''.last''"
    using u by (simp add: id_key_def uuid_key_serialize_def LAST_def clean_nameD)
  have accepted: "resource_last_key_unserialize q ?n \<noteq> None \<longleftrightarrow> q = u" for q
    unfolding key resource_last_key_unserialize_def rfind_str_suffix[of "''.last''", simplified]
    using u by (simp add: clean_nameD substr_def)
  have mem: "?n \<in> set ?names \<longleftrightarrow> zone_parent p u = u"
  proof -
    have "full_name ?db ?n \<in> fst ` set fs" using stored(1) by (metis full imageI fst_conv map_of_SomeD)
    then have "?n \<in> set (foreach_names ?db always_match_key_unserialize fs)" using n by (simp add: retention_names)
    then show ?thesis using accepted by (auto simp: foreach_names_def always_match_key_unserialize_def)
  qed
  have dist: "distinct ?names"
    using retention_names_distinct[of fs "policy_location p"] dir
    by (auto simp: foreach_names_def always_match_key_unserialize_def good_dir_def conj_commute simp flip: filter_filter
        intro: distinct_filter)
  have "zone_parent p u = u \<longleftrightarrow> policy_zone p \<noteq> SHARED"
    using clean_nameD(1)[OF u] by (auto simp: zone_parent_def)
  moreover have "(\<exists>m \<in> set ?names. name_ok m \<and> full_name ?db ?n = full_name ?db m) \<longleftrightarrow> ?n \<in> set ?names"
    using n by (metis full_name_inj)
  ultimately show ?thesis
    unfolding full invalidate_last_def fdb_cleanup_def fdb_foreach_def db
    by (subst foreach_process_files[OF cleanup_entry_file _ dist])
      (use mem stored dir full in \<open>auto simp: entry_functions_skip good_dir_def cleaned_def\<close>)
qed

theorem shared_removal_keeps_last_witness:
  "let sys = \<lparr> policy_component = ''System'', policy_zone = SHARED, policy_location = ''/d'' \<rparr>;
       f = \<lparr> file_data = ''7'', file_sticky = True, file_wgrp = True, file_ctime = 1 \<rparr>
   in map_of (snd (invalidate_last sys 5 ''a'' [(''/d/Port.a.last.db'', f)])) ''/d/Port.a.last.db'' = Some f"
proof -
  let ?sys = "\<lparr> policy_component = ''System'', policy_zone = SHARED, policy_location = ''/d'' \<rparr>"
  let ?port = "\<lparr> policy_component = ''Port'', policy_zone = PARENT_SPACE, policy_location = ''/d'' \<rparr>"
  let ?f = "\<lparr> file_data = ''7'', file_sticky = True, file_wgrp = True, file_ctime = 1 \<rparr>"
  have name: "full_name (policy_db ?port) (id_key LAST ''a'') = ''/d/Port.a.last.db''"
    by (simp add: full_name_def policy_db_def fdb_create_def id_key_def uuid_key_serialize_def LAST_def EXT_def)
  have "clean_policy ?port" by (simp add: clean_policy_def clean_short)
  from shared_removal_keeps_last[of "[(''/d/Port.a.last.db'', ?f)]" ?port ?sys "''a''" ?f 5, unfolded name, OF _ this _ clean_short(3)]
  show ?thesis by (simp add: good_dir_def Let_def)
qed

end
