(* ===== verification/Rest_Model.thy ===== *)
theory Rest_Model
  imports Generic_Manager Many_To_Many Id_Policy
begin

text \<open>
  The state of the REST service and the addresses of its resources. The service keeps one
  table per kind of resource, the tables of links, the numbers of resources and, per handler,
  the kinds of children the handler has met. \<open>get_component_url\<close> (\<open>endpoints/utils.cpp\<close>) builds the
  address of a resource from the tables. Which handler serves which kind of resource or
  collection is fixed by \<open>handler_manager.cpp\<close>.
\<close>

subsection \<open>Kinds of resources and their handlers\<close>

definition component_enum :: "component list" where
  "component_enum =
     [''None'', ''Root'', ''AuthorizationCertificate'', ''Chassis'', ''Drive'', ''Fan'', ''Manager'', ''Memory'',
      ''MemoryDomain'', ''MemoryChunks'', ''NetworkInterface'', ''NetworkDevice'', ''PowerZone'', ''Processor'', ''PSU'',
      ''EthernetSwitch'', ''RemoteEthernetSwitch'', ''NetworkDeviceFunction'', ''StorageController'', ''StorageService'',
      ''EthernetSwitchPort'', ''System'', ''ThermalZone'', ''Vlan'', ''EthernetSwitchPortVlan'', ''PortMember'',
      ''NeighborSwitch'', ''Switch'', ''PcieDevice'', ''Zone'', ''PcieFunction'', ''Port'', ''Acl'', ''AclRule'', ''StaticMac'',
      ''StorageSubsystem'', ''Task'', ''Fabric'', ''Endpoint'', ''ChassisSensor'', ''Metric'', ''MetricDefinition'',
      ''TrustedModule'', ''StoragePool'', ''Volume'', ''LogService'', ''LogEntry'']"

definition component_handlers :: "component list" where
  "component_handlers =
     [''Manager'', ''Chassis'', ''System'', ''Processor'', ''Memory'', ''NetworkInterface'', ''StorageController'',
      ''StorageSubsystem'', ''NetworkDevice'', ''NetworkDeviceFunction'', ''TrustedModule'', ''Drive'', ''EthernetSwitch'',
      ''EthernetSwitchPort'', ''EthernetSwitchPortVlan'', ''Vlan'', ''Acl'', ''AclRule'', ''StaticMac'',
      ''RemoteEthernetSwitch'', ''NeighborSwitch'', ''StorageService'', ''StoragePool'', ''Volume'', ''Switch'', ''Zone'',
      ''Port'', ''Endpoint'', ''Fabric'', ''PcieDevice'', ''PcieFunction'', ''Task'', ''MetricDefinition'', ''Metric'',
      ''PowerZone'', ''ThermalZone'', ''PSU'', ''Fan'', ''LogService'', ''LogEntry'']"

definition collection_handlers :: "(collection_type \<times> component) list" where
  "collection_handlers =
     [(''Systems'', ''System''), (''Processors'', ''Processor''), (''Memory'', ''Memory''),
      (''NetworkInterfaces'', ''NetworkInterface''), (''EthernetSwitchPortVlans'', ''EthernetSwitchPortVlan''),
      (''StorageControllers'', ''StorageController''), (''StorageSubsystems'', ''StorageSubsystem''),
      (''NetworkDevices'', ''NetworkDevice''), (''NetworkDeviceFunctions'', ''NetworkDeviceFunction''),
      (''TrustedModules'', ''TrustedModule''), (''Drives'', ''Drive''), (''EthernetSwitches'', ''EthernetSwitch''),
      (''NeighborSwitches'', ''NeighborSwitch''), (''EthernetSwitchPorts'', ''EthernetSwitchPort''),
      (''PortMembers'', ''EthernetSwitchPort''), (''Vlans'', ''Vlan''), (''Acls'', ''Acl''), (''Rules'', ''AclRule''),
      (''StaticMacs'', ''StaticMac''), (''StorageServices'', ''StorageService''), (''StoragePools'', ''StoragePool''),
      (''Volumes'', ''Volume''), (''Managers'', ''Manager''), (''Fabrics'', ''Fabric''), (''Chassis'', ''Chassis''),
      (''Switches'', ''Switch''), (''Zones'', ''Zone''), (''Ports'', ''Port''), (''Endpoints'', ''Endpoint''),
      (''PCIeDevices'', ''PcieDevice''), (''PCIeFunctions'', ''PcieFunction''), (''Tasks'', ''Task''),
      (''MetricDefinitions'', ''MetricDefinition''), (''Metrics'', ''Metric''), (''PowerZones'', ''PowerZone''),
      (''ThermalZones'', ''ThermalZone''), (''PSUs'', ''PSU''), (''Fans'', ''Fan''), (''LogServices'', ''LogService''),
      (''LogEntries'', ''LogEntry'')]"

text \<open>The handler of neighbour switches works on the table of remote switches.\<close>

definition handler_model :: "component \<Rightarrow> component" where
  "handler_model h = (if h = ''NeighborSwitch'' then ''RemoteEthernetSwitch'' else h)"

definition shared_kinds :: "component list" where
  "shared_kinds =
     [''Chassis'', ''System'', ''EthernetSwitch'', ''RemoteEthernetSwitch'', ''Fabric'', ''Manager'', ''StorageService'',
      ''Task'', ''MetricDefinition'', ''Metric'']"

definition handler_policy :: "string \<Rightarrow> component \<Rightarrow> id_policy" where
  "handler_policy location h =
     \<lparr> policy_component = handler_model h,
       policy_zone = (if handler_model h \<in> set shared_kinds then SHARED else PARENT_SPACE),
       policy_location = location \<rparr>"

text \<open>A set of kinds runs in the order of the enumeration.\<close>

definition component_rank :: "component \<Rightarrow> nat" where
  "component_rank c = length (takeWhile (\<lambda>x. x \<noteq> c) component_enum)"

definition component_insert :: "component \<Rightarrow> component list \<Rightarrow> component list" where
  "component_insert c cs = (if c \<in> set cs then cs else insort_key component_rank c cs)"

subsection \<open>The state of the service\<close>

text \<open>
  An entry of any table: the common part of resources, the part of tasks and of metrics that
  the service reads, and whatever else the resource carries.
\<close>

record ('n, 'p) rest_resource = "'n task_resource" +
  metric_component_type :: component
  metric_component_uuid :: uuid
  payload :: 'p

datatype rest_exception =
    AgentUnreachable string
  | ModelError model_exception
  | UrlNotFound string
  | InvalidValue string
  | ServerError "json list"
  | OtherError string
  | IdError id_error
  | RecursionLimit
  | UndefinedBehaviour

text \<open>The exceptions a handler for \<open>JsonRpcException\<close>, for \<open>NotFound\<close> and for everything catches.\<close>

fun is_json_rpc_exception :: "rest_exception \<Rightarrow> bool" where
  "is_json_rpc_exception (ModelError _) = True"
| "is_json_rpc_exception (UrlNotFound _) = True"
| "is_json_rpc_exception (InvalidValue _) = True"
| "is_json_rpc_exception _ = False"

fun is_not_found :: "rest_exception \<Rightarrow> bool" where
  "is_not_found (ModelError (NotFound _)) = True"
| "is_not_found (UrlNotFound _) = True"
| "is_not_found _ = False"

fun is_agent_unreachable :: "rest_exception \<Rightarrow> bool" where
  "is_agent_unreachable (AgentUnreachable _) = True"
| "is_agent_unreachable _ = False"

fun is_exception :: "rest_exception \<Rightarrow> bool" where
  "is_exception (IdError EndlessSearch) = False"
| "is_exception RecursionLimit = False"
| "is_exception UndefinedBehaviour = False"
| "is_exception _ = True"

datatype event_type = StatusChange | ResourceUpdated | ResourceAdded | ResourceRemoved | Alert

type_synonym event = "event_type \<times> string"

datatype mode = EVENT | POLLING | LOADING | USER_ACTION | AGENT_DISAPPEARED

record handler_context =
  ctx_mode :: mode
  ctx_stack :: "component list"
  ctx_agent :: string
  ctx_events :: "event list"
  num_added :: u32
  num_removed :: u32
  num_updated :: u32
  num_status_changed :: u32
  num_alerts :: u32

text \<open>
  What the service calls outside of the modelled code: the agents, with the answer or the
  failure of every call, the clocks (\<open>env_clock\<close> of the file system, \<open>env_now\<close> in nanoseconds),
  the hash that tells whether a resource changed, the order in which the tables entered the
  registry and the order in which the unordered map of the handlers runs; and the bound on the depth of recursions, which the code does not have. A call
  ends with an answer, with a failure of the connection, with an error the agent reports
  (\<open>RpcClient::CallMethod\<close> turns it into a \<open>ServerException\<close>), or with an answer that cannot be
  converted, because a check of the conversion rejects it or because of its shape.
\<close>

datatype rpc_request =
    GetInfo component uuid
  | GetCollection uuid string
  | GetManagersCollection
  | GetTasksCollection
  | GetMetricDefinitionsCollection
  | GetMetrics "uuid option"
  | GetTaskResultInfo uuid

datatype 'r rpc_outcome =
    Resource 'r
  | Subcomponents "uuid list"
  | Metrics "'r list"
  | TaskResult
  | ConnectorError
  | ServerFailure "json list"
  | ConversionRejected string
  | ConversionFailure string

record ('n, 'p, 'w) rest_env =
  env_location :: string
  env_clock :: "'w \<Rightarrow> int"
  env_now :: "'w \<Rightarrow> int"
  env_registry :: "component list"
  env_handlers :: "component list"
  env_hash :: "('n, 'p) rest_resource \<Rightarrow> resource_hash"
  env_depth :: nat
  env_call :: "string \<Rightarrow> rpc_request \<Rightarrow> 'w \<Rightarrow> ('n, 'p) rest_resource rpc_outcome \<times> 'w"

record ('n, 'p, 'w) rest_state =
  rest_tables :: "component \<Rightarrow> ('n, 'p) rest_resource manager"
  rest_links :: "string \<Rightarrow> m2m"
  rest_subs :: "component \<Rightarrow> component list"
  rest_ids :: id_state
  rest_agents :: "string list"
  connection_error_observed_at :: "string \<Rightarrow> int option"
  rest_ctx :: handler_context
  rest_notified :: "event list list"
  rest_called :: "'n list"
  rest_world :: 'w

definition get_handlers :: "('n, 'p, 'w) rest_env \<Rightarrow> component list" where
  "get_handlers env = env_handlers env"

definition wf_env :: "('n, 'p, 'w) rest_env \<Rightarrow> bool" where
  "wf_env env \<longleftrightarrow> distinct (env_handlers env) \<and> set (env_handlers env) = set component_handlers"

type_synonym ('n, 'p) rest_tables = "component \<Rightarrow> ('n, 'p) rest_resource manager"
type_synonym ('n, 'p, 'w, 'a) rest_eff = "(('n, 'p, 'w) rest_state, rest_exception, 'a) eff"

definition get_parent_component :: "handler_context \<Rightarrow> component" where
  "get_parent_component c = (case ctx_stack c of c' # _ \<Rightarrow> c' | [] \<Rightarrow> ''None'')"

definition new_context :: "mode \<Rightarrow> string \<Rightarrow> component list \<Rightarrow> handler_context" where
  "new_context m agent stack =
     \<lparr> ctx_mode = m, ctx_stack = stack, ctx_agent = agent, ctx_events = [],
       num_added = 0, num_removed = 0, num_updated = 0, num_status_changed = 0, num_alerts = 0 \<rparr>"

text \<open>A context for the duration of a call; the caller goes on with its own.\<close>

definition with_context :: "handler_context \<Rightarrow> ('n, 'p, 'w, 'a) rest_eff \<Rightarrow> ('n, 'p, 'w, 'a) rest_eff" where
  "with_context c m s = (case m (s\<lparr> rest_ctx := c \<rparr>) of (r, s') \<Rightarrow> (r, s'\<lparr> rest_ctx := rest_ctx s \<rparr>))"

subsection \<open>Events for subscribers\<close>

text \<open>Of several events with the same type and origin, the first one is kept.\<close>

fun drop_present :: "(string \<rightharpoonup> event_type list) \<Rightarrow> event list \<Rightarrow> event list" where
  "drop_present present [] = []"
| "drop_present present ((t, origin) # es) =
     (case present origin of
        None \<Rightarrow> (t, origin) # drop_present (present(origin \<mapsto> [t])) es
      | Some types \<Rightarrow>
          if t \<notin> set types then (t, origin) # drop_present (present(origin \<mapsto> types @ [t])) es
          else drop_present present es)"

definition remove_duplicates :: "event list \<Rightarrow> event list" where
  "remove_duplicates events = drop_present Map.empty events"

definition notify :: "event list \<Rightarrow> ('n, 'p, 'w) rest_state \<Rightarrow> ('n, 'p, 'w) rest_state" where
  "notify events s =
     (if events = [] then s else s\<lparr> rest_notified := rest_notified s @ [remove_duplicates events] \<rparr>)"

definition present_events :: "(string \<rightharpoonup> event_type list) \<Rightarrow> event set" where
  "present_events present = {(t, origin). t \<in> set (case present origin of None \<Rightarrow> [] | Some types \<Rightarrow> types)}"

lemma present_events_upd:
  "present_events (present(origin \<mapsto> types)) = {e \<in> present_events present. snd e \<noteq> origin} \<union> (\<lambda>t. (t, origin)) ` set types"
  by (auto simp: present_events_def)

lemma drop_present_set:
  "distinct (drop_present present es) \<and> set (drop_present present es) = set es - present_events present"
proof (induction present es rule: drop_present.induct)
  case (2 present t origin es)
  let ?types = "case present origin of None \<Rightarrow> [] | Some types \<Rightarrow> types"
  have mem: "(t', origin) \<in> present_events present \<longleftrightarrow> t' \<in> set ?types" for t'
    by (simp add: present_events_def)
  show ?case
  proof (cases "t \<in> set ?types")
    case True
    then obtain types where "present origin = Some types" "t \<in> set types" by (cases "present origin") auto
    with 2(3) mem[of t] show ?thesis by auto
  next
    case False
    let ?p = "present(origin \<mapsto> ?types @ [t])"
    have drop: "drop_present present ((t, origin) # es) = (t, origin) # drop_present ?p es"
      using False by (simp split: option.split)
    have "distinct (drop_present ?p es) \<and> set (drop_present ?p es) = set es - present_events ?p"
      using 2(1,2) False by (cases "present origin") (auto simp del: fun_upd_apply)
    moreover have "present_events ?p = insert (t, origin) (present_events present)"
      by (auto simp: present_events_upd mem image_iff)
    ultimately show ?thesis using False mem[of t] unfolding drop by auto
  qed
qed simp

lemma remove_duplicates_set: "distinct (remove_duplicates es)" "set (remove_duplicates es) = set es"
  using drop_present_set[of Map.empty es] by (auto simp: remove_duplicates_def present_events_def)

subsection \<open>Addresses\<close>

definition ROOT_PATH :: string where
  "ROOT_PATH = ''/redfish/v1''"

definition path_append :: "string \<Rightarrow> string \<Rightarrow> string" where
  "path_append segment path = path @ ''/'' @ segment"

definition path_append_id :: "u64 \<Rightarrow> string \<Rightarrow> string" where
  "path_append_id i = path_append (to_string (unat i))"

definition path_append_index :: "nat \<Rightarrow> string \<Rightarrow> string" where
  "path_append_index i = path_append (to_string i)"

definition append_jsonptr :: "string \<Rightarrow> string \<Rightarrow> string" where
  "append_jsonptr jsonptr path = path @ ''#'' @ jsonptr"

definition parent_literals :: "(component \<times> string) list" where
  "parent_literals =
     [(''Chassis'', ''Chassis''), (''Manager'', ''Managers''), (''System'', ''Systems''),
      (''StorageService'', ''StorageServices''), (''EthernetSwitch'', ''EthernetSwitches''), (''Fabric'', ''Fabrics'')]"

definition child_literals :: "(component \<times> string) list" where
  "child_literals =
     [(''StorageSubsystem'', ''Storage''), (''Drive'', ''Drives''), (''Memory'', ''Memory''), (''Processor'', ''Processors''),
      (''EthernetSwitchPort'', ''Ports''), (''EthernetSwitchPortVlan'', ''VLANs''), (''Zone'', ''Zones''),
      (''PcieFunction'', ''Functions''), (''Port'', ''Ports''), (''Switch'', ''Switches''), (''Acl'', ''ACLs''),
      (''AclRule'', ''Rules''), (''StaticMac'', ''StaticMACs''), (''Endpoint'', ''Endpoints''),
      (''NetworkDevice'', ''NetworkInterfaces''), (''NetworkDeviceFunction'', ''NetworkDeviceFunctions''),
      (''Volume'', ''Volumes''), (''StoragePool'', ''StoragePools''), (''LogService'', ''LogServices''), (''LogEntry'', ''Entries'')]"

definition array_literals :: "(component \<times> string) list" where
  "array_literals =
     [(''StorageController'', ''StorageControllers''), (''PSU'', ''PowerSupplies''), (''Fan'', ''Fans''),
      (''TrustedModule'', ''TrustedModules'')]"

definition lift_model :: "model_exception + 'a \<Rightarrow> rest_exception + 'a" where
  "lift_model r = (case r of Inl e \<Rightarrow> Inl (ModelError e) | Inr a \<Rightarrow> Inr a)"

definition sbind :: "'e + 'a \<Rightarrow> ('a \<Rightarrow> 'e + 'b) \<Rightarrow> 'e + 'b" where
  "sbind r f = (case r of Inl e \<Rightarrow> Inl e | Inr a \<Rightarrow> f a)"

definition index_of :: "'a \<Rightarrow> 'a list \<Rightarrow> nat" where
  "index_of x xs = length (takeWhile (\<lambda>y. y \<noteq> x) xs)"

definition build_parent_path :: "('n, 'p) rest_tables \<Rightarrow> component \<Rightarrow> uuid \<Rightarrow> string \<Rightarrow> string \<Rightarrow> rest_exception + string" where
  "build_parent_path tabs c u literal path =
     sbind (lift_model (uuid_to_rest_id (tabs c) u)) (\<lambda>i. Inr (path_append_id i (path_append literal path)))"

definition find_metric_index :: "('n, 'p) rest_tables \<Rightarrow> ('n, 'p) rest_resource \<Rightarrow> rest_exception + nat" where
  "find_metric_index tabs metric =
     (let array_members = get_keys (\<lambda>m. metric_component_type m = metric_component_type metric
            \<and> metric_component_uuid m = metric_component_uuid metric \<and> m_name m = m_name metric)
            (m_manager_data (tabs ''Metric''));
          index = index_of (get_uuid metric) array_members
      in if index \<ge> length array_members then Inl (UrlNotFound ''Metric'') else Inr index)"

text \<open>The last part of \<open>build_metric_path\<close>, once the path of the component is built.\<close>

definition append_metric :: "('n, 'p) rest_tables \<Rightarrow> ('n, 'p) rest_resource \<Rightarrow> string \<Rightarrow> rest_exception + string" where
  "append_metric tabs metric path =
     (if m_name metric = Some ''/PowerConsumedWatts''
      then Inr (path_append ''PowerConsumedWatts'' (path_append_index 0 (append_jsonptr ''/PowerControl'' path)))
      else if m_name metric = Some ''/Oem/Intel_RackScale/InputACPowerWatts''
      then Inr (append_jsonptr ''/Oem/Intel_RackScale/InputACPowerWatts'' path)
      else if m_name metric = Some ''/ReadingVolts''
      then sbind (find_metric_index tabs metric) (\<lambda>index.
             Inr (path_append ''ReadingVolts'' (path_append_index index (append_jsonptr ''/Voltages'' path))))
      else if m_name metric = Some ''/Oem/Intel_RackScale/VolumetricAirflowCfm''
      then Inr (append_jsonptr ''/Oem/Intel_RackScale/VolumetricAirflowCfm'' path)
      else if m_name metric = Some ''/Reading'' then Inr (path_append ''Reading'' path)
      else if m_name metric = Some ''/ReadingCelsius''
      then sbind (find_metric_index tabs metric) (\<lambda>index.
             Inr (path_append ''ReadingCelsius'' (path_append_index index (append_jsonptr ''/Temperatures'' path))))
      else case m_name metric of
             Some n \<Rightarrow> Inr (append_jsonptr n (path_append ''Metrics'' path))
           | None \<Rightarrow> Inl (OtherError ''bad optional access''))"

definition build_array_member :: "('n, 'p) rest_tables \<Rightarrow> component \<Rightarrow> uuid \<Rightarrow> ('n, 'p) rest_resource \<Rightarrow> string \<Rightarrow> string \<Rightarrow> rest_exception + string" where
  "build_array_member tabs c u resource array_name path =
     (let array_members = get_keys_by_parent (tabs c) (m_parent_uuid resource) (\<lambda>_. True);
          index = index_of u array_members
      in if index \<ge> length array_members then Inl (UrlNotFound c)
         else Inr (path_append_index index (append_jsonptr (''/'' @ array_name) path)))"

text \<open>The cases of the switch; \<open>rec\<close> stands for the recursive calls.\<close>

definition component_url_case ::
    "(component \<Rightarrow> uuid \<Rightarrow> string \<Rightarrow> rest_exception + string)
       \<Rightarrow> ('n, 'p) rest_tables \<Rightarrow> component \<Rightarrow> uuid \<Rightarrow> string \<Rightarrow> rest_exception + string" where
  "component_url_case rec tabs c u path =
     (case map_of parent_literals c of
        Some literal \<Rightarrow> build_parent_path tabs c u literal path
      | None \<Rightarrow>
     (case map_of child_literals c of
        Some literal \<Rightarrow>
          sbind (lift_model (get_entry (tabs c) u)) (\<lambda>r.
          sbind (rec (m_parent_type r) (m_parent_uuid r) path) (\<lambda>parent_path.
          Inr (path_append_id (m_id r) (path_append literal parent_path))))
      | None \<Rightarrow>
     (case map_of array_literals c of
        Some array_name \<Rightarrow>
          sbind (lift_model (get_entry (tabs c) u)) (\<lambda>r.
          sbind (rec (m_parent_type r) (m_parent_uuid r) path) (\<lambda>parent_path.
          build_array_member tabs c u r array_name parent_path))
      | None \<Rightarrow>
     (if c = ''Task'' then
        build_parent_path tabs ''Task'' u ''Tasks'' (path_append ''TaskService'' path)
      else if c = ''MetricDefinition'' then
        build_parent_path tabs ''MetricDefinition'' u ''MetricDefinitions'' (path_append ''TelemetryService'' path)
      else if c = ''NetworkInterface'' then
        sbind (lift_model (get_entry (tabs c) u)) (\<lambda>nic.
        if m_parent_type nic = ''Manager'' \<or> m_parent_type nic = ''System''
        then sbind (rec (m_parent_type nic) (m_parent_uuid nic) path) (\<lambda>parent_path.
             Inr (path_append_id (m_id nic) (path_append ''EthernetInterfaces'' parent_path)))
        else Inl (UrlNotFound ''NetworkInterface''))
      else if c = ''PcieDevice'' then
        sbind (lift_model (get_entry (tabs c) u)) (\<lambda>device.
        let chassis_uuids = get_keys_by_parent (tabs ''Chassis'') (m_parent_uuid device) (\<lambda>_. True)
        in if length chassis_uuids \<noteq> 1 then Inr path
           else sbind (rec ''Chassis'' (hd chassis_uuids) path) (\<lambda>chassis_path.
                Inr (path_append_id (m_id device) (path_append ''PCIeDevices'' chassis_path))))
      else if c = ''PowerZone'' \<or> c = ''ThermalZone'' then
        sbind (lift_model (get_entry (tabs c) u)) (\<lambda>zone.
        sbind (rec ''Chassis'' (m_parent_uuid zone) path) (\<lambda>chassis_path.
        Inr (path_append (if c = ''PowerZone'' then ''Power'' else ''Thermal'') chassis_path)))
      else if c = ''Metric'' then
        sbind (lift_model (get_entry (tabs c) u)) (\<lambda>metric.
        case rec (metric_component_type metric) (metric_component_uuid metric) path of
          Inl (ModelError (InvalidUuid problem v)) \<Rightarrow> Inl (UrlNotFound ''Metric'')
        | Inl e \<Rightarrow> Inl e
        | Inr component_path \<Rightarrow> append_metric tabs metric component_path)
      else Inl (UrlNotFound c)))))"

lemma component_url_parent:
  "map_of parent_literals c = Some literal \<Longrightarrow> component_url_case rec tabs c u path = build_parent_path tabs c u literal path"
  by (simp add: component_url_case_def)

lemma component_url_child:
  "\<lbrakk>map_of parent_literals c = None; map_of child_literals c = Some literal\<rbrakk> \<Longrightarrow>
   component_url_case rec tabs c u path =
     sbind (lift_model (get_entry (tabs c) u)) (\<lambda>r.
     sbind (rec (m_parent_type r) (m_parent_uuid r) path) (\<lambda>parent_path.
     Inr (path_append_id (m_id r) (path_append literal parent_path))))"
  by (simp add: component_url_case_def)

lemma component_url_array:
  "\<lbrakk>map_of parent_literals c = None; map_of child_literals c = None; map_of array_literals c = Some array_name\<rbrakk> \<Longrightarrow>
   component_url_case rec tabs c u path =
     sbind (lift_model (get_entry (tabs c) u)) (\<lambda>r.
     sbind (rec (m_parent_type r) (m_parent_uuid r) path) (\<lambda>parent_path.
     build_array_member tabs c u r array_name parent_path))"
  by (simp add: component_url_case_def)

primrec get_component_url_recursive ::
    "nat \<Rightarrow> ('n, 'p) rest_tables \<Rightarrow> component \<Rightarrow> uuid \<Rightarrow> string \<Rightarrow> rest_exception + string" where
  "get_component_url_recursive 0 tabs = (\<lambda>c u path. Inl RecursionLimit)"
| "get_component_url_recursive (Suc n) tabs = component_url_case (get_component_url_recursive n tabs) tabs"

definition get_component_url :: "nat \<Rightarrow> ('n, 'p) rest_tables \<Rightarrow> component \<Rightarrow> uuid \<Rightarrow> rest_exception + string" where
  "get_component_url depth tabs c u = get_component_url_recursive depth tabs c u ROOT_PATH"

end
