(* ===== verification/Handler_Removal.thy ===== *)
theory Handler_Removal
  imports Rest_Model Effect_Frame
begin

text \<open>
  How the handlers of the REST service remove resources (\<open>generic_handler.hpp\<close> and the handlers
  that extend it): a resource is removed together with everything below it, an event is
  recorded for each, its number is released and its links are cleared. Used when an agent
  reports a removal, when a polling does not find a resource any more, on the request of a
  user, and when an agent has disappeared.
\<close>

subsection \<open>Events of a call\<close>

definition record_event :: "event \<Rightarrow> ('n, 'p, 'w) rest_state \<Rightarrow> ('n, 'p, 'w) rest_state" where
  "record_event e s = s\<lparr> rest_ctx := (rest_ctx s)\<lparr> ctx_events := ctx_events (rest_ctx s) @ [e] \<rparr> \<rparr>"

text \<open>An address with a JSON pointer is that of a property: the event is an update of the resource.\<close>

definition add_event :: "('n, 'p, 'w) rest_env \<Rightarrow> component \<Rightarrow> event_type \<Rightarrow> uuid \<Rightarrow> ('n, 'p, 'w, unit) rest_eff" where
  "add_event env c t u s =
     (case get_component_url (env_depth env) (rest_tables s) c u of
        Inl e \<Rightarrow> if is_not_found e then (Inr (), s) else (Inl e, s)
      | Inr url \<Rightarrow>
          (case find_char CHR ''#'' url of
             Some position \<Rightarrow> (Inr (), record_event (ResourceUpdated, take position url) s)
           | None \<Rightarrow> (Inr (), record_event (t, url) s)))"

subsection \<open>Links of a removed resource\<close>

definition on_links :: "string \<Rightarrow> (m2m \<Rightarrow> m2m) \<Rightarrow> (string \<Rightarrow> m2m) \<Rightarrow> (string \<Rightarrow> m2m)" where
  "on_links name f l = l(name := f (l name))"

definition acl_unlink :: "uuid \<Rightarrow> (string \<Rightarrow> m2m) \<Rightarrow> (string \<Rightarrow> m2m)" where
  "acl_unlink u = on_links ''acl_port'' (m2m_remove_parent u)"

definition drive_unlink :: "uuid \<Rightarrow> (string \<Rightarrow> m2m) \<Rightarrow> (string \<Rightarrow> m2m)" where
  "drive_unlink u l =
     on_links ''drive_function'' (m2m_remove_parent u)
       (on_links ''storage_service_drive'' (m2m_remove_child u)
          (on_links ''storage_subsystem_drive'' (m2m_remove_child u) l))"

definition endpoint_unlink :: "uuid \<Rightarrow> (string \<Rightarrow> m2m) \<Rightarrow> (string \<Rightarrow> m2m)" where
  "endpoint_unlink u l =
     on_links ''zone_endpoint'' (m2m_remove_child u) (on_links ''endpoint_port'' (m2m_remove_parent u) l)"

definition ethernet_switch_port_unlink :: "uuid \<Rightarrow> (string \<Rightarrow> m2m) \<Rightarrow> (string \<Rightarrow> m2m)" where
  "ethernet_switch_port_unlink u l =
     on_links ''acl_port'' (m2m_remove_child u)
       (on_links ''port_members'' (do_remove_if (\<lambda>parent child _. parent = u \<or> child = u)) l)"

text \<open>The links of a PCIe function are cleared only under a drive or a processor.\<close>

definition pcie_function_unlink :: "component \<Rightarrow> uuid \<Rightarrow> (string \<Rightarrow> m2m) \<Rightarrow> (string \<Rightarrow> m2m)" where
  "pcie_function_unlink parent_component u l =
     (if parent_component = ''Drive'' then on_links ''drive_function'' (m2m_remove_child u) l
      else if parent_component = ''Processor'' then on_links ''processor_function'' (m2m_remove_child u) l
      else l)"

definition port_unlink :: "uuid \<Rightarrow> (string \<Rightarrow> m2m) \<Rightarrow> (string \<Rightarrow> m2m)" where
  "port_unlink u = on_links ''endpoint_port'' (m2m_remove_child u)"

definition storage_service_unlink :: "uuid \<Rightarrow> (string \<Rightarrow> m2m) \<Rightarrow> (string \<Rightarrow> m2m)" where
  "storage_service_unlink u = on_links ''system_storage_service'' (m2m_remove_child u)"

definition storage_subsystem_unlink :: "uuid \<Rightarrow> (string \<Rightarrow> m2m) \<Rightarrow> (string \<Rightarrow> m2m)" where
  "storage_subsystem_unlink u = on_links ''storage_subsystem_drive'' (m2m_remove_parent u)"

definition volume_unlink :: "uuid \<Rightarrow> (string \<Rightarrow> m2m) \<Rightarrow> (string \<Rightarrow> m2m)" where
  "volume_unlink u = on_links ''storage_pool_volume'' (m2m_remove_child u)"

definition zone_unlink :: "uuid \<Rightarrow> (string \<Rightarrow> m2m) \<Rightarrow> (string \<Rightarrow> m2m)" where
  "zone_unlink u = on_links ''zone_endpoint'' (m2m_remove_parent u)"

definition handler_unlink :: "component \<Rightarrow> component \<Rightarrow> uuid \<Rightarrow> (string \<Rightarrow> m2m) \<Rightarrow> (string \<Rightarrow> m2m)" where
  "handler_unlink h parent_component u =
     (if h = ''Acl'' then acl_unlink u
      else if h = ''Drive'' then drive_unlink u
      else if h = ''Endpoint'' then endpoint_unlink u
      else if h = ''EthernetSwitchPort'' then ethernet_switch_port_unlink u
      else if h = ''PcieFunction'' then pcie_function_unlink parent_component u
      else if h = ''Port'' then port_unlink u
      else if h = ''StorageService'' then storage_service_unlink u
      else if h = ''StorageSubsystem'' then storage_subsystem_unlink u
      else if h = ''Volume'' then volume_unlink u
      else if h = ''Zone'' then zone_unlink u
      else (\<lambda>l. l))"

definition unlink :: "component \<Rightarrow> uuid \<Rightarrow> ('n, 'p, 'w, unit) rest_eff" where
  "unlink h u = emodify (\<lambda>s. s\<lparr> rest_links := handler_unlink h (get_parent_component (rest_ctx s)) u (rest_links s) \<rparr>)"

subsection \<open>Removing a resource and everything below it\<close>

definition on_table :: "component \<Rightarrow> (('n, 'p) rest_resource manager \<Rightarrow> ('n, 'p) rest_resource manager)
    \<Rightarrow> ('n, 'p, 'w) rest_state \<Rightarrow> ('n, 'p, 'w) rest_state" where
  "on_table c f s = s\<lparr> rest_tables := (rest_tables s)(c := f (rest_tables s c)) \<rparr>"

definition release_id :: "('n, 'p, 'w) rest_env \<Rightarrow> component \<Rightarrow> uuid \<Rightarrow> uuid \<Rightarrow> ('n, 'p, 'w, unit) rest_eff" where
  "release_id env h u parent_uuid s =
     (case purge (handler_policy (env_location env) h) (env_clock env (rest_world s)) u parent_uuid (rest_ids s) of
        (Inl e, ids) \<Rightarrow> (Inl (IdError e), s\<lparr> rest_ids := ids \<rparr>)
      | (Inr _, ids) \<Rightarrow> (Inr (), s\<lparr> rest_ids := ids \<rparr>))"

definition remove_single :: "('n, 'p, 'w) rest_env \<Rightarrow> component \<Rightarrow> uuid \<Rightarrow> ('n, 'p, 'w, unit) rest_eff" where
  "remove_single env h u =
     eseq (add_event env (handler_model h) ResourceRemoved u)
     (ebind (\<lambda>s. (lift_model (get_entry (rest_tables s (handler_model h)) u), s)) (\<lambda>entry.
      eseq (emodify (on_table (handler_model h) (\<lambda>m. snd (manager_remove_entry u m))))
           (release_id env h u (m_parent_uuid entry))))"

definition get_handler :: "component \<Rightarrow> ('n, 'p, 'w, component) rest_eff" where
  "get_handler c = (if c \<in> set component_handlers then eret c else ethrow (InvalidValue c))"

definition child_keys :: "component \<Rightarrow> uuid \<Rightarrow> ('n, 'p, 'w) rest_state \<Rightarrow> uuid list" where
  "child_keys h parent s = get_keys_by_parent (rest_tables s (handler_model h)) parent (\<lambda>_. True)"

text \<open>
  \<open>do_remove\<close> of a handler: its override clears the links, then the children are removed by the
  handlers of the kinds met below (\<open>remove_all\<close>), then the resource itself.
\<close>

primrec do_remove :: "nat \<Rightarrow> ('n, 'p, 'w) rest_env \<Rightarrow> component \<Rightarrow> uuid \<Rightarrow> ('n, 'p, 'w, unit) rest_eff" where
  "do_remove 0 env = (\<lambda>h u. ethrow RecursionLimit)"
| "do_remove (Suc n) env = (\<lambda>h u.
     eseq (unlink h u)
     (eseq (ebind (eget (\<lambda>s. rest_subs s h)) (efor (\<lambda>c.
              ebind (get_handler c) (\<lambda>h'. ebind (eget (child_keys h' u)) (efor (do_remove n env h'))))))
           (remove_single env h u)))"

definition remove_all :: "nat \<Rightarrow> ('n, 'p, 'w) rest_env \<Rightarrow> component \<Rightarrow> uuid \<Rightarrow> ('n, 'p, 'w, unit) rest_eff" where
  "remove_all n env h parent = ebind (eget (child_keys h parent)) (efor (do_remove n env h))"

definition count_removed :: "('n, 'p, 'w, unit) rest_eff" where
  "count_removed = emodify (\<lambda>s. s\<lparr> rest_ctx := (rest_ctx s)\<lparr> num_removed := num_removed (rest_ctx s) + 1 \<rparr> \<rparr>)"

definition remove_untouched :: "('n, 'p, 'w) rest_env \<Rightarrow> component \<Rightarrow> uuid \<Rightarrow> u64 \<Rightarrow> ('n, 'p, 'w, unit) rest_eff" where
  "remove_untouched env h parent_uuid epoch s =
     (if ctx_mode (rest_ctx s) = POLLING \<or> ctx_mode (rest_ctx s) = LOADING
      then efor (\<lambda>u. eseq (do_remove (env_depth env) env h u) count_removed)
             (get_keys_by_parent (rest_tables s (handler_model h)) parent_uuid
                (\<lambda>entry. m_agent_id entry = ctx_agent (rest_ctx s) \<and> \<not> was_touched_after epoch entry)) s
      else (Inr (), s))"

text \<open>Removal on the request of a user.\<close>

definition handler_remove :: "('n, 'p, 'w) rest_env \<Rightarrow> component \<Rightarrow> uuid \<Rightarrow> ('n, 'p, 'w, unit) rest_eff" where
  "handler_remove env h u =
     with_context (new_context USER_ACTION [] [])
       (eseq (do_remove (env_depth env) env h u) (emodify (\<lambda>s. notify (ctx_events (rest_ctx s)) s)))"

subsection \<open>Removing everything an agent reported\<close>

text \<open>The tables of links a handler clears for the agent, before and after it removes its resources.\<close>

definition cleaned_before :: "component \<Rightarrow> component \<Rightarrow> string list" where
  "cleaned_before h parent_component =
     (if h = ''Drive'' then [''storage_subsystem_drive'', ''storage_service_drive'', ''drive_function'']
      else if h = ''Endpoint'' then [''endpoint_port'', ''zone_endpoint'']
      else if h = ''EthernetSwitchPort'' then [''acl_port'', ''port_members'']
      else if h = ''PcieFunction''
      then (if parent_component = ''Drive'' then [''drive_function'']
            else if parent_component = ''Processor'' then [''processor_function''] else [])
      else if h = ''Port'' then [''endpoint_port'']
      else if h = ''StorageService'' then [''system_storage_service'']
      else if h = ''Volume'' then [''storage_pool_volume'']
      else [])"

definition cleaned_after :: "component \<Rightarrow> string list" where
  "cleaned_after h =
     (if h = ''Acl'' then [''acl_port'']
      else if h = ''StorageSubsystem'' then [''storage_subsystem_drive'']
      else if h = ''Zone'' then [''zone_endpoint'']
      else [])"

definition clean_links :: "string \<Rightarrow> string list \<Rightarrow> (string \<Rightarrow> m2m) \<Rightarrow> (string \<Rightarrow> m2m)" where
  "clean_links gami names l = fold (\<lambda>name. on_links name (m2m_clean_resources_for_agent gami)) names l"

definition handler_remove_agent_data :: "('n, 'p, 'w) rest_env \<Rightarrow> string \<Rightarrow> component \<Rightarrow> ('n, 'p, 'w, unit) rest_eff" where
  "handler_remove_agent_data env gami h =
     eseq (emodify (\<lambda>s. s\<lparr> rest_links := clean_links gami (cleaned_before h (get_parent_component (rest_ctx s))) (rest_links s) \<rparr>))
     (eseq (ebind (eget (\<lambda>s. get_keys (\<lambda>entry. m_agent_id entry = gami) (m_manager_data (rest_tables s (handler_model h)))))
             (efor (do_remove (env_depth env) env h)))
           (emodify (\<lambda>s. s\<lparr> rest_links := clean_links gami (cleaned_after h) (rest_links s) \<rparr>)))"

definition remove_agent_data :: "('n, 'p, 'w) rest_env \<Rightarrow> string \<Rightarrow> ('n, 'p, 'w, unit) rest_eff" where
  "remove_agent_data env gami =
     with_context (new_context AGENT_DISAPPEARED [] [])
       (eseq (efor (handler_remove_agent_data env gami) (get_handlers env))
             (emodify (\<lambda>s. notify (ctx_events (rest_ctx s)) s)))"

end
