(* ===== verification/Handler_Fetch.thy ===== *)
theory Handler_Fetch
  imports Handler_Removal "HOL-Library.Signed_Division"
begin

text \<open>
  How the handlers of the REST service read resources from an agent: a call to an agent
  (\<open>json_agent.hpp\<close>), reading one resource, storing it with the events for subscribers, reading
  the collections below it, the overrides of the handlers with several parents, and the
  entry points: polling, loading, and handling an event of an agent.
\<close>

subsection \<open>Calls to an agent\<close>

definition REMOVE_AGENT_AFTER_SECONDS :: int where
  "REMOVE_AGENT_AFTER_SECONDS = 60"

definition agent_manager_remove_agent :: "string \<Rightarrow> ('n, 'p, 'w, unit) rest_eff" where
  "agent_manager_remove_agent gami = emodify (\<lambda>s. s\<lparr> rest_agents := filter (\<lambda>a. a \<noteq> gami) (rest_agents s) \<rparr>)"

definition set_observed_at :: "string \<Rightarrow> int option \<Rightarrow> ('n, 'p, 'w) rest_state \<Rightarrow> ('n, 'p, 'w) rest_state" where
  "set_observed_at gami t s =
     s\<lparr> connection_error_observed_at := (connection_error_observed_at s)(gami := t) \<rparr>"

text \<open>
  After a failure of the connection the agent's data is removed when the first failure in a
  row was observed a minute ago or more; the call throws in any case.
\<close>

definition connection_failed :: "('n, 'p, 'w) rest_env \<Rightarrow> string \<Rightarrow> ('n, 'p, 'w, unit) rest_eff" where
  "connection_failed env gami s =
     (let now = env_now env (rest_world s)
      in case connection_error_observed_at s gami of
           Some observed_at \<Rightarrow>
             (if (now - observed_at) sdiv 1000000000 \<ge> REMOVE_AGENT_AFTER_SECONDS
              then eseq (remove_agent_data env gami) (agent_manager_remove_agent gami) s
              else (Inr (), s))
         | None \<Rightarrow> (Inr (), set_observed_at gami (Some now) s))"

definition execute :: "('n, 'p, 'w) rest_env \<Rightarrow> rpc_request \<Rightarrow> ('n, 'p, 'w, ('n, 'p) rest_resource rpc_outcome) rest_eff" where
  "execute env req s =
     (let gami = ctx_agent (rest_ctx s)
      in case env_call env gami req (rest_world s) of
           (answer, w) \<Rightarrow>
             (let reached = s\<lparr> rest_world := w \<rparr>
              in case answer of
                   ConnectorError \<Rightarrow> eseq (connection_failed env gami) (ethrow (AgentUnreachable gami)) reached
                 | ServerFailure messages \<Rightarrow> (Inl (ServerError messages), reached)
                 | ConversionRejected reason \<Rightarrow> (Inl (InvalidValue reason), set_observed_at gami None reached)
                 | ConversionFailure reason \<Rightarrow> (Inl (OtherError reason), set_observed_at gami None reached)
                 | response \<Rightarrow> (Inr response, set_observed_at gami None reached)))"

definition bad_shape :: "('n, 'p, 'w, 'a) rest_eff" where
  "bad_shape = ethrow (OtherError ''type_error'')"

definition execute_resource :: "('n, 'p, 'w) rest_env \<Rightarrow> rpc_request \<Rightarrow> ('n, 'p, 'w, ('n, 'p) rest_resource) rest_eff" where
  "execute_resource env req =
     ebind (execute env req) (\<lambda>out. case out of Resource r \<Rightarrow> eret r | _ \<Rightarrow> bad_shape)"

definition execute_list :: "('n, 'p, 'w) rest_env \<Rightarrow> rpc_request \<Rightarrow> ('n, 'p, 'w, uuid list) rest_eff" where
  "execute_list env req =
     ebind (execute env req) (\<lambda>out. case out of Subcomponents us \<Rightarrow> eret us | _ \<Rightarrow> bad_shape)"

definition execute_metrics :: "('n, 'p, 'w) rest_env \<Rightarrow> rpc_request \<Rightarrow> ('n, 'p, 'w, ('n, 'p) rest_resource list) rest_eff" where
  "execute_metrics env req =
     ebind (execute env req) (\<lambda>out. case out of Metrics ms \<Rightarrow> eret ms | _ \<Rightarrow> bad_shape)"

subsection \<open>The list of a collection\<close>

definition empty_if_rpc_error :: "('n, 'p, 'w, uuid list) rest_eff \<Rightarrow> ('n, 'p, 'w, uuid list) rest_eff" where
  "empty_if_rpc_error m = ecatch m (\<lambda>e. if is_json_rpc_exception e then eret [] else ethrow e)"

definition generic_uuid_list :: "('n, 'p, 'w) rest_env \<Rightarrow> uuid \<Rightarrow> string \<Rightarrow> ('n, 'p, 'w, uuid list) rest_eff" where
  "generic_uuid_list env parent_uuid collection_name =
     empty_if_rpc_error (execute_list env (GetCollection parent_uuid collection_name))"

definition manager_uuid_list :: "('n, 'p, 'w) rest_env \<Rightarrow> uuid \<Rightarrow> string \<Rightarrow> ('n, 'p, 'w, uuid list) rest_eff" where
  "manager_uuid_list env parent_uuid collection_name =
     empty_if_rpc_error
       (ebind (eget (\<lambda>s. get_parent_component (rest_ctx s))) (\<lambda>parent_component.
        if parent_component = ''None'' then execute_list env GetManagersCollection
        else generic_uuid_list env parent_uuid collection_name))"

text \<open>Collections that exist only at the root of an agent.\<close>

definition root_uuid_list ::
    "string \<Rightarrow> ('n, 'p, 'w, uuid list) rest_eff \<Rightarrow> uuid \<Rightarrow> string \<Rightarrow> ('n, 'p, 'w, uuid list) rest_eff" where
  "root_uuid_list own_name fetch_all parent_uuid collection_name =
     ebind (eget (\<lambda>s. get_parent_component (rest_ctx s))) (\<lambda>parent_component.
       if parent_component \<noteq> ''None'' \<or> parent_uuid \<noteq> [] \<or> collection_name \<noteq> own_name then eret []
       else empty_if_rpc_error fetch_all)"

definition task_uuid_list :: "('n, 'p, 'w) rest_env \<Rightarrow> uuid \<Rightarrow> string \<Rightarrow> ('n, 'p, 'w, uuid list) rest_eff" where
  "task_uuid_list env = root_uuid_list ''Tasks'' (execute_list env GetTasksCollection)"

definition metric_definition_uuid_list :: "('n, 'p, 'w) rest_env \<Rightarrow> uuid \<Rightarrow> string \<Rightarrow> ('n, 'p, 'w, uuid list) rest_eff" where
  "metric_definition_uuid_list env =
     root_uuid_list ''MetricDefinitions'' (execute_list env GetMetricDefinitionsCollection)"

definition metric_uuid_list :: "('n, 'p, 'w) rest_env \<Rightarrow> uuid \<Rightarrow> string \<Rightarrow> ('n, 'p, 'w, uuid list) rest_eff" where
  "metric_uuid_list env =
     root_uuid_list ''Metrics'' (ebind (execute_metrics env (GetMetrics None)) (\<lambda>ms. eret (map get_uuid ms)))"

definition fetch_uuid_list :: "('n, 'p, 'w) rest_env \<Rightarrow> component \<Rightarrow> uuid \<Rightarrow> string \<Rightarrow> ('n, 'p, 'w, uuid list) rest_eff" where
  "fetch_uuid_list env h =
     (if h = ''Manager'' then manager_uuid_list env
      else if h = ''Task'' then task_uuid_list env
      else if h = ''MetricDefinition'' then metric_definition_uuid_list env
      else if h = ''Metric'' then metric_uuid_list env
      else generic_uuid_list env)"

subsection \<open>One resource\<close>

definition place :: "uuid \<Rightarrow> uuid \<Rightarrow> ('n, 'p) rest_resource \<Rightarrow> ('n, 'p, 'w, ('n, 'p) rest_resource) rest_eff" where
  "place parent u element =
     eget (\<lambda>s. (set_uuid u (element\<lparr> m_parent_uuid := parent \<rparr>))\<lparr> m_parent_type := get_parent_component (rest_ctx s) \<rparr>)"

definition generic_fetch_entry ::
    "('n, 'p, 'w) rest_env \<Rightarrow> component \<Rightarrow> uuid \<Rightarrow> uuid \<Rightarrow> ('n, 'p, 'w, ('n, 'p) rest_resource) rest_eff" where
  "generic_fetch_entry env h parent u = ebind (execute_resource env (GetInfo (handler_model h) u)) (place parent u)"

definition metric_fetch_entry ::
    "('n, 'p, 'w) rest_env \<Rightarrow> uuid \<Rightarrow> uuid \<Rightarrow> ('n, 'p, 'w, ('n, 'p) rest_resource) rest_eff" where
  "metric_fetch_entry env parent u =
     ebind (execute_metrics env (GetMetrics (Some u))) (\<lambda>ms.
       case ms of [] \<Rightarrow> ethrow (ModelError (InvalidUuid EntryNotFound u)) | element # _ \<Rightarrow> place parent u element)"

text \<open>
  A message of a task from an extended message of an error, as the JSON object of the message.
  Reading a member that is not there is undefined; a member that is neither a string nor null
  throws, and so does a severity that is no \<open>Health\<close>.
\<close>

definition string_field :: "(string \<Rightarrow> bool) \<Rightarrow> json \<Rightarrow> string \<Rightarrow> rest_exception + json" where
  "string_field valid j k =
     (case json_member j k of None \<Rightarrow> Inl UndefinedBehaviour
      | Some JNull \<Rightarrow> Inr JNull
      | Some (JString x) \<Rightarrow> if valid x then Inr (JString x) else Inl (OtherError ''Invalid enum value'')
      | Some _ \<Rightarrow> Inl (OtherError ''type_error''))"

fun json_strings :: "json list \<Rightarrow> rest_exception + json list" where
  "json_strings [] = Inr []"
| "json_strings (JString x # js) = sbind (json_strings js) (\<lambda>r. Inr (JString x # r))"
| "json_strings (_ # js) = Inl (OtherError ''type_error'')"

definition array_member :: "json \<Rightarrow> string \<Rightarrow> rest_exception + json list" where
  "array_member j k = (case json_member j k of Some (JArray js) \<Rightarrow> json_strings js | _ \<Rightarrow> Inr [])"

definition task_message_from_redfish_message :: "json \<Rightarrow> rest_exception + json" where
  "task_message_from_redfish_message j =
     sbind (string_field (\<lambda>_. True) j ''MessageId'') (\<lambda>message_id.
     sbind (string_field (\<lambda>_. True) j ''Message'') (\<lambda>content.
     sbind (string_field (\<lambda>x. x \<in> {''OK'', ''Warning'', ''Critical''}) j ''Severity'') (\<lambda>severity.
     sbind (string_field (\<lambda>_. True) j ''Resolution'') (\<lambda>resolution.
     sbind (array_member j ''RelatedProperties'') (\<lambda>related_properties.
     sbind (array_member j ''MessageArgs'') (\<lambda>arguments.
     Inr (JObject [(''messageId'', message_id), (''messageContent'', content), (''severity'', severity),
       (''resolution'', resolution), (''relatedProperties'', JArray related_properties),
       (''messageArgs'', JArray arguments)])))))))"

fun set_related_properties :: "json list \<Rightarrow> json \<Rightarrow> json" where
  "set_related_properties ps (JObject ms) =
     JObject (map (\<lambda>(k, v). (k, if k = ''relatedProperties'' then JArray ps else v)) ms)"
| "set_related_properties ps j = j"

fun task_messages :: "json list \<Rightarrow> rest_exception + json list" where
  "task_messages [] = Inr []"
| "task_messages (j # js) =
     sbind (task_message_from_redfish_message j) (\<lambda>message.
     sbind (task_messages js) (\<lambda>messages.
     Inr (set_related_properties [JString ''#/Id''] message # messages)))"

text \<open>A task that the service knows keeps its messages and notifiers; a failed one gets the messages of its result.\<close>

definition task_known_parts :: "uuid \<Rightarrow> ('n, 'p) rest_resource \<Rightarrow> ('n, 'p, 'w) rest_state \<Rightarrow> ('n, 'p) rest_resource" where
  "task_known_parts u elem s =
     (case find_entry (rest_tables s ''Task'') u of
        Some task \<Rightarrow> elem\<lparr> m_messages := m_messages task, m_completion_notifiers := m_completion_notifiers task \<rparr>
      | None \<Rightarrow> elem)"

definition task_result_messages ::
    "('n, 'p, 'w) rest_env \<Rightarrow> uuid \<Rightarrow> ('n, 'p) rest_resource \<Rightarrow> ('n, 'p, 'w, ('n, 'p) rest_resource) rest_eff" where
  "task_result_messages env u elem =
     (if m_state elem = Some Task_Exception
      then ecatch (ebind (execute env (GetTaskResultInfo u)) (\<lambda>_. eret elem))
             (\<lambda>e. case e of
                ServerError extended_messages \<Rightarrow>
                  (case task_messages extended_messages of
                     Inl e' \<Rightarrow> ethrow e'
                   | Inr messages \<Rightarrow> eret (elem\<lparr> m_messages := messages \<rparr>))
              | _ \<Rightarrow> ethrow e)
      else eret elem)"

definition task_fetch_entry ::
    "('n, 'p, 'w) rest_env \<Rightarrow> uuid \<Rightarrow> uuid \<Rightarrow> ('n, 'p, 'w, ('n, 'p) rest_resource) rest_eff" where
  "task_fetch_entry env parent u =
     ebind (execute_resource env (GetInfo ''Task'' u)) (\<lambda>fetched.
     ebind (eget (task_known_parts u fetched)) (\<lambda>elem.
     ebind (task_result_messages env u elem) (place parent u)))"

definition fetch_entry ::
    "('n, 'p, 'w) rest_env \<Rightarrow> component \<Rightarrow> uuid \<Rightarrow> uuid \<Rightarrow> ('n, 'p, 'w, ('n, 'p) rest_resource) rest_eff" where
  "fetch_entry env h =
     (if h = ''Task'' then task_fetch_entry env
      else if h = ''Metric'' then metric_fetch_entry env
      else generic_fetch_entry env h)"

definition handler_get_id :: "('n, 'p, 'w) rest_env \<Rightarrow> component \<Rightarrow> uuid \<Rightarrow> uuid \<Rightarrow> ('n, 'p, 'w, u64) rest_eff" where
  "handler_get_id env h u parent_uuid s =
     (case get_id (handler_policy (env_location env) h) (env_clock env (rest_world s)) u parent_uuid (rest_ids s) of
        (Inl e, ids) \<Rightarrow> (Inl (IdError e), s\<lparr> rest_ids := ids \<rparr>)
      | (Inr i, ids) \<Rightarrow> (Inr i, s\<lparr> rest_ids := ids \<rparr>))"

text \<open>The specialisation of the table of tasks calls the notifiers of the task.\<close>

definition store_entry ::
    "('n, 'p, 'w) rest_env \<Rightarrow> component \<Rightarrow> ('n, 'p) rest_resource \<Rightarrow> ('n, 'p, 'w, update_status) rest_eff" where
  "store_entry env c entry s =
     (if c = ''Task''
      then (case task_add_or_update_entry (env_hash env) entry (rest_tables s c) of
              (Inl e, m) \<Rightarrow> (Inl (ModelError e), on_table c (\<lambda>_. m) s)
            | (Inr (status, called), m) \<Rightarrow> (Inr status, on_table c (\<lambda>_. m) (s\<lparr> rest_called := rest_called s @ called \<rparr>)))
      else (case add_or_update_entry (env_hash env) entry (rest_tables s c) of
              (Inl e, m) \<Rightarrow> (Inl (ModelError e), on_table c (\<lambda>_. m) s)
            | (Inr status, m) \<Rightarrow> (Inr status, on_table c (\<lambda>_. m) s)))"

definition on_context :: "(handler_context \<Rightarrow> handler_context) \<Rightarrow> ('n, 'p, 'w, unit) rest_eff" where
  "on_context f = emodify (\<lambda>s. s\<lparr> rest_ctx := f (rest_ctx s) \<rparr>)"

definition add_to_model ::
    "('n, 'p, 'w) rest_env \<Rightarrow> component \<Rightarrow> ('n, 'p) rest_resource \<Rightarrow> ('n, 'p, 'w, update_status) rest_eff" where
  "add_to_model env h entry =
     (let c = handler_model h; u = get_uuid entry in
      ebind (store_entry env c entry) (\<lambda>status.
      eseq (if status = StatusChanged
            then eseq (add_event env c StatusChange u)
                   (on_context (\<lambda>x. x\<lparr> num_status_changed := num_status_changed x + 1 \<rparr>))
            else eret ())
      (eseq (if status = StatusChanged \<and> status_health (m_status entry) = Some Health_Critical
            then eseq (add_event env c Alert u) (on_context (\<lambda>x. x\<lparr> num_alerts := num_alerts x + 1 \<rparr>))
            else eret ())
      (eseq (if status = StatusChanged \<or> status = Updated
            then eseq (add_event env c ResourceUpdated u) (on_context (\<lambda>x. x\<lparr> num_updated := num_updated x + 1 \<rparr>))
            else eret ())
      (eseq (if status = Added
            then eseq (add_event env c ResourceAdded u) (on_context (\<lambda>x. x\<lparr> num_added := num_added x + 1 \<rparr>))
            else eret ())
      (eret status))))))"

definition fetch :: "('n, 'p, 'w) rest_env \<Rightarrow> component \<Rightarrow> uuid \<Rightarrow> uuid \<Rightarrow> ('n, 'p, 'w, ('n, 'p) rest_resource) rest_eff" where
  "fetch env h parent u =
     ebind (fetch_entry env h parent u) (\<lambda>fetched.
     ebind (handler_get_id env h u parent) (\<lambda>i.
     ebind (eget (\<lambda>s. fetched\<lparr> m_id := i, m_agent_id := ctx_agent (rest_ctx s) \<rparr>)) (\<lambda>entry.
     ebind (add_to_model env h entry) (\<lambda>_. eret entry))))"

subsection \<open>The collections below a resource\<close>

text \<open>
  A collection holds resources below its parent, or only links to resources that are below
  another one: links from the parent, or, for the ACLs of a port, links to it.
\<close>

datatype collection_kind = Strong | Weak string | WeakParents string | Ignored

definition acl_collection :: "component \<Rightarrow> collection_kind" where
  "acl_collection parent =
     (if parent = ''EthernetSwitch'' then Strong
      else if parent = ''EthernetSwitchPort'' then WeakParents ''acl_port'' else Ignored)"

definition drive_collection :: "component \<Rightarrow> collection_kind" where
  "drive_collection parent =
     (if parent = ''Chassis'' then Strong
      else if parent = ''StorageSubsystem'' then Weak ''storage_subsystem_drive''
      else if parent = ''StorageService'' then Weak ''storage_service_drive'' else Ignored)"

definition endpoint_collection :: "component \<Rightarrow> collection_kind" where
  "endpoint_collection parent =
     (if parent = ''Fabric'' then Strong else if parent = ''Zone'' then Weak ''zone_endpoint'' else Ignored)"

definition ethernet_switch_port_collection :: "component \<Rightarrow> collection_kind" where
  "ethernet_switch_port_collection parent =
     (if parent = ''EthernetSwitch'' then Strong
      else if parent = ''EthernetSwitchPort'' then Weak ''port_members''
      else if parent = ''Acl'' then Weak ''acl_port'' else Ignored)"

definition pcie_function_collection :: "component \<Rightarrow> collection_kind" where
  "pcie_function_collection parent =
     (if parent = ''PcieDevice'' then Strong
      else if parent = ''Drive'' then Weak ''drive_function''
      else if parent = ''Processor'' then Weak ''processor_function'' else Ignored)"

definition port_collection :: "component \<Rightarrow> collection_kind" where
  "port_collection parent =
     (if parent = ''Switch'' then Strong else if parent = ''Endpoint'' then Weak ''endpoint_port'' else Ignored)"

definition storage_service_collection :: "component \<Rightarrow> collection_kind" where
  "storage_service_collection parent =
     (if parent = ''Manager'' then Strong else if parent = ''System'' then Weak ''system_storage_service'' else Ignored)"

definition volume_collection :: "component \<Rightarrow> collection_kind" where
  "volume_collection parent =
     (if parent = ''StorageService'' then Strong
      else if parent = ''StoragePool'' then Weak ''storage_pool_volume'' else Ignored)"

definition collection_kind :: "component \<Rightarrow> component \<Rightarrow> collection_kind" where
  "collection_kind h parent =
     (if h = ''Acl'' then acl_collection parent
      else if h = ''Drive'' then drive_collection parent
      else if h = ''Endpoint'' then endpoint_collection parent
      else if h = ''EthernetSwitchPort'' then ethernet_switch_port_collection parent
      else if h = ''PcieFunction'' then pcie_function_collection parent
      else if h = ''Port'' then port_collection parent
      else if h = ''StorageService'' then storage_service_collection parent
      else if h = ''Volume'' then volume_collection parent
      else Strong)"

text \<open>The links of a parent become those the agent lists; \<open>fetch_acls\<close> does the same with the two ends exchanged.\<close>

definition fetch_links :: "('n, 'p, 'w) rest_env \<Rightarrow> component \<Rightarrow> string \<Rightarrow> uuid \<Rightarrow> string \<Rightarrow> ('n, 'p, 'w, unit) rest_eff" where
  "fetch_links env h name parent_uuid collection_name =
     ebind (fetch_uuid_list env h parent_uuid collection_name) (\<lambda>fetched.
       emodify (\<lambda>s. s\<lparr> rest_links := on_links name
         (\<lambda>t. snd (fetch_parent_children (Inr fetched) (ctx_agent (rest_ctx s)) parent_uuid t)) (rest_links s) \<rparr>))"

definition bind_acls :: "uuid list \<Rightarrow> string \<Rightarrow> uuid \<Rightarrow> m2m \<Rightarrow> m2m" where
  "bind_acls fetched gami port t =
     (let previous = m2m_get_parents t port;
          new_set = fold insort_insert fetched [];
          old_set = fold insort_insert previous [];
          to_add = set_difference new_set old_set;
          to_remove = set_difference old_set new_set
      in fold (\<lambda>acl. m2m_remove_entry acl port) to_remove (fold (\<lambda>acl. m2m_add_entry acl port gami) to_add t))"

definition fetch_acls :: "('n, 'p, 'w) rest_env \<Rightarrow> component \<Rightarrow> string \<Rightarrow> uuid \<Rightarrow> string \<Rightarrow> ('n, 'p, 'w, unit) rest_eff" where
  "fetch_acls env h name parent_uuid collection_name =
     ebind (fetch_uuid_list env h parent_uuid collection_name) (\<lambda>fetched.
       emodify (\<lambda>s. s\<lparr> rest_links := on_links name (bind_acls fetched (ctx_agent (rest_ctx s)) parent_uuid) (rest_links s) \<rparr>))"

text \<open>Only a lost connection, which nothing here handles, ends the reading of a collection.\<close>

definition unless_unreachable :: "('n, 'p, 'w, unit) rest_eff \<Rightarrow> ('n, 'p, 'w, unit) rest_eff" where
  "unless_unreachable m =
     ecatch m (\<lambda>e. if is_agent_unreachable e \<or> \<not> is_exception e then ethrow e else eret ())"

type_synonym ('n, 'p, 'w) adder = "component \<Rightarrow> uuid \<Rightarrow> uuid \<Rightarrow> bool \<Rightarrow> ('n, 'p, 'w, u64) rest_eff"

definition fetch_strong ::
    "('n, 'p, 'w) adder \<Rightarrow> ('n, 'p, 'w) rest_env \<Rightarrow> component \<Rightarrow> uuid \<Rightarrow> string \<Rightarrow> ('n, 'p, 'w, unit) rest_eff" where
  "fetch_strong adder env h parent_uuid collection_name =
     ebind (fetch_uuid_list env h parent_uuid collection_name)
       (efor (\<lambda>u. unless_unreachable (ebind (adder h parent_uuid u True) (\<lambda>_. eret ()))))"

definition fetch_siblings ::
    "('n, 'p, 'w) adder \<Rightarrow> ('n, 'p, 'w) rest_env \<Rightarrow> component \<Rightarrow> uuid \<Rightarrow> string \<Rightarrow> ('n, 'p, 'w, unit) rest_eff" where
  "fetch_siblings adder env h parent_uuid collection_name =
     ebind (eget (\<lambda>s. collection_kind h (get_parent_component (rest_ctx s)))) (\<lambda>kind.
       case kind of
         Strong \<Rightarrow> fetch_strong adder env h parent_uuid collection_name
       | Weak name \<Rightarrow> fetch_links env h name parent_uuid collection_name
       | WeakParents name \<Rightarrow> fetch_acls env h name parent_uuid collection_name
       | Ignored \<Rightarrow> eret ())"

definition sub_handlers :: "(string \<times> collection_type) list \<Rightarrow> (string \<times> component) list" where
  "sub_handlers collections =
     concat (map (\<lambda>(name, t). case map_of collection_handlers t of Some h \<Rightarrow> [(name, h)] | None \<Rightarrow> []) collections)"

definition remember_sub_handler :: "component \<Rightarrow> component \<Rightarrow> ('n, 'p, 'w, unit) rest_eff" where
  "remember_sub_handler h sub =
     emodify (\<lambda>s. s\<lparr> rest_subs := (rest_subs s)(h := component_insert (handler_model sub) (rest_subs s h)) \<rparr>)"

definition get_manager_epoch :: "component \<Rightarrow> ('n, 'p, 'w) rest_state \<Rightarrow> u64" where
  "get_manager_epoch h s = m_current_epoch (rest_tables s (handler_model h))"

text \<open>Only the lowest epoch of a table is kept.\<close>

definition note_epoch :: "component \<Rightarrow> (component \<rightharpoonup> u64) \<Rightarrow> ('n, 'p, 'w) rest_state \<Rightarrow> (component \<rightharpoonup> u64)" where
  "note_epoch h epochs s =
     (if epochs (handler_model h) = None then epochs(handler_model h \<mapsto> get_manager_epoch h s) else epochs)"

definition epoch_of :: "(component \<rightharpoonup> u64) \<Rightarrow> component \<Rightarrow> u64" where
  "epoch_of epochs h = (case epochs (handler_model h) of Some e \<Rightarrow> e | None \<Rightarrow> 0)"

primrec fetch_collections ::
    "('n, 'p, 'w) adder \<Rightarrow> ('n, 'p, 'w) rest_env \<Rightarrow> component \<Rightarrow> uuid \<Rightarrow> (string \<times> component) list
       \<Rightarrow> (component \<rightharpoonup> u64) \<Rightarrow> ('n, 'p, 'w, component \<rightharpoonup> u64) rest_eff" where
  "fetch_collections adder env h parent [] epochs = eret epochs"
| "fetch_collections adder env h parent (sub # subs) epochs =
     ebind (eget (note_epoch (snd sub) epochs)) (\<lambda>noted.
     eseq (unless_unreachable
             (eseq (fetch_siblings adder env (snd sub) parent (fst sub)) (remember_sub_handler h (snd sub))))
          (fetch_collections adder env h parent subs noted))"

definition push_component :: "component \<Rightarrow> ('n, 'p, 'w, unit) rest_eff" where
  "push_component c = on_context (\<lambda>x. x\<lparr> ctx_stack := c # ctx_stack x \<rparr>)"

definition pop_component :: "('n, 'p, 'w, unit) rest_eff" where
  "pop_component = on_context (\<lambda>x. x\<lparr> ctx_stack := tl (ctx_stack x) \<rparr>)"

definition handler_component :: "component \<Rightarrow> component" where
  "handler_component h = (if h = ''Root'' then ''None'' else handler_model h)"

definition fetch_subcomponents ::
    "('n, 'p, 'w) adder \<Rightarrow> ('n, 'p, 'w) rest_env \<Rightarrow> component \<Rightarrow> uuid \<Rightarrow> (string \<times> collection_type) list
       \<Rightarrow> ('n, 'p, 'w, unit) rest_eff" where
  "fetch_subcomponents adder env h parent collections =
     eseq (push_component (handler_component h))
     (ebind (fetch_collections adder env h parent (sub_handlers collections) Map.empty) (\<lambda>epochs.
      eseq (efor (\<lambda>sub. remove_untouched env (snd sub) parent (epoch_of epochs (snd sub))) (sub_handlers collections))
           pop_component))"

primrec add :: "nat \<Rightarrow> ('n, 'p, 'w) rest_env \<Rightarrow> ('n, 'p, 'w) adder" where
  "add 0 env = (\<lambda>h parent u recursively. ethrow RecursionLimit)"
| "add (Suc n) env = (\<lambda>h parent u recursively.
     ebind (fetch env h parent u) (\<lambda>entry.
     eseq (if recursively then fetch_subcomponents (add n env) env h u (m_collections entry) else eret ())
          (eret (m_id entry))))"

definition root_collections :: "(string \<times> collection_type) list" where
  "root_collections =
     [(''Managers'', ''Managers''), (''Tasks'', ''Tasks''), (''MetricDefinitions'', ''MetricDefinitions''), (''Metrics'', ''Metrics'')]"

definition root_add :: "('n, 'p, 'w) rest_env \<Rightarrow> uuid \<Rightarrow> ('n, 'p, 'w, u64) rest_eff" where
  "root_add env u = eseq (fetch_subcomponents (add (env_depth env) env) env ''Root'' u root_collections) (eret 0)"

end
