(* ===== verification/Handler_Entry.thy ===== *)
theory Handler_Entry
  imports Handler_Fetch
begin

text \<open>
  The entry points of the handlers (\<open>generic_handler.hpp\<close>, \<open>zone_handler.hpp\<close>, \<open>root_handler.hpp\<close>) and
  their callers in \<open>watcher.cpp\<close>: polling an agent, loading a resource or a collection after an
  action of a user, and the events an agent sends.
\<close>

definition notify_events :: "('n, 'p, 'w, unit) rest_eff" where
  "notify_events = emodify (\<lambda>s. notify (ctx_events (rest_ctx s)) s)"

definition handler_add :: "('n, 'p, 'w) rest_env \<Rightarrow> ('n, 'p, 'w) adder" where
  "handler_add env h parent u recursively =
     (if h = ''Root'' then root_add env u else add (env_depth env) env h parent u recursively)"

definition poll :: "('n, 'p, 'w) rest_env \<Rightarrow> string \<Rightarrow> component \<Rightarrow> uuid \<Rightarrow> component \<Rightarrow> uuid \<Rightarrow> ('n, 'p, 'w, unit) rest_eff" where
  "poll env gami h parent_uuid parent_component u =
     with_context (new_context POLLING gami [parent_component])
       (ecatch
          (eseq (ecatch (ebind (handler_add env h parent_uuid u True) (\<lambda>_. eret ()))
                   (\<lambda>e. if is_json_rpc_exception e then eret () else ethrow e))
                notify_events)
          (\<lambda>e. if is_agent_unreachable e then eret () else ethrow e))"

definition do_load :: "('n, 'p, 'w) rest_env \<Rightarrow> ('n, 'p, 'w) adder" where
  "do_load env h parent u recursively = handler_add env h parent u recursively"

definition handler_load :: "('n, 'p, 'w) rest_env \<Rightarrow> string \<Rightarrow> component \<Rightarrow> uuid \<Rightarrow> component \<Rightarrow> uuid \<Rightarrow> bool \<Rightarrow> ('n, 'p, 'w, u64) rest_eff" where
  "handler_load env gami h parent parent_component u recursively =
     with_context (new_context LOADING gami [parent_component])
       (ebind (do_load env h parent u recursively) (\<lambda>rest_id. eseq notify_events (eret rest_id)))"

text \<open>
  \<open>get_handler\<close> for a type of collection compares the position it found with the end of the
  other map, which is undefined when there is no handler.
\<close>

definition get_collection_handler :: "collection_type \<Rightarrow> ('n, 'p, 'w, component) rest_eff" where
  "get_collection_handler t =
     (case map_of collection_handlers t of Some h \<Rightarrow> eret h | None \<Rightarrow> ethrow UndefinedBehaviour)"

text \<open>Loading one level of the collections; the epochs are kept per type of collection.\<close>

primrec load_siblings ::
    "('n, 'p, 'w) rest_env \<Rightarrow> uuid \<Rightarrow> (string \<times> collection_type) list \<Rightarrow> (collection_type \<times> u64) list
       \<Rightarrow> ('n, 'p, 'w, (collection_type \<times> u64) list) rest_eff" where
  "load_siblings env parent [] epochs = eret epochs"
| "load_siblings env parent (col # cols) epochs =
     ebind (get_collection_handler (snd col)) (\<lambda>h.
     ebind (eget (\<lambda>s. if map_of epochs (snd col) = None then epochs @ [(snd col, get_manager_epoch h s)] else epochs)) (\<lambda>noted.
     ebind (fetch_uuid_list env h parent (fst col)) (\<lambda>siblings.
     eseq (efor (\<lambda>u. ebind (do_load env h parent u False) (\<lambda>_. eret ())) siblings)
          (load_siblings env parent cols noted))))"

definition load_collection ::
    "('n, 'p, 'w) rest_env \<Rightarrow> string \<Rightarrow> component \<Rightarrow> uuid \<Rightarrow> component \<Rightarrow> collection_type \<Rightarrow> bool \<Rightarrow> ('n, 'p, 'w, unit) rest_eff" where
  "load_collection env gami h parent parent_component t recursively =
     with_context (new_context LOADING gami [parent_component])
       (ebind (execute_resource env (GetInfo (handler_model h) parent)) (\<lambda>entry.
        let collections = filter (\<lambda>col. snd col = t) (m_collections entry) in
        eseq (if recursively
              then fetch_subcomponents (add (env_depth env) env) env h parent collections
              else ebind (load_siblings env parent collections []) (efor (\<lambda>(t', epoch).
                     ebind (get_collection_handler t') (\<lambda>h'. remove_untouched env h' parent epoch))))
             notify_events))"

text \<open>A zone is updated together with the links to its endpoints.\<close>

definition handler_update :: "('n, 'p, 'w) rest_env \<Rightarrow> component \<Rightarrow> uuid \<Rightarrow> uuid \<Rightarrow> ('n, 'p, 'w, u64) rest_eff" where
  "handler_update env h parent u = do_load env h parent u (h = ''Zone'')"

subsection \<open>Events of an agent\<close>

datatype notification = Notification_Add | Notification_Remove | Notification_Update

record event_data =
  ev_notification :: notification
  ev_type :: component
  ev_parent :: uuid
  ev_component :: uuid

definition registered_tables :: "('n, 'p, 'w) rest_env \<Rightarrow> ('n, 'p, 'w) rest_state \<Rightarrow> table_interface list" where
  "registered_tables env s = map (\<lambda>c. (c, entry_exists (rest_tables s c))) (env_registry env)"

fun is_invalid_value :: "rest_exception \<Rightarrow> bool" where
  "is_invalid_value (InvalidValue _) = True"
| "is_invalid_value _ = False"

definition handle_add :: "('n, 'p, 'w) rest_env \<Rightarrow> component \<Rightarrow> event_data \<Rightarrow> ('n, 'p, 'w, bool \<times> event list) rest_eff" where
  "handle_add env h ev =
     ecatch
       (ebind (eget (\<lambda>s. entry_exists (rest_tables s (handler_model h)) (ev_component ev))) (\<lambda>known.
          if known then eret (True, [])
          else ebind (handler_add env h (ev_parent ev) (ev_component ev) True) (\<lambda>_.
               eget (\<lambda>s. (True, ctx_events (rest_ctx s))))))
       (\<lambda>e. if is_agent_unreachable e
            then eseq (do_remove (env_depth env) env h (ev_component ev)) (eret (False, []))
            else ethrow e)"

definition handle_remove :: "('n, 'p, 'w) rest_env \<Rightarrow> component \<Rightarrow> event_data \<Rightarrow> ('n, 'p, 'w, bool \<times> event list) rest_eff" where
  "handle_remove env h ev =
     ecatch (eseq (do_remove (env_depth env) env h (ev_component ev)) (eget (\<lambda>s. (True, ctx_events (rest_ctx s)))))
       (\<lambda>e. if is_invalid_value e \<or> is_not_found e then eret (True, []) else ethrow e)"

definition handle_update :: "('n, 'p, 'w) rest_env \<Rightarrow> component \<Rightarrow> event_data \<Rightarrow> ('n, 'p, 'w, bool \<times> event list) rest_eff" where
  "handle_update env h ev =
     ebind (eget (\<lambda>s. entry_exists (rest_tables s (handler_model h)) (ev_component ev))) (\<lambda>known.
       if \<not> known then eret (True, [])
       else ebind (handler_update env h (ev_parent ev) (ev_component ev)) (\<lambda>_.
            eget (\<lambda>s. (True, ctx_events (rest_ctx s)))))"

definition handle :: "('n, 'p, 'w) rest_env \<Rightarrow> string \<Rightarrow> component \<Rightarrow> event_data \<Rightarrow> ('n, 'p, 'w, bool \<times> event list) rest_eff" where
  "handle env gami h ev s =
     with_context (new_context EVENT gami [find_component (registered_tables env s) (ev_parent ev)])
       (ecatch (case ev_notification ev of
                  Notification_Add \<Rightarrow> handle_add env h ev
                | Notification_Remove \<Rightarrow> handle_remove env h ev
                | Notification_Update \<Rightarrow> handle_update env h ev)
          (\<lambda>e. if is_exception e then eret (False, []) else ethrow e)) s"

subsection \<open>The watcher\<close>

text \<open>
  \<open>execute_in_transaction\<close> refuses to run when another transaction with the agent is running,
  which the last argument tells.
\<close>

definition execute_in_transaction :: "bool \<Rightarrow> ('n, 'p, 'w, unit) rest_eff \<Rightarrow> ('n, 'p, 'w, unit) rest_eff" where
  "execute_in_transaction busy f = (if busy then ethrow (ServerError []) else f)"

definition polling_execute :: "('n, 'p, 'w) rest_env \<Rightarrow> (string \<Rightarrow> bool) \<Rightarrow> ('n, 'p, 'w, unit) rest_eff" where
  "polling_execute env busy =
     ebind (eget rest_agents) (efor (\<lambda>gami.
       ecatch (execute_in_transaction (busy gami) (poll env gami ''Root'' [] ''None'' []))
         (\<lambda>e. if is_agent_unreachable e then eret () else ethrow e)))"

primrec handle_notifications ::
    "('n, 'p, 'w) rest_env \<Rightarrow> string \<Rightarrow> event_data list \<Rightarrow> event list \<Rightarrow> ('n, 'p, 'w, event list) rest_eff" where
  "handle_notifications env gami [] collected = eret collected"
| "handle_notifications env gami (ev # evs) collected =
     ebind (get_handler (ev_type ev)) (\<lambda>h.
     ebind (handle env gami h ev) (\<lambda>result.
     handle_notifications env gami evs (collected @ snd result)))"

definition process_notification ::
    "('n, 'p, 'w) rest_env \<Rightarrow> bool \<Rightarrow> string \<Rightarrow> event_data list \<Rightarrow> ('n, 'p, 'w, unit) rest_eff" where
  "process_notification env busy gami notifications s =
     (if notifications = [] \<or> gami \<notin> set (rest_agents s) then (Inr (), s)
      else ecatch
        (if busy then ethrow (ServerError [])
         else ebind (handle_notifications env gami notifications []) (\<lambda>collected. emodify (notify collected)))
        (\<lambda>e. if is_exception e then eret () else ethrow e) s)"

end
