(* ===== verification/Rest_Example.thy ===== *)
theory Rest_Example
  imports Handler_Entry
begin

text \<open>
  A small service to evaluate the handlers on: one agent with a manager, a chassis below it and
  drives below the chassis. The outside world is the number of calls made so far.
\<close>

definition sample_resource :: "uuid \<Rightarrow> component \<Rightarrow> uuid \<Rightarrow> u64 \<Rightarrow> (string \<times> collection_type) list \<Rightarrow> (nat, unit) rest_resource" where
  "sample_resource u parent_type parent i cols =
     \<lparr> m_name = None, m_description = None,
       m_status = \<lparr> status_state = State_Enabled, status_health = None \<rparr>,
       m_oem = JNull, m_collections = cols, m_parent_type = parent_type,
       m_temporary_uuid = u, m_persistent_uuid = [], m_parent_uuid = parent,
       m_unique_key = None, m_is_uuid_persistent = False,
       m_id = i, m_agent_id = ''agent'', m_touched_at = 1,
       m_start_time = None, m_end_time = None, m_state = None, m_messages = [], m_completion_notifiers = [],
       metric_component_type = ''None'', metric_component_uuid = [], payload = () \<rparr>"

definition sample_listing :: "uuid \<Rightarrow> string \<Rightarrow> uuid list" where
  "sample_listing u name =
     (if u = ''m'' \<and> name = ''Chassis'' then [''c''] else if u = ''c'' \<and> name = ''Drives'' then [''d'', ''e''] else [])"

fun sample_answer :: "uuid set \<Rightarrow> rpc_request \<Rightarrow> (nat, unit) rest_resource rpc_outcome" where
  "sample_answer unreachable GetManagersCollection = Subcomponents [''m'']"
| "sample_answer unreachable GetTasksCollection = Subcomponents []"
| "sample_answer unreachable GetMetricDefinitionsCollection = Subcomponents []"
| "sample_answer unreachable (GetMetrics _) = Metrics []"
| "sample_answer unreachable (GetInfo c u) =
     (if u \<in> unreachable then ConnectorError
      else Resource (sample_resource u ''None'' [] 0
        (if c = ''Manager'' then [(''Chassis'', ''Chassis'')] else if c = ''Chassis'' then [(''Drives'', ''Drives'')] else [])))"
| "sample_answer unreachable (GetCollection u name) = Subcomponents (sample_listing u name)"
| "sample_answer unreachable (GetTaskResultInfo u) = TaskResult"

definition sample_env :: "uuid set \<Rightarrow> (nat, unit, nat) rest_env" where
  "sample_env unreachable =
     \<lparr> env_location = ''/db'', env_clock = int, env_now = (\<lambda>w. int w * 1000000000),
       env_registry = component_handlers, env_handlers = component_handlers,
       env_hash = (\<lambda>_. \<lparr> hash_status = [], hash_resource_without_status = [] \<rparr>), env_depth = 5,
       env_call = (\<lambda>gami req w. (sample_answer unreachable req, w + 1)) \<rparr>"

definition sample_table :: "(nat, unit) rest_resource list \<Rightarrow> (nat, unit) rest_resource manager" where
  "sample_table es = \<lparr> m_manager_data = es, m_current_epoch = 1 \<rparr>"

definition sample_state :: "(nat, unit) rest_tables \<Rightarrow> (component \<Rightarrow> component list) \<Rightarrow> (nat, unit, nat) rest_state" where
  "sample_state tabs subs =
     \<lparr> rest_tables = tabs, rest_links = (\<lambda>_. []), rest_subs = subs,
       rest_ids = \<lparr> id_files = [], id_memos = (\<lambda>_. Map.empty) \<rparr>, rest_agents = [''agent''],
       connection_error_observed_at = (\<lambda>_. None), rest_ctx = new_context POLLING ''agent'' [''Manager''],
       rest_notified = [], rest_called = [], rest_world = 0 \<rparr>"

definition sample_tables :: "(nat, unit) rest_tables" where
  "sample_tables c =
     (if c = ''Manager'' then sample_table [sample_resource ''m'' ''None'' [] 1 []]
      else if c = ''Chassis'' then sample_table [sample_resource ''c'' ''Manager'' ''m'' 1 [], sample_resource ''k'' ''Manager'' ''m'' 2 []]
      else if c = ''Drive'' then sample_table [sample_resource ''d'' ''Chassis'' ''c'' 1 [], sample_resource ''f'' ''Chassis'' ''c'' 2 [],
             sample_resource ''x'' ''Chassis'' ''k'' 1 []]
      else sample_table [])"

definition sample_subs :: "component \<Rightarrow> component list" where
  "sample_subs h = (if h = ''Manager'' then [''Chassis''] else if h = ''Chassis'' then [''Drive''] else [])"

definition sample :: "(nat, unit, nat) rest_state" where
  "sample = sample_state sample_tables sample_subs"

end
