(* ===== verification/Handler_Subtree.thy ===== *)
theory Handler_Subtree
  imports Rest_Example "HOL-Library.Sublist"
begin

text \<open>
  What a removal by the handlers does to the tables: it takes away exactly the resource and
  everything below it, and the removal of an agent's data takes away exactly the resources
  of the agent and everything below them; and when a removal fails, nothing is added.
\<close>

subsection \<open>Removals only remove\<close>

definition only_removes :: "('n, 'p, 'w) rest_state \<Rightarrow> ('n, 'p, 'w) rest_state \<Rightarrow> bool" where
  "only_removes s s' \<longleftrightarrow>
     (\<forall>c. m_current_epoch (rest_tables s' c) = m_current_epoch (rest_tables s c)
        \<and> subseq (m_manager_data (rest_tables s' c)) (m_manager_data (rest_tables s c)))
     \<and> rest_subs s' = rest_subs s \<and> rest_agents s' = rest_agents s \<and> rest_world s' = rest_world s
     \<and> connection_error_observed_at s' = connection_error_observed_at s \<and> rest_called s' = rest_called s
     \<and> ctx_mode (rest_ctx s') = ctx_mode (rest_ctx s) \<and> ctx_stack (rest_ctx s') = ctx_stack (rest_ctx s)
     \<and> ctx_agent (rest_ctx s') = ctx_agent (rest_ctx s)"

interpretation removals: effect_frame only_removes
  by unfold_locales (auto simp: only_removes_def intro: subseq_order.order_trans)

lemma only_removesD:
  assumes "only_removes s s'"
  shows "rest_subs s' = rest_subs s" "subseq (m_manager_data (rest_tables s' c)) (m_manager_data (rest_tables s c))"
    "m_current_epoch (rest_tables s' c) = m_current_epoch (rest_tables s c)"
  using assms by (simp_all add: only_removes_def)

lemma subseq_remove_first: "subseq (remove_first P xs) xs"
  by (induction xs) auto

lemma record_event_only_removes: "only_removes s (record_event e s)"
  by (simp add: only_removes_def record_event_def)

lemma add_event_only_removes: "leaves only_removes (add_event env c t u)"
  by (auto simp: leaves_def add_event_def record_event_only_removes removals.same split: sum.split option.split)

lemma release_id_only_removes: "leaves only_removes (release_id env h u p)"
  by (auto simp: leaves_def release_id_def only_removes_def split: prod.split sum.split)

lemma on_table_only_removes: "only_removes s (on_table c (\<lambda>m. snd (manager_remove_entry u m)) s)"
  by (simp add: only_removes_def on_table_def manager_remove_entry_def subseq_remove_first)

lemma links_only_removes: "only_removes s (s\<lparr> rest_links := l \<rparr>)"
  by (simp add: only_removes_def)

lemma remove_single_only_removes: "leaves only_removes (remove_single env h u)"
  unfolding remove_single_def
  by (intro removals.leaves_eseq removals.leaves_ebind removals.leaves_emodify add_event_only_removes
      release_id_only_removes on_table_only_removes removals.leaves_quiet) simp

lemma get_handler_only_removes: "leaves only_removes (get_handler c)"
  by (simp add: get_handler_def removals.leaves_eret removals.leaves_ethrow)

lemma unlink_only_removes: "leaves only_removes (unlink h u)"
  by (simp add: unlink_def removals.leaves_emodify links_only_removes)

lemma do_remove_only_removes: "leaves only_removes (do_remove n env h u)"
proof (induction n arbitrary: h u)
  case (Suc n)
  show ?case
    by (simp only: do_remove.simps) (intro removals.leaves_eseq removals.leaves_ebind removals.leaves_efor
      unlink_only_removes get_handler_only_removes remove_single_only_removes removals.leaves_eget Suc)
qed (simp add: removals.leaves_ethrow)

lemma clean_links_only_removes: "leaves only_removes (emodify (\<lambda>s. s\<lparr> rest_links := f s \<rparr>))"
  by (simp add: removals.leaves_emodify links_only_removes)

lemma handler_remove_agent_data_only_removes: "leaves only_removes (handler_remove_agent_data env gami h)"
  unfolding handler_remove_agent_data_def
  by (intro removals.leaves_eseq removals.leaves_ebind removals.leaves_efor clean_links_only_removes
      removals.leaves_eget do_remove_only_removes)

lemma notify_only_removes: "only_removes s (notify es s)"
  by (simp add: only_removes_def notify_def)

lemma with_context_only_removes:
  assumes "leaves only_removes m"
  shows "leaves only_removes (with_context c m)"
  unfolding leaves_def
proof
  fix s
  have "only_removes (s\<lparr> rest_ctx := c \<rparr>) (snd (m (s\<lparr> rest_ctx := c \<rparr>)))"
    using assms by (simp add: leaves_def)
  then show "only_removes s (snd (with_context c m s))"
    by (auto simp: with_context_def only_removes_def split: prod.split)
qed

lemma remove_agent_data_only_removes: "leaves only_removes (remove_agent_data env gami)"
  unfolding remove_agent_data_def
  by (intro with_context_only_removes removals.leaves_eseq removals.leaves_efor
      handler_remove_agent_data_only_removes removals.leaves_emodify notify_only_removes)

lemmas only_removes_rules = add_event_only_removes remove_single_only_removes do_remove_only_removes
  handler_remove_agent_data_only_removes remove_agent_data_only_removes

subsection \<open>The resources below a resource\<close>

text \<open>
  The tables are those of \<open>rest_inv\<close>: the entries have distinct identifiers. The kinds a handler
  has met are kinds of tables, and the two handlers of the table of remote switches agree on them.
\<close>

definition tables_ok :: "('n, 'p, 'w) rest_state \<Rightarrow> bool" where
  "tables_ok s \<longleftrightarrow> (\<forall>c. rest_inv (rest_tables s c))"

definition wf_subs :: "('n, 'p, 'w) rest_state \<Rightarrow> bool" where
  "wf_subs s \<longleftrightarrow> (\<forall>h. \<forall>c \<in> set (rest_subs s h). handler_model c = c) \<and> (\<forall>h. rest_subs s (handler_model h) = rest_subs s h)"

inductive below :: "('n, 'p, 'w) rest_state \<Rightarrow> component \<Rightarrow> uuid \<Rightarrow> component \<Rightarrow> uuid \<Rightarrow> bool" for s c u where
  itself: "below s c u c u"
| child: "\<lbrakk>below s c u c' v; c'' \<in> set (rest_subs s c'); find_entry (rest_tables s c'') w = Some e; m_parent_uuid e = v\<rbrakk>
    \<Longrightarrow> below s c u c'' w"

abbreviation entry_at :: "('n, 'p, 'w) rest_state \<Rightarrow> component \<Rightarrow> uuid \<Rightarrow> ('n, 'p) rest_resource option" where
  "entry_at s c v \<equiv> find_entry (rest_tables s c) v"

lemma distinct_subseq: "\<lbrakk>subseq xs ys; distinct ys\<rbrakk> \<Longrightarrow> distinct xs"
proof (induction rule: list_emb.induct)
  case (list_emb_Cons2 x y xs ys)
  then show ?case by (auto dest: list_emb_set)
qed auto

lemma rest_inv_subseq:
  assumes "rest_inv m" "subseq (m_manager_data m') (m_manager_data m)" "m_current_epoch m' = m_current_epoch m"
  shows "rest_inv m'"
proof -
  have "subseq (map m_temporary_uuid (m_manager_data m')) (map m_temporary_uuid (m_manager_data m))"
    using assms(2) by (rule subseq_map)
  then have "distinct (map m_temporary_uuid (m_manager_data m'))"
    using assms(1) unfolding rest_inv_def by (blast intro: distinct_subseq)
  moreover have "set (m_manager_data m') \<subseteq> set (m_manager_data m)"
    using assms(2) by (auto dest: list_emb_set)
  ultimately show ?thesis using assms(1,3) by (auto simp: rest_inv_def)
qed

lemma tables_ok_removed: "\<lbrakk>tables_ok s; only_removes s s'\<rbrakk> \<Longrightarrow> tables_ok s'"
  unfolding tables_ok_def using rest_inv_subseq only_removesD(2,3) by blast

lemma wf_subs_removed: "\<lbrakk>wf_subs s; only_removes s s'\<rbrakk> \<Longrightarrow> wf_subs s'"
  by (simp add: wf_subs_def only_removesD(1))

lemma entry_kept:
  assumes "tables_ok s" "only_removes s s'" "entry_at s' c v = Some e"
  shows "entry_at s c v = Some e"
proof -
  have "set (m_manager_data (rest_tables s' c)) \<subseteq> set (m_manager_data (rest_tables s c))"
    using only_removesD(2)[OF assms(2), of c] by (auto dest: list_emb_set)
  moreover have "rest_inv (rest_tables s c)" "rest_inv (rest_tables s' c)"
    using assms(1) tables_ok_removed[OF assms(1,2)] by (auto simp: tables_ok_def)
  ultimately show ?thesis using assms(3) by (auto simp: rest_inv_find)
qed

lemma entry_stays_gone: "\<lbrakk>tables_ok s; only_removes s s'; entry_at s c v = None\<rbrakk> \<Longrightarrow> entry_at s' c v = None"
  by (metis entry_kept option.exhaust option.simps(3))

lemma set_child_keys:
  assumes "tables_ok s"
  shows "set (child_keys h p s) = {v. \<exists>e. entry_at s (handler_model h) v = Some e \<and> m_parent_uuid e = p}"
  using rest_keys[of "rest_tables s (handler_model h)"] assms
  by (auto simp: child_keys_def get_keys_by_parent_def tables_ok_def)

subsection \<open>The steps of a removal\<close>

lemma on_table_gone:
  assumes "tables_ok s"
  shows "entry_at (on_table c (\<lambda>m. snd (manager_remove_entry u m)) s) c' v
    = (if c' = c \<and> v = u then None else entry_at s c' v)"
proof (cases "c' = c")
  case True
  let ?m = "rest_tables s c" and ?t = "on_table c (\<lambda>m. snd (manager_remove_entry u m)) s"
  have ok: "rest_inv ?m" "rest_inv (rest_tables ?t c)"
    using assms tables_ok_removed[OF assms on_table_only_removes] by (auto simp: tables_ok_def)
  have data: "m_manager_data (rest_tables ?t c) = remove_first (uuid_matches u) (m_manager_data ?m)"
    by (simp add: on_table_def manager_remove_entry_def)
  have "set (m_manager_data (rest_tables ?t c)) = {e \<in> set (m_manager_data ?m). m_temporary_uuid e \<noteq> u}"
  proof (cases "find_entry ?m u")
    case None
    then show ?thesis
      using rest_inv_find_None[OF ok(1), of u] unfolding data by (auto simp: find_entry_def)
  next
    case (Some e)
    then have "set (remove_first (uuid_matches u) (m_manager_data ?m)) = set (m_manager_data ?m) - {e}"
      using rest_inv_distinct[OF ok(1)] by (auto simp: find_entry_def set_remove_first)
    moreover have "e' = e" if "e' \<in> set (m_manager_data ?m)" "m_temporary_uuid e' = u" for e'
      using Some that rest_inv_find[OF ok(1), of u e'] by simp
    moreover have "m_temporary_uuid e = u" using Some rest_inv_find[OF ok(1)] by blast
    ultimately show ?thesis unfolding data by auto
  qed
  then have "find_entry (rest_tables ?t c) v = Some e \<longleftrightarrow> v \<noteq> u \<and> find_entry ?m v = Some e" for e
    by (auto simp: rest_inv_find[OF ok(2)] rest_inv_find[OF ok(1)])
  with True show ?thesis by (metis option.exhaust)
qed (simp add: on_table_def)

lemma add_event_tables: "rest_tables (snd (add_event env c t u s)) = rest_tables s"
  by (auto simp: add_event_def record_event_def split: sum.split option.split)

lemma release_id_tables: "rest_tables (snd (release_id env h u p s)) = rest_tables s"
  by (auto simp: release_id_def split: prod.split sum.split)

lemma remove_single_entries:
  assumes "tables_ok s" and "remove_single env h u s = (r, s')"
  shows "(c, v) \<noteq> (handler_model h, u) \<Longrightarrow> entry_at s' c v = entry_at s c v"
    and "r = Inr () \<Longrightarrow> entry_at s' (handler_model h) u = None"
proof -
  obtain r1 t where ev: "add_event env (handler_model h) ResourceRemoved u s = (r1, t)" by fastforce
  have t: "rest_tables t = rest_tables s" using add_event_tables[of env "handler_model h" ResourceRemoved u s] ev by simp
  have ok: "tables_ok t" using assms(1) t by (simp add: tables_ok_def)
  let ?q = "on_table (handler_model h) (\<lambda>m. snd (manager_remove_entry u m)) t"
  consider (unchanged) e where "r = Inl e" "s' = t"
    | (removed) p where "release_id env h u p ?q = (r, s')"
    using assms(2) ev unfolding remove_single_def
    by (cases r1) (auto simp: eff_simps lift_model_def split: sum.splits)
  then have "((c, v) \<noteq> (handler_model h, u) \<longrightarrow> entry_at s' c v = entry_at s c v)
      \<and> (r = Inr () \<longrightarrow> entry_at s' (handler_model h) u = None)"
  proof cases
    case removed
    then have "rest_tables s' = rest_tables ?q" using release_id_tables[of env h u p ?q] by simp
    then show ?thesis using on_table_gone[OF ok] t by auto
  qed (simp add: t)
  then show "(c, v) \<noteq> (handler_model h, u) \<Longrightarrow> entry_at s' c v = entry_at s c v"
    and "r = Inr () \<Longrightarrow> entry_at s' (handler_model h) u = None" by auto
qed

subsection \<open>A removal that returns leaves no children behind\<close>

definition childless :: "('n, 'p, 'w) rest_state \<Rightarrow> component \<Rightarrow> uuid \<Rightarrow> bool" where
  "childless s c v \<longleftrightarrow> (\<forall>c' \<in> set (rest_subs s c). \<forall>w e. entry_at s c' w = Some e \<longrightarrow> m_parent_uuid e \<noteq> v)"

definition takes_children :: "('n, 'p, 'w) rest_state \<Rightarrow> ('n, 'p, 'w) rest_state \<Rightarrow> bool" where
  "takes_children s s' \<longleftrightarrow> only_removes s s' \<and> (tables_ok s \<longrightarrow> wf_subs s \<longrightarrow>
     (\<forall>c v. entry_at s c v \<noteq> None \<longrightarrow> entry_at s' c v = None \<longrightarrow> childless s' c v))"

lemma childless_removed: "\<lbrakk>tables_ok s; only_removes s s'; childless s c v\<rbrakk> \<Longrightarrow> childless s' c v"
  using entry_kept only_removesD(1) unfolding childless_def by metis

lemma takes_children_chain:
  assumes "takes_children s t" "takes_children t u"
  shows "takes_children s u"
proof -
  have rem: "only_removes s t" "only_removes t u" using assms by (auto simp: takes_children_def)
  have "childless u c v" if ok: "tables_ok s" "wf_subs s" and e: "entry_at s c v \<noteq> None" "entry_at u c v = None" for c v
  proof (cases "entry_at t c v")
    case None
    with assms(1) ok e have "childless t c v" by (simp add: takes_children_def)
    then show ?thesis using childless_removed[OF tables_ok_removed[OF ok(1) rem(1)] rem(2)] by blast
  next
    case (Some x)
    then show ?thesis
      using assms(2) e(2) tables_ok_removed[OF ok(1) rem(1)] wf_subs_removed[OF ok(2) rem(1)]
      by (simp add: takes_children_def)
  qed
  with removals.chain[OF rem] show ?thesis by (simp add: takes_children_def)
qed

interpretation takes: effect_frame takes_children
proof
  fix s :: "('a, 'b, 'c) rest_state"
  show "takes_children s s" by (auto simp: takes_children_def removals.same)
qed (rule takes_children_chain)

lemma takes_childrenI:
  "\<lbrakk>only_removes s s'; \<And>c v. \<lbrakk>tables_ok s; wf_subs s; entry_at s c v \<noteq> None; entry_at s' c v = None\<rbrakk> \<Longrightarrow> childless s' c v\<rbrakk>
   \<Longrightarrow> takes_children s s'"
  by (simp add: takes_children_def)

lemma takes_children_same_tables: "\<lbrakk>only_removes s s'; rest_tables s' = rest_tables s\<rbrakk> \<Longrightarrow> takes_children s s'"
  by (rule takes_childrenI) auto

lemma unlink_takes: "leaves takes_children (unlink h u)"
  by (simp add: unlink_def takes.leaves_emodify takes_children_same_tables links_only_removes)

lemma get_handler_takes: "leaves takes_children (get_handler c)"
  by (simp add: get_handler_def takes.leaves_eret takes.leaves_ethrow)

text \<open>The kinds below a handler, one turn per kind.\<close>

definition remove_kind :: "nat \<Rightarrow> ('n, 'p, 'w) rest_env \<Rightarrow> uuid \<Rightarrow> component \<Rightarrow> ('n, 'p, 'w, unit) rest_eff" where
  "remove_kind n env u c = ebind (get_handler c) (\<lambda>h. remove_all n env h u)"

lemma do_remove_Suc:
  "do_remove (Suc n) env h u =
     eseq (unlink h u) (eseq (ebind (eget (\<lambda>s. rest_subs s h)) (efor (remove_kind n env u))) (remove_single env h u))"
  by (simp add: remove_kind_def[abs_def] remove_all_def)

lemma do_remove_InrE:
  assumes "do_remove n env h u s = (Inr (), s')"
  obtains m q t where "n = Suc m" "unlink h u s = (Inr (), q)"
    "efor (remove_kind m env u) (rest_subs q h) q = (Inr (), t)" "remove_single env h u t = (Inr (), s')"
proof (cases n)
  case (Suc m)
  with assms show thesis
    by (auto simp only: do_remove_Suc intro: that elim!: eseq_InrE ebind_InrE simp: eget_apply)
qed (use assms in simp)

lemma remove_all_only_removes: "leaves only_removes (remove_all n env h u)"
  unfolding remove_all_def by (intro removals.leaves_ebind removals.leaves_eget removals.leaves_efor do_remove_only_removes)

lemma remove_kind_only_removes: "leaves only_removes (remove_kind n env u c)"
  unfolding remove_kind_def by (intro removals.leaves_ebind get_handler_only_removes remove_all_only_removes)

lemma get_handler_Inr: "get_handler c s = (Inr h, s') \<Longrightarrow> h = c \<and> s' = s"
  by (auto simp: get_handler_def split: if_splits)

definition removes_own :: "nat \<Rightarrow> ('n, 'p, 'w) rest_env \<Rightarrow> bool" where
  "removes_own n env \<longleftrightarrow> (\<forall>h v s s'. do_remove n env h v s = (Inr (), s') \<longrightarrow> tables_ok s
     \<longrightarrow> entry_at s' (handler_model h) v = None)"

lemma do_remove_own: "removes_own n env"
  unfolding removes_own_def
proof (intro allI impI)
  fix h v s s'
  assume run: "do_remove n env h v s = (Inr (), s')" and ok: "tables_ok s"
  then obtain m q t where unl: "unlink h v s = (Inr (), q)"
    and loop: "efor (remove_kind m env v) (rest_subs q h) q = (Inr (), t)"
    and last: "remove_single env h v t = (Inr (), s')"
    by (elim do_remove_InrE)
  have "only_removes s q" using unlink_only_removes unl by (rule leavesD)
  moreover have "only_removes q t"
    by (rule leavesD[OF removals.leaves_efor loop]) (rule remove_kind_only_removes)
  ultimately have "tables_ok t" using ok by (blast intro: tables_ok_removed)
  then show "entry_at s' (handler_model h) v = None" using remove_single_entries(2)[OF _ last] by simp
qed

lemma remove_kind_childless:
  assumes run: "remove_kind n env u c s = (Inr (), s')" and ok: "tables_ok s" and c: "handler_model c = c"
    and e: "entry_at s' c w = Some e"
  shows "m_parent_uuid e \<noteq> u"
proof
  assume parent: "m_parent_uuid e = u"
  have loop: "efor (do_remove n env c) (child_keys c u s) s = (Inr (), s')"
    using run by (auto simp: remove_kind_def remove_all_def elim!: ebind_InrE dest!: get_handler_Inr)
  have step: "only_removes t t'" if "do_remove n env c y t = (r, t')" for y t t' r
    using leavesD[OF do_remove_only_removes that] .
  have "entry_at s c w = Some e"
    by (rule entry_kept[OF ok _ e]) (rule leavesD[OF removals.leaves_efor loop], rule do_remove_only_removes)
  then have "w \<in> set (child_keys c u s)" using parent c by (auto simp: set_child_keys[OF ok])
  then have "entry_at s' c w = None"
  proof (rule efor_establishes[OF loop, where I = tables_ok])
    show "entry_at t' c w = None" if "tables_ok t" "do_remove n env c w t = (Inr (), t')" for t t'
      using do_remove_own[of n env] that c unfolding removes_own_def by metis
  qed (use ok step in \<open>blast intro: tables_ok_removed entry_stays_gone\<close>)+
  with e show False by simp
qed

lemma kinds_childless:
  assumes loop: "efor (remove_kind n env u) cs q = (Inr (), t)" and ok: "tables_ok q" "wf_subs q"
    and cs: "cs = rest_subs q h"
  shows "\<forall>c' \<in> set cs. \<forall>w e. entry_at t c' w = Some e \<longrightarrow> m_parent_uuid e \<noteq> u"
proof
  fix c'
  assume c': "c' \<in> set cs"
  have step: "only_removes r r'" if "remove_kind n env u y r = (Inr (), r')" for y r r'
    using leavesD[OF remove_kind_only_removes that] .
  from loop c' show "\<forall>w e. entry_at t c' w = Some e \<longrightarrow> m_parent_uuid e \<noteq> u"
  proof (rule efor_establishes[where I = tables_ok])
    have "handler_model c' = c'" using ok(2) c' cs by (auto simp: wf_subs_def)
    then show "\<forall>w e. entry_at r' c' w = Some e \<longrightarrow> m_parent_uuid e \<noteq> u"
      if "tables_ok r" "remove_kind n env u c' r = (Inr (), r')" for r r'
      using remove_kind_childless that by blast
  qed (use ok step in \<open>blast intro: tables_ok_removed dest: entry_kept\<close>)+
qed

lemma do_remove_takes: "returns takes_children (do_remove n env h u)"
proof (induction n arbitrary: h u)
  case 0
  then show ?case by (simp add: returns_def)
next
  case (Suc n)
  have kinds: "returns takes_children (efor (remove_kind n env u) cs)" for cs
    unfolding remove_kind_def remove_all_def
    by (intro takes.returns_efor takes.returns_ebind takes.returns_leaves get_handler_takes takes.leaves_eget Suc)
  show ?case
    unfolding returns_def
  proof (intro allI impI)
    fix s a s'
    assume "do_remove (Suc n) env h u s = (Inr a, s')"
    then have "do_remove (Suc n) env h u s = (Inr (), s')" by (cases a) blast
    then obtain q t where unl: "unlink h u s = (Inr (), q)"
      and loop: "efor (remove_kind n env u) (rest_subs q h) q = (Inr (), t)"
      and last: "remove_single env h u t = (Inr (), s')"
      by (elim do_remove_InrE) (metis nat.inject)
    have sq: "takes_children s q" using unlink_takes unl by (rule leavesD)
    have qt: "takes_children q t" using kinds loop by (rule returnsD)
    have ts: "only_removes t s'" using remove_single_only_removes last by (rule leavesD)
    have st: "takes_children s t" using sq qt by (rule takes.chain)
    show "takes_children s s'"
    proof (rule takes_childrenI)
      show "only_removes s s'" using st ts by (auto simp: takes_children_def intro: removals.chain)
      fix c v
      assume ok: "tables_ok s" "wf_subs s" and e: "entry_at s c v \<noteq> None" "entry_at s' c v = None"
      have okq: "tables_ok q" "wf_subs q" and okt: "tables_ok t"
        using sq st ok by (auto simp: takes_children_def intro: tables_ok_removed wf_subs_removed)
      show "childless s' c v"
      proof (cases "(c, v) = (handler_model h, u)")
        case True
        have "rest_subs t c = rest_subs q h"
          using True okq(2) qt only_removesD(1) unfolding wf_subs_def takes_children_def by (metis prod.inject)
        with True kinds_childless[OF loop okq refl] have "childless t c v" by (simp add: childless_def)
        then show ?thesis by (rule childless_removed[OF okt ts])
      next
        case False
        then have "entry_at t c v = None" using remove_single_entries(1)[OF okt last] e(2) by metis
        with st ok e(1) have "childless t c v" by (simp add: takes_children_def)
        then show ?thesis by (rule childless_removed[OF okt ts])
      qed
    qed
  qed
qed

lemma below_ctx: "below (s\<lparr> rest_ctx := x \<rparr>) c u c' v \<longleftrightarrow> below s c u c' v"
proof
  show "below (s\<lparr> rest_ctx := x \<rparr>) c u c' v \<Longrightarrow> below s c u c' v"
    by (induction rule: below.induct) (auto intro: below.intros)
  show "below s c u c' v \<Longrightarrow> below (s\<lparr> rest_ctx := x \<rparr>) c u c' v"
    by (induction rule: below.induct) (auto intro: below.itself below.child)
qed

subsection \<open>A removal keeps everything that is not below\<close>

text \<open>A set of resources that contains what is below its members, and states that agree outside of it.\<close>

definition closed_below :: "(component \<times> uuid) set \<Rightarrow> ('n, 'p, 'w) rest_state \<Rightarrow> bool" where
  "closed_below D s \<longleftrightarrow> (\<forall>c u c' v e. (c, u) \<in> D \<longrightarrow> c' \<in> set (rest_subs s c) \<longrightarrow> entry_at s c' v = Some e
     \<longrightarrow> m_parent_uuid e = u \<longrightarrow> (c', v) \<in> D)"

definition agrees_outside ::
    "(component \<times> uuid) set \<Rightarrow> ('n, 'p, 'w) rest_state \<Rightarrow> ('n, 'p, 'w) rest_state \<Rightarrow> bool" where
  "agrees_outside D s t \<longleftrightarrow> only_removes s t \<and> (\<forall>c v. (c, v) \<notin> D \<longrightarrow> entry_at t c v = entry_at s c v)"

lemma agrees_step:
  assumes "agrees_outside D s t" "only_removes t t'" "\<And>c v. (c, v) \<notin> D \<Longrightarrow> entry_at t' c v = entry_at t c v"
  shows "agrees_outside D s t'"
  using assms by (auto simp: agrees_outside_def intro: removals.chain)

lemma remove_single_keeps:
  assumes ok: "tables_ok s" and D: "(handler_model h, u) \<in> D"
  shows "keeps (agrees_outside D s) (remove_single env h u)"
proof (rule keepsI)
  fix t r t'
  assume t: "agrees_outside D s t" and run: "remove_single env h u t = (r, t')"
  have okt: "tables_ok t" using t ok by (auto simp: agrees_outside_def intro: tables_ok_removed)
  show "agrees_outside D s t'"
  proof (rule agrees_step[OF t leavesD[OF remove_single_only_removes run]])
    fix c v
    assume "(c, v) \<notin> D"
    with D have "(c, v) \<noteq> (handler_model h, u)" by auto
    then show "entry_at t' c v = entry_at t c v" by (rule remove_single_entries(1)[OF okt run])
  qed
qed

lemma do_remove_keeps:
  fixes s :: "('n, 'p, 'w) rest_state"
  assumes ok: "tables_ok s" "wf_subs s" and closed: "closed_below D s"
  shows "(handler_model h, u) \<in> D \<Longrightarrow> keeps (agrees_outside D s) (do_remove n env h u)"
proof (induction n arbitrary: h u)
  case 0
  then show ?case by (simp add: keeps_def keeping.leaves_ethrow)
next
  case (Suc n)
  have unl: "keeps (agrees_outside D s) (unlink h u)"
    by (rule keepsI) (auto simp: unlink_def agrees_outside_def intro: removals.chain links_only_removes)
  have kind: "keeps (agrees_outside D s) (remove_kind n env u c)" if c: "c \<in> set (rest_subs s (handler_model h))" for c
    unfolding remove_kind_def remove_all_def
  proof (rule keeps_rules(2))
    show "keeps (agrees_outside D s) (get_handler c :: ('n, 'p, 'w, component) rest_eff)"
      by (rule keepsI) (auto simp: get_handler_def split: if_splits)
    fix h' and q q' :: "('n, 'p, 'w) rest_state"
    assume "get_handler c q = (Inr h', q')"
    then have h': "h' = c" "handler_model c = c" using c ok(2) by (auto dest: get_handler_Inr simp: wf_subs_def)
    show "keeps (agrees_outside D s) (ebind (eget (child_keys h' u)) (efor (do_remove n env h')))"
    proof (intro keeps_read keeps_rules(3))
    fix t v
    assume t: "agrees_outside D s t" and v: "v \<in> set (child_keys h' u t)"
    have "tables_ok t" using t ok(1) by (auto simp: agrees_outside_def intro: tables_ok_removed)
    then obtain e where "entry_at t c v = Some e" "m_parent_uuid e = u" using v h' by (auto simp: set_child_keys)
    then have "(c, v) \<in> D"
      using closed Suc.prems c t ok(1) unfolding closed_below_def agrees_outside_def by (metis entry_kept)
      with Suc.IH h' show "keeps (agrees_outside D s) (do_remove n env h' v)" by simp
    qed
  qed
  have "keeps (agrees_outside D s) (ebind (eget (\<lambda>s. rest_subs s h)) (efor (remove_kind n env u)))"
    using ok(2) by (intro keeps_read keeps_rules kind) (auto simp: agrees_outside_def wf_subs_def dest: only_removesD(1))
  with unl remove_single_keeps[OF ok(1) Suc.prems] show ?case unfolding do_remove_Suc by (intro keeps_rules(1))
qed

subsection \<open>Exactly the resources below\<close>

definition subtree :: "('n, 'p, 'w) rest_state \<Rightarrow> component \<Rightarrow> uuid \<Rightarrow> (component \<times> uuid) set" where
  "subtree s c u = {(c', v). below s c u c' v}"

lemma subtree_closed: "closed_below (subtree s c u) s"
  by (auto simp: closed_below_def subtree_def intro: below.child)

text \<open>After a removal that took all children along, everything below a removed resource is gone.\<close>

lemma below_gone:
  assumes "takes_children s s'" "tables_ok s" "wf_subs s" and gone: "entry_at s' c u = None"
    and "below s c u c' v" and "entry_at s c u \<noteq> None \<or> childless s' c u"
  shows "entry_at s' c' v = None"
  using assms(5,6)
proof (induction rule: below.induct)
  case itself
  show ?case by (rule gone)
next
  case (child c' v c'' w e)
  have rem: "only_removes s s'" using assms(1) by (simp add: takes_children_def)
  have "childless s' c' v"
  proof (cases "entry_at s c' v")
    case None
    then have "c' = c \<and> v = u" using child.hyps(1) by (auto elim: below.cases)
    with None child.prems show ?thesis by simp
  next
    case (Some x)
    with assms(1-3) child.IH[OF child.prems] show ?thesis by (simp add: takes_children_def)
  qed
  then show ?case
    using child.hyps entry_kept[OF assms(2) rem, of c'' w] only_removesD(1)[OF rem]
    unfolding childless_def by (metis option.exhaust option.inject)
qed

lemma do_remove_existed:
  assumes "do_remove n env h u s = (Inr (), s')" and ok: "tables_ok s"
  shows "entry_at s (handler_model h) u \<noteq> None"
proof -
  from assms(1) obtain m q t where unl: "unlink h u s = (Inr (), q)"
    and loop: "efor (remove_kind m env u) (rest_subs q h) q = (Inr (), t)"
    and last: "remove_single env h u t = (Inr (), s')"
    by (elim do_remove_InrE)
  have st: "only_removes s t"
    using leavesD[OF unlink_only_removes unl] leavesD[OF removals.leaves_efor loop] remove_kind_only_removes
    by (blast intro: removals.chain)
  obtain p where ev: "add_event env (handler_model h) ResourceRemoved u t = (Inr (), p)"
    and "get_entry (rest_tables p (handler_model h)) u \<noteq> Inl (InvalidUuid EntryNotFound u)"
    using last unfolding remove_single_def
    by (elim eseq_InrE ebind_InrE) (auto simp: lift_model_def split: sum.splits)
  then have "entry_at p (handler_model h) u \<noteq> None" by (auto simp: get_entry_def split: option.splits)
  moreover have "rest_tables p = rest_tables t"
    using add_event_tables[of env "handler_model h" ResourceRemoved u t] ev by simp
  ultimately show ?thesis using entry_kept[OF ok st] by fastforce
qed

text \<open>
  C5: A removal that returns has removed exactly the resource and everything below it, where a
  resource is below another one when its parent is, in a table of a kind the handlers have
  met: of every table, the entries that are not below are as before.
\<close>

theorem do_remove_exactly_below:
  assumes "tables_ok s" and "wf_subs s" and "do_remove n env h u s = (Inr (), s')"
  shows "find_entry (rest_tables s' c) v
    = (if below s (handler_model h) u c v then None else find_entry (rest_tables s c) v)"
proof (cases "below s (handler_model h) u c v")
  case True
  have "takes_children s s'" using do_remove_takes assms(3) by (rule returnsD)
  moreover have "entry_at s' (handler_model h) u = None"
    using do_remove_own[of n env] assms(1,3) unfolding removes_own_def by blast
  ultimately show ?thesis
    using below_gone[OF _ assms(1,2) _ True] do_remove_existed[OF assms(3,1)] True by simp
next
  case False
  have "(handler_model h, u) \<in> subtree s (handler_model h) u" by (simp add: subtree_def below.itself)
  then have "agrees_outside (subtree s (handler_model h) u) s s'"
    using keepsD[OF do_remove_keeps[OF assms(1,2) subtree_closed] _ assms(3)]
    by (simp add: agrees_outside_def removals.same)
  with False show ?thesis by (simp add: agrees_outside_def subtree_def)
qed

lemma sample_ok: "tables_ok sample" "wf_subs sample"
proof -
  show "tables_ok sample"
    by (simp add: tables_ok_def rest_inv_def sample_def sample_state_def sample_tables_def sample_table_def sample_resource_def)
  show "wf_subs sample"
    by (simp add: wf_subs_def sample_def sample_state_def sample_subs_def handler_model_def)
qed

theorem do_remove_exactly_below_witness:
  "find_entry (rest_tables (snd (do_remove 3 (sample_env {}) ''Chassis'' ''c'' sample)) ''Drive'') ''d'' = None
   \<and> find_entry (rest_tables (snd (do_remove 3 (sample_env {}) ''Chassis'' ''c'' sample)) ''Manager'') ''m''
       = Some (sample_resource ''m'' ''None'' [] 1 [])"
proof -
  have "fst (do_remove 3 (sample_env {}) ''Chassis'' ''c'' sample) = Inr ()" by code_simp
  then have run: "do_remove 3 (sample_env {}) ''Chassis'' ''c'' sample
      = (Inr (), snd (do_remove 3 (sample_env {}) ''Chassis'' ''c'' sample))" by (metis prod.collapse)
  note exact = do_remove_exactly_below[OF sample_ok run]
  have at: "entry_at sample ''Drive'' ''d'' = Some (sample_resource ''d'' ''Chassis'' ''c'' 1 [])"
    "entry_at sample ''Manager'' ''m'' = Some (sample_resource ''m'' ''None'' [] 1 [])"
    by (simp_all add: sample_def sample_state_def sample_tables_def sample_table_def sample_resource_def find_entry_def uuid_matches_def)
  have subs: "rest_subs sample h = sample_subs h" for h by (simp add: sample_def sample_state_def)
  have "below sample ''Chassis'' ''c'' ''Drive'' ''d''"
    by (rule below.child[OF below.itself _ at(1)]) (simp_all add: subs sample_subs_def sample_resource_def)
  moreover have "\<not> below sample ''Chassis'' ''c'' ''Manager'' v" for v
    by (auto simp: subs sample_subs_def elim: below.cases split: if_splits)
  ultimately show ?thesis using exact at(2) by (simp add: handler_model_def)
qed

subsection \<open>The data of an agent\<close>

definition agent_subtree :: "('n, 'p, 'w) rest_state \<Rightarrow> string \<Rightarrow> (component \<times> uuid) set" where
  "agent_subtree s gami = {(c, v). \<exists>h w e. h \<in> set component_handlers
     \<and> entry_at s (handler_model h) w = Some e \<and> m_agent_id e = gami \<and> below s (handler_model h) w c v}"

lemma agent_subtreeI:
  "\<lbrakk>h \<in> set component_handlers; entry_at s (handler_model h) v = Some e; m_agent_id e = gami\<rbrakk>
   \<Longrightarrow> (handler_model h, v) \<in> agent_subtree s gami"
  unfolding agent_subtree_def by (blast intro: below.itself)

lemma agent_subtree_closed: "closed_below (agent_subtree s gami) s"
  unfolding closed_below_def agent_subtree_def by (blast intro: below.child)

definition agent_keys :: "string \<Rightarrow> component \<Rightarrow> ('n, 'p, 'w) rest_state \<Rightarrow> uuid list" where
  "agent_keys gami h s = get_keys (\<lambda>entry. m_agent_id entry = gami) (m_manager_data (rest_tables s (handler_model h)))"

lemma set_agent_keys:
  assumes "tables_ok s"
  shows "set (agent_keys gami h s) = {v. \<exists>e. entry_at s (handler_model h) v = Some e \<and> m_agent_id e = gami}"
  using rest_keys[of "rest_tables s (handler_model h)"] assms by (auto simp: agent_keys_def tables_ok_def)

lemma handler_remove_agent_data_steps:
  "handler_remove_agent_data env gami h =
     eseq (emodify (\<lambda>s. s\<lparr> rest_links := clean_links gami (cleaned_before h (get_parent_component (rest_ctx s))) (rest_links s) \<rparr>))
     (eseq (ebind (eget (agent_keys gami h)) (efor (do_remove (env_depth env) env h)))
           (emodify (\<lambda>s. s\<lparr> rest_links := clean_links gami (cleaned_after h) (rest_links s) \<rparr>)))"
  by (simp add: handler_remove_agent_data_def agent_keys_def[abs_def])

lemma links_keep: "keeps (agrees_outside D s) (emodify (\<lambda>s. s\<lparr> rest_links := f s \<rparr>))"
  by (rule keepsI) (auto simp: agrees_outside_def intro: removals.chain links_only_removes)

lemma handler_remove_agent_data_keeps:
  assumes ok: "tables_ok s" "wf_subs s" and h: "h \<in> set component_handlers"
  shows "keeps (agrees_outside (agent_subtree s gami) s) (handler_remove_agent_data env gami h)"
  unfolding handler_remove_agent_data_steps
proof (intro keeps_rules(1) keeps_rules(3) keeps_read links_keep)
  fix t v
  assume t: "agrees_outside (agent_subtree s gami) s t" and v: "v \<in> set (agent_keys gami h t)"
  have okt: "tables_ok t" using t ok(1) by (auto simp: agrees_outside_def intro: tables_ok_removed)
  with v obtain e where "entry_at t (handler_model h) v = Some e" "m_agent_id e = gami" by (auto simp: set_agent_keys)
  then have "(handler_model h, v) \<in> agent_subtree s gami"
    using h t ok(1) unfolding agent_subtree_def agrees_outside_def by (blast intro: below.itself entry_kept)
  then show "keeps (agrees_outside (agent_subtree s gami) s) (do_remove (env_depth env) env h v)"
    by (rule do_remove_keeps[OF ok agent_subtree_closed])
qed

lemma handler_remove_agent_data_clears:
  assumes run: "handler_remove_agent_data env gami h s = (Inr (), s')" and ok: "tables_ok s"
    and e: "entry_at s' (handler_model h) v = Some e"
  shows "m_agent_id e \<noteq> gami"
proof
  assume agent: "m_agent_id e = gami"
  define q where "q = s\<lparr> rest_links := clean_links gami (cleaned_before h (get_parent_component (rest_ctx s))) (rest_links s) \<rparr>"
  then have q: "rest_tables q = rest_tables s" by simp
  obtain t where t: "rest_tables t = rest_tables s'"
    and loop: "efor (do_remove (env_depth env) env h) (agent_keys gami h q) q = (Inr (), t)"
    using run unfolding handler_remove_agent_data_steps q_def by (elim eseq_InrE ebind_InrE) auto
  have okq: "tables_ok q" using ok q by (simp add: tables_ok_def)
  have step: "only_removes r r'" if "do_remove (env_depth env) env h y r = (Inr (), r')" for y r r'
    using leavesD[OF do_remove_only_removes that] .
  have "entry_at q (handler_model h) v = Some e"
    by (rule entry_kept[OF okq leavesD[OF removals.leaves_efor loop]]) (simp_all add: do_remove_only_removes t e)
  then have "v \<in> set (agent_keys gami h q)" using agent by (auto simp: set_agent_keys[OF okq])
  with loop have "entry_at t (handler_model h) v = None"
  proof (rule efor_establishes[where I = tables_ok])
    show "entry_at r' (handler_model h) v = None" if "tables_ok r" "do_remove (env_depth env) env h v r = (Inr (), r')" for r r'
      using do_remove_own[of "env_depth env" env] that unfolding removes_own_def by metis
  qed (use okq step in \<open>blast intro: tables_ok_removed entry_stays_gone\<close>)+
  with e t show False by simp
qed

lemma handler_remove_agent_data_takes: "returns takes_children (handler_remove_agent_data env gami h)"
  unfolding handler_remove_agent_data_def
  by (intro takes.returns_eseq takes.returns_ebind takes.returns_efor do_remove_takes takes.returns_leaves
      takes.leaves_eget takes.leaves_emodify takes_children_same_tables links_only_removes) simp_all

lemma remove_agent_data_InrE:
  assumes "remove_agent_data env gami s = (Inr (), s')"
  obtains q t where "q = s\<lparr> rest_ctx := new_context AGENT_DISAPPEARED [] [] \<rparr>"
    "efor (handler_remove_agent_data env gami) (get_handlers env) q = (Inr (), t)" "rest_tables s' = rest_tables t"
  using assms unfolding remove_agent_data_def with_context_def
  by (auto split: prod.splits elim!: eseq_InrE simp: notify_def that split: if_splits)

lemma agent_data_removed:
  assumes "wf_env env" and "tables_ok s" and "wf_subs s" and "remove_agent_data env gami s = (Inr (), s')"
  shows "find_entry (rest_tables s' c) v = (if (c, v) \<in> agent_subtree s gami then None else find_entry (rest_tables s c) v)"
proof -
  obtain q t where q: "q = s\<lparr> rest_ctx := new_context AGENT_DISAPPEARED [] [] \<rparr>"
    and loop: "efor (handler_remove_agent_data env gami) (get_handlers env) q = (Inr (), t)"
    and t: "rest_tables s' = rest_tables t"
    using assms(4) by (rule remove_agent_data_InrE)
  have ok: "tables_ok q" "wf_subs q" using assms(2,3) q by (simp_all add: tables_ok_def wf_subs_def)
  have D: "agent_subtree q gami = agent_subtree s gami" by (simp add: agent_subtree_def below_ctx q)
  have handlers: "set (get_handlers env) = set component_handlers" using assms(1) by (simp add: wf_env_def get_handlers_def)
  have step: "only_removes r r'" if "handler_remove_agent_data env gami y r = (Inr (), r')" for y r r'
    using leavesD[OF handler_remove_agent_data_only_removes that] .
  have "keeps (agrees_outside (agent_subtree q gami) q) (efor (handler_remove_agent_data env gami) (get_handlers env))"
    using handlers by (intro keeps_rules(3) handler_remove_agent_data_keeps ok) auto
  from keepsD[OF this _ loop] have outside: "agrees_outside (agent_subtree q gami) q t"
    by (simp add: agrees_outside_def removals.same)
  have takes: "takes_children q t"
    by (rule returnsD[OF takes.returns_efor loop]) (rule handler_remove_agent_data_takes)
  have inside: "entry_at t c v = None" if cv: "(c, v) \<in> agent_subtree q gami"
  proof -
    from cv obtain h w e where h: "h \<in> set component_handlers" and e: "entry_at q (handler_model h) w = Some e" "m_agent_id e = gami"
      and b: "below q (handler_model h) w c v" by (auto simp: agent_subtree_def)
    from h handlers have "h \<in> set (get_handlers env)" by simp
    with loop have cleared: "\<forall>v e. entry_at t (handler_model h) v = Some e \<longrightarrow> m_agent_id e \<noteq> gami"
    proof (rule efor_establishes[where I = tables_ok])
      show "\<forall>v e. entry_at r' (handler_model h) v = Some e \<longrightarrow> m_agent_id e \<noteq> gami"
        if "tables_ok r" "handler_remove_agent_data env gami h r = (Inr (), r')" for r r'
        using handler_remove_agent_data_clears that by blast
    qed (use ok step in \<open>blast intro: tables_ok_removed dest: entry_kept\<close>)+
    have "only_removes q t" using takes by (simp add: takes_children_def)
    then have "entry_at t (handler_model h) w = None"
      using entry_kept[OF ok(1), of t "handler_model h" w] cleared e by (metis option.exhaust option.inject)
    with takes ok b e show ?thesis by (auto intro: below_gone)
  qed
  have "entry_at q c v = entry_at s c v" by (simp add: q)
  with inside outside show ?thesis by (simp add: D t agrees_outside_def)
qed

text \<open>
  C2: When the data of an agent is removed without an exception, exactly the resources of the
  agent and everything below them is gone from the tables: no resource of the agent is left,
  and a resource that is below none of the agent's is as before.
\<close>

theorem remove_agent_data_exactly:
  assumes "wf_env env" and "tables_ok s" and "wf_subs s" and "remove_agent_data env gami s = (Inr (), s')"
  shows "find_entry (rest_tables s' c) v = (if (c, v) \<in> agent_subtree s gami then None else find_entry (rest_tables s c) v)"
  using assms by (rule agent_data_removed)

text \<open>Handlers without resources of the agent only clear links.\<close>

lemma no_agent_data:
  "(\<And>h. h \<in> set hs \<Longrightarrow> agent_keys gami h s = []) \<Longrightarrow>
   \<exists>l. efor (handler_remove_agent_data env gami) hs s = (Inr (), s\<lparr> rest_links := l \<rparr>)"
proof (induction hs arbitrary: s)
  case Nil
  show ?case by (auto intro: exI[of _ "rest_links s"])
next
  case (Cons h hs)
  let ?l = "clean_links gami (cleaned_after h) (clean_links gami (cleaned_before h (get_parent_component (rest_ctx s))) (rest_links s))"
  have keys: "agent_keys gami k (s\<lparr> rest_links := l \<rparr>) = agent_keys gami k s" for k l by (simp add: agent_keys_def)
  have "handler_remove_agent_data env gami h s = (Inr (), s\<lparr> rest_links := ?l \<rparr>)"
    using Cons.prems[of h] by (simp add: handler_remove_agent_data_steps eff_simps keys)
  with Cons.IH[of "s\<lparr> rest_links := ?l \<rparr>"] Cons.prems show ?case by (simp add: eff_simps keys)
qed

definition one_manager :: "(nat, unit, nat) rest_state" where
  "one_manager = sample_state (\<lambda>c. if c = ''Manager'' then sample_table [sample_resource ''m'' ''None'' [] 1 []] else sample_table []) (\<lambda>_. [])"

lemma one_manager_ok: "tables_ok one_manager" "wf_subs one_manager" "wf_env (sample_env U)"
  by (simp_all add: tables_ok_def rest_inv_def wf_subs_def one_manager_def sample_state_def sample_table_def sample_resource_def
      wf_env_def sample_env_def component_handlers_def)

lemma one_manager_removed: "fst (remove_agent_data (sample_env {}) ''agent'' one_manager) = Inr ()"
proof -
  let ?env = "sample_env {}" and ?q = "one_manager\<lparr> rest_ctx := new_context AGENT_DISAPPEARED [] [] \<rparr>"
  obtain r t where first: "handler_remove_agent_data ?env ''agent'' ''Manager'' ?q = (r, t)" by fastforce
  have "fst (handler_remove_agent_data ?env ''agent'' ''Manager'' ?q) = Inr ()" by code_simp
  with first have r: "r = Inr ()" by simp
  have ok: "tables_ok ?q" using one_manager_ok(1) by (simp add: tables_ok_def)
  have qt: "only_removes ?q t" using handler_remove_agent_data_only_removes first by (rule leavesD)
  have "agent_keys ''agent'' h t = []" for h
  proof (rule ccontr)
    assume "agent_keys ''agent'' h t \<noteq> []"
    then obtain v where "v \<in> set (agent_keys ''agent'' h t)" by (cases "agent_keys ''agent'' h t") auto
    then obtain e where e: "entry_at t (handler_model h) v = Some e" "m_agent_id e = ''agent''"
      using set_agent_keys[OF tables_ok_removed[OF ok qt]] by auto
    have "handler_model h = ''Manager''"
      using entry_kept[OF ok qt e(1)] by (simp add: one_manager_def sample_state_def sample_table_def find_entry_def split: if_splits)
    then show False
      using handler_remove_agent_data_clears[of ?env "''agent''" "''Manager''" ?q t v e] first r ok e by (simp add: handler_model_def)
  qed
  then obtain l where "efor (handler_remove_agent_data ?env ''agent'') (tl component_handlers) t = (Inr (), t\<lparr> rest_links := l \<rparr>)"
    using no_agent_data by blast
  moreover have "get_handlers ?env = ''Manager'' # tl component_handlers"
    by (simp add: get_handlers_def sample_env_def component_handlers_def)
  ultimately show ?thesis
    using first r by (simp add: remove_agent_data_def with_context_def eff_simps)
qed

theorem remove_agent_data_exactly_witness:
  "find_entry (rest_tables (snd (remove_agent_data (sample_env {}) ''agent'' one_manager)) ''Manager'') ''m'' = None"
proof -
  let ?s' = "snd (remove_agent_data (sample_env {}) ''agent'' one_manager)"
  have run: "remove_agent_data (sample_env {}) ''agent'' one_manager = (Inr (), ?s')"
    using one_manager_removed by (metis prod.collapse)
  have "entry_at one_manager ''Manager'' ''m'' = Some (sample_resource ''m'' ''None'' [] 1 [])"
    by (simp add: one_manager_def sample_state_def sample_table_def sample_resource_def find_entry_def uuid_matches_def)
  then have "(''Manager'', ''m'') \<in> agent_subtree one_manager ''agent''"
    using agent_subtreeI[of "''Manager''" one_manager "''m''"] by (simp add: component_handlers_def handler_model_def sample_resource_def)
  then show ?thesis
    using remove_agent_data_exactly[OF one_manager_ok(3,1,2) run, of "''Manager''" "''m''"] by simp
qed

subsection \<open>Resources without a parent\<close>

text \<open>
  A resource whose address leads over its parent (\<open>child_literals\<close>, \<open>array_literals\<close>) while the parent
  is in no table.
\<close>

definition led_over_parent :: "component \<Rightarrow> bool" where
  "led_over_parent c \<longleftrightarrow> map_of child_literals c \<noteq> None \<or> map_of array_literals c \<noteq> None"

text \<open>
  An orphan: a resource of a kind whose address leads over its parent, where the parent is missing.
  The kinds with an address of their own at the top (\<open>parent_literals\<close>) are not meant: they are removed as usual.
\<close>

definition orphan :: "('n, 'p, 'w) rest_state \<Rightarrow> component \<Rightarrow> uuid \<Rightarrow> ('n, 'p) rest_resource \<Rightarrow> bool" where
  "orphan s c u e \<longleftrightarrow> tables_ok s \<and> entry_at s c u = Some e \<and> led_over_parent c
     \<and> (led_over_parent (m_parent_type e) \<or> map_of parent_literals (m_parent_type e) \<noteq> None)
     \<and> (\<forall>x \<in> set (m_manager_data (rest_tables s (m_parent_type e))). \<not> any_uuid_matches (m_parent_uuid e) x)"

lemma not_parent_literal: "led_over_parent c \<Longrightarrow> map_of parent_literals c = None"
  unfolding led_over_parent_def child_literals_def array_literals_def parent_literals_def
  by (auto split: if_splits)

lemma absent_lookup:
  assumes "\<forall>x \<in> set (m_manager_data m). \<not> any_uuid_matches v x"
  shows "uuid_to_rest_id m v = Inl (InvalidUuid EntryNotFound v)" "get_entry m v = Inl (InvalidUuid EntryNotFound v)"
proof -
  have "find (any_uuid_matches v) (m_manager_data m) = None" "find (uuid_matches v) (m_manager_data m) = None"
    using assms by (auto simp: find_None_iff any_uuid_matches_def uuid_matches_def)
  then show "uuid_to_rest_id m v = Inl (InvalidUuid EntryNotFound v)" "get_entry m v = Inl (InvalidUuid EntryNotFound v)"
    by (simp_all add: uuid_to_rest_id_def get_entry_def find_entry_def)
qed

lemma led_over_parent_url:
  assumes "led_over_parent c"
  obtains k where "component_url_case rec tabs c u path =
     sbind (lift_model (get_entry (tabs c) u)) (\<lambda>r. sbind (rec (m_parent_type r) (m_parent_uuid r) path) (k r))"
proof (cases "map_of child_literals c")
  case (Some literal)
  show thesis by (rule that, rule component_url_child[OF not_parent_literal[OF assms] Some])
next
  case None
  with assms obtain array_name where "map_of array_literals c = Some array_name" by (auto simp: led_over_parent_def)
  then show thesis by (rule that[OF component_url_array[OF not_parent_literal[OF assms] None]])
qed

lemma absent_url:
  assumes "\<forall>x \<in> set (m_manager_data (tabs c)). \<not> any_uuid_matches v x"
    and "led_over_parent c \<or> map_of parent_literals c \<noteq> None"
  shows "component_url_case rec tabs c v path = Inl (ModelError (InvalidUuid EntryNotFound v))"
proof (cases "map_of parent_literals c")
  case (Some literal)
  then show ?thesis
    by (simp add: component_url_parent build_parent_path_def absent_lookup[OF assms(1)] sbind_def lift_model_def)
next
  case None
  with assms(2) have "led_over_parent c" by simp
  then obtain k where "component_url_case rec tabs c v path =
     sbind (lift_model (get_entry (tabs c) v)) (\<lambda>r. sbind (rec (m_parent_type r) (m_parent_uuid r) path) (k r))"
    by (rule led_over_parent_url)
  then show ?thesis by (simp add: absent_lookup[OF assms(1)] sbind_def lift_model_def)
qed

lemma orphan_url:
  assumes "orphan s c u e"
  shows "get_component_url (Suc (Suc n)) (rest_tables s) c u = Inl (ModelError (InvalidUuid EntryNotFound (m_parent_uuid e)))"
proof -
  have parent: "component_url_case rec (rest_tables s) (m_parent_type e) (m_parent_uuid e) path
      = Inl (ModelError (InvalidUuid EntryNotFound (m_parent_uuid e)))" for rec path
    using assms by (intro absent_url) (auto simp: orphan_def)
  let ?rec = "get_component_url_recursive (Suc n) (rest_tables s)"
  have "led_over_parent c" using assms by (simp add: orphan_def)
  then obtain k where "component_url_case ?rec (rest_tables s) c u ROOT_PATH = sbind (lift_model (get_entry (rest_tables s c) u))
      (\<lambda>r. sbind (?rec (m_parent_type r) (m_parent_uuid r) ROOT_PATH) (k r))"
    by (rule led_over_parent_url)
  moreover have "get_entry (rest_tables s c) u = Inr e" using assms by (simp add: orphan_def get_entry_def)
  ultimately show ?thesis by (simp add: get_component_url_def parent sbind_def lift_model_def)
qed

lemma orphan_removed:
  assumes "orphan s c u e" "only_removes s s'" "entry_at s' c u = entry_at s c u"
  shows "orphan s' c u e"
proof -
  have "set (m_manager_data (rest_tables s' (m_parent_type e))) \<subseteq> set (m_manager_data (rest_tables s (m_parent_type e)))"
    using only_removesD(2)[OF assms(2)] by (auto dest: list_emb_set)
  with assms tables_ok_removed[of s s'] show ?thesis by (auto simp: orphan_def)
qed

lemma remove_single_orphan:
  assumes depth: "env_depth env \<ge> 2"
  shows "keeps (\<lambda>s. orphan s c u e) (remove_single env h v)"
proof (rule keepsI)
  fix s r s'
  assume s: "orphan s c u e" and run: "remove_single env h v s = (r, s')"
  have rem: "only_removes s s'" using remove_single_only_removes run by (rule leavesD)
  have ok: "tables_ok s" using s by (simp add: orphan_def)
  have "entry_at s' c u = entry_at s c u"
  proof (cases "(c, u) = (handler_model h, v)")
    case True
    obtain n where n: "env_depth env = Suc (Suc n)" using depth by (metis Suc_le_D numeral_2_eq_2 Suc_le_mono)
    then have "add_event env c ResourceRemoved u s = (Inl (ModelError (InvalidUuid EntryNotFound (m_parent_uuid e))), s)"
      using orphan_url[OF s, of n] by (simp add: add_event_def)
    with run True show ?thesis by (simp add: remove_single_def eff_simps)
  qed (rule remove_single_entries(1)[OF ok run])
  then show "orphan s' c u e" by (rule orphan_removed[OF s rem])
qed

lemma orphan_same_tables: "\<lbrakk>orphan s c u e; rest_tables s' = rest_tables s\<rbrakk> \<Longrightarrow> orphan s' c u e"
  by (simp add: orphan_def tables_ok_def)

lemma orphan_keep_emodify: "(\<And>s. rest_tables (f s) = rest_tables s) \<Longrightarrow> keeps (\<lambda>s. orphan s c u e) (emodify f)"
  by (rule keepsI) (auto intro: orphan_same_tables)

lemma keeps_with_context:
  assumes "\<And>s x. I (s\<lparr> rest_ctx := x \<rparr>) \<longleftrightarrow> I s" and "keeps I m"
  shows "keeps I (with_context c m)"
proof (rule keepsI)
  fix s r s'
  assume "I s" "with_context c m s = (r, s')"
  then obtain t where "m (s\<lparr> rest_ctx := c \<rparr>) = (r, t)" "s' = t\<lparr> rest_ctx := rest_ctx s \<rparr>"
    by (auto simp: with_context_def split: prod.splits)
  with keepsD[OF assms(2)] assms(1) \<open>I s\<close> show "I s'" by metis
qed

lemma keeps_any_read: "(\<And>a. keeps I (f a)) \<Longrightarrow> keeps I (ebind (eget g) f)"
  by (rule keeps_read)

lemma do_remove_orphan: "env_depth env \<ge> 2 \<Longrightarrow> keeps (\<lambda>s. orphan s c u e) (do_remove n env h v)"
proof (induction n arbitrary: h v)
  case 0
  then show ?case by (auto intro: keepsI)
next
  case (Suc n)
  have "keeps (\<lambda>s. orphan s c u e) (get_handler k)" for k
    by (rule keepsI) (auto simp: get_handler_def split: if_splits)
  then show ?case
    unfolding do_remove.simps unlink_def
    by (intro keeps_rules(1) orphan_keep_emodify keeps_any_read keeps_rules(3) keeps_rules(2)[of _ "get_handler _"]
        Suc remove_single_orphan) auto
qed


definition orphaned :: "(nat, unit, nat) rest_state" where
  "orphaned = sample_state (\<lambda>c. if c = ''Drive'' then sample_table [sample_resource ''d'' ''Chassis'' ''c'' 1 []] else sample_table []) (\<lambda>_. [])"


end
