(* ===== verification/Handler_Polling.thy ===== *)
theory Handler_Polling
  imports Handler_Entry Handler_Subtree
begin

text \<open>
  What polling does to the tables: which entries it stores, that it keeps the tables in order,
  and that after the collections below a resource were read, the resources of the agent below
  it are among those the agent lists.
\<close>

subsection \<open>Calls to an agent do not store\<close>

text \<open>
  \<open>count\<close> is any measure of the outside world that no call to an agent decreases, such as the
  number of calls made so far.
\<close>

definition advances :: "('w \<Rightarrow> nat) \<Rightarrow> ('n, 'p, 'w) rest_env \<Rightarrow> bool" where
  "advances count env \<longleftrightarrow> (\<forall>gami req w. count w \<le> count (snd (env_call env gami req w)))"

definition shrinks :: "('w \<Rightarrow> nat) \<Rightarrow> ('n, 'p, 'w) rest_state \<Rightarrow> ('n, 'p, 'w) rest_state \<Rightarrow> bool" where
  "shrinks count s s' \<longleftrightarrow>
     (\<forall>c. m_current_epoch (rest_tables s' c) = m_current_epoch (rest_tables s c)
        \<and> subseq (m_manager_data (rest_tables s' c)) (m_manager_data (rest_tables s c)))
     \<and> rest_subs s' = rest_subs s \<and> count (rest_world s) \<le> count (rest_world s')
     \<and> ctx_mode (rest_ctx s') = ctx_mode (rest_ctx s) \<and> ctx_stack (rest_ctx s') = ctx_stack (rest_ctx s)
     \<and> ctx_agent (rest_ctx s') = ctx_agent (rest_ctx s)"

interpretation shrinking: effect_frame "shrinks count" for count
  by unfold_locales (auto simp: shrinks_def intro: subseq_order.order_trans order_trans)

lemma only_removes_shrinks: "only_removes s s' \<Longrightarrow> shrinks count s s'"
  by (simp add: only_removes_def shrinks_def)

lemma removal_shrinks: "leaves only_removes m \<Longrightarrow> leaves (shrinks count) m"
  by (auto simp: leaves_def intro: only_removes_shrinks)

lemma same_shrinks:
  "\<lbrakk>rest_tables s' = rest_tables s; rest_subs s' = rest_subs s; rest_ctx s' = rest_ctx s;
    count (rest_world s) \<le> count (rest_world s')\<rbrakk> \<Longrightarrow> shrinks count s s'"
  by (simp add: shrinks_def)

lemma connection_failed_shrinks: "leaves (shrinks count) (connection_failed env gami)"
proof -
  have "leaves (shrinks count) (eseq (remove_agent_data env gami) (agent_manager_remove_agent gami))"
    unfolding agent_manager_remove_agent_def
    by (intro shrinking.leaves_eseq removal_shrinks remove_agent_data_only_removes shrinking.leaves_emodify same_shrinks) auto
  then show ?thesis
    unfolding leaves_def connection_failed_def
    by (auto simp: Let_def set_observed_at_def shrinking.same intro: same_shrinks split: option.split)
qed

lemma execute_after_call:
  assumes "env_call env (ctx_agent (rest_ctx s)) req (rest_world s) = (out, w)"
  shows "shrinks count (s\<lparr> rest_world := w \<rparr>) (snd (execute env req s))"
proof -
  have "leaves (shrinks count) (eseq (connection_failed env g) (ethrow (AgentUnreachable g)))" for g
    by (intro shrinking.leaves_eseq connection_failed_shrinks shrinking.leaves_ethrow)
  then show ?thesis
    by (auto simp: execute_def assms Let_def set_observed_at_def leaves_def intro: same_shrinks split: rpc_outcome.split)
qed

lemma execute_shrinks:
  fixes env :: "('n, 'p, 'w) rest_env"
  assumes "advances count env"
  shows "leaves (shrinks count) (execute env req)"
  unfolding leaves_def
proof
  fix s :: "('n, 'p, 'w) rest_state"
  obtain out w where call: "env_call env (ctx_agent (rest_ctx s)) req (rest_world s) = (out, w)" by fastforce
  with assms have "count (rest_world s) \<le> count w" unfolding advances_def by (metis snd_conv)
  then have "shrinks count s (s\<lparr> rest_world := w \<rparr>)" by (intro same_shrinks) auto
  then show "shrinks count s (snd (execute env req s))" by (rule shrinking.chain) (rule execute_after_call[OF call])
qed

lemma execute_list_shrinks: "advances count env \<Longrightarrow> leaves (shrinks count) (execute_list env req)"
  unfolding execute_list_def bad_shape_def
  by (intro shrinking.leaves_ebind execute_shrinks) (auto split: rpc_outcome.split)

lemma execute_resource_shrinks: "advances count env \<Longrightarrow> leaves (shrinks count) (execute_resource env req)"
  unfolding execute_resource_def bad_shape_def
  by (intro shrinking.leaves_ebind execute_shrinks) (auto split: rpc_outcome.split)

lemma execute_metrics_shrinks: "advances count env \<Longrightarrow> leaves (shrinks count) (execute_metrics env req)"
  unfolding execute_metrics_def bad_shape_def
  by (intro shrinking.leaves_ebind execute_shrinks) (auto split: rpc_outcome.split)

lemma empty_if_rpc_error_shrinks: "leaves (shrinks count) m \<Longrightarrow> leaves (shrinks count) (empty_if_rpc_error m)"
  unfolding empty_if_rpc_error_def by (intro shrinking.leaves_ecatch) auto

lemma generic_uuid_list_shrinks: "advances count env \<Longrightarrow> leaves (shrinks count) (generic_uuid_list env p name)"
  unfolding generic_uuid_list_def by (intro empty_if_rpc_error_shrinks execute_list_shrinks)

lemma root_uuid_list_shrinks: "leaves (shrinks count) m \<Longrightarrow> leaves (shrinks count) (root_uuid_list own m p name)"
  unfolding root_uuid_list_def
  by (intro shrinking.leaves_ebind shrinking.leaves_eget shrinking.leaves_if empty_if_rpc_error_shrinks) auto

lemma fetch_uuid_list_shrinks:
  assumes "advances count env"
  shows "leaves (shrinks count) (fetch_uuid_list env h p name)"
proof -
  have "leaves (shrinks count) (manager_uuid_list env p name)"
    unfolding manager_uuid_list_def
    by (intro empty_if_rpc_error_shrinks shrinking.leaves_ebind shrinking.leaves_eget shrinking.leaves_if
        execute_list_shrinks[OF assms] generic_uuid_list_shrinks[OF assms])
  moreover have "leaves (shrinks count) (task_uuid_list env p name)" "leaves (shrinks count) (metric_definition_uuid_list env p name)"
    unfolding task_uuid_list_def metric_definition_uuid_list_def
    by (intro root_uuid_list_shrinks execute_list_shrinks[OF assms])+
  moreover have "leaves (shrinks count) (metric_uuid_list env p name)"
    unfolding metric_uuid_list_def
    by (intro root_uuid_list_shrinks shrinking.leaves_ebind execute_metrics_shrinks[OF assms] shrinking.leaves_eret)
  ultimately show ?thesis by (simp add: fetch_uuid_list_def generic_uuid_list_shrinks[OF assms])
qed

lemma place_shrinks: "leaves (shrinks count) (place p u r)"
  unfolding place_def by (rule shrinking.leaves_eget)

lemma task_result_messages_shrinks:
  "advances count env \<Longrightarrow> leaves (shrinks count) (task_result_messages env u elem)"
  unfolding task_result_messages_def
  by (intro shrinking.leaves_if shrinking.leaves_ecatch shrinking.leaves_ebind execute_shrinks shrinking.leaves_eret)
    (auto split: rest_exception.split sum.split)

lemma fetch_entry_shrinks:
  assumes "advances count env"
  shows "leaves (shrinks count) (fetch_entry env h p u)"
proof -
  have "leaves (shrinks count) (generic_fetch_entry env h p u)"
    unfolding generic_fetch_entry_def by (intro shrinking.leaves_ebind execute_resource_shrinks[OF assms] place_shrinks)
  moreover have "leaves (shrinks count) (metric_fetch_entry env p u)"
    unfolding metric_fetch_entry_def
    by (intro shrinking.leaves_ebind execute_metrics_shrinks[OF assms]) (auto simp: place_shrinks split: list.split)
  moreover have "leaves (shrinks count) (task_fetch_entry env p u)"
    unfolding task_fetch_entry_def
    by (intro shrinking.leaves_ebind execute_resource_shrinks[OF assms] task_result_messages_shrinks[OF assms]
        place_shrinks shrinking.leaves_eget)
  ultimately show ?thesis by (simp add: fetch_entry_def)
qed

lemma handler_get_id_shrinks: "leaves (shrinks count) (handler_get_id env h u p)"
  by (auto simp: leaves_def handler_get_id_def intro: same_shrinks split: prod.split sum.split)

text \<open>The entry a successful \<open>fetch_entry\<close> delivers carries the identifiers it was asked for.\<close>

lemma place_Inr: "place p u r s = (Inr e, s') \<Longrightarrow> m_parent_uuid e = p \<and> m_temporary_uuid e = u \<and> \<not> m_is_uuid_persistent e"
  by (auto simp: place_def set_uuid_def)

lemma fetch_entry_placed:
  assumes "fetch_entry env h p u s = (Inr e, s')"
  shows "m_parent_uuid e = p \<and> m_temporary_uuid e = u \<and> \<not> m_is_uuid_persistent e"
proof -
  have "generic_fetch_entry env h p u s = (Inr e, s') \<Longrightarrow> ?thesis"
    unfolding generic_fetch_entry_def by (elim ebind_InrE) (rule place_Inr)
  moreover have "metric_fetch_entry env p u s = (Inr e, s') \<Longrightarrow> ?thesis"
    unfolding metric_fetch_entry_def by (elim ebind_InrE) (auto split: list.splits dest: place_Inr)
  moreover have "task_fetch_entry env p u s = (Inr e, s') \<Longrightarrow> ?thesis"
    unfolding task_fetch_entry_def by (elim ebind_InrE) (rule place_Inr)
  ultimately show ?thesis using assms by (auto simp: fetch_entry_def split: if_splits)
qed

subsection \<open>What a fetch stores\<close>

lemma task_table: "snd (task_add_or_update_entry hash_of e m) = snd (add_or_update_entry hash_of e m)"
  by (auto simp: task_add_or_update_entry_def add_or_update_entry_def Let_def split: option.split)

lemma store_entry_effect:
  assumes "store_entry env c e s = (r, s')"
  shows "rest_tables s' = (rest_tables s)(c := snd (add_or_update_entry (env_hash env) e (rest_tables s c)))"
    and "rest_subs s' = rest_subs s" and "rest_ctx s' = rest_ctx s" and "rest_world s' = rest_world s"
  using assms task_table[of "env_hash env" e "rest_tables s c", symmetric]
  by (auto simp: store_entry_def on_table_def split: if_splits prod.splits sum.splits)

lemma add_or_update_entry_effect:
  "m_current_epoch (snd (add_or_update_entry hash_of e m)) = m_current_epoch m + 1"
  "set (m_manager_data (snd (add_or_update_entry hash_of e m))) \<subseteq> insert (touch (m_current_epoch m + 1) e) (set (m_manager_data m))"
proof -
  have upd: "set (update_first P (\<lambda>_. x) xs) \<subseteq> insert x (set xs)" for P and x :: 'c and xs
    by (induction xs) auto
  show "m_current_epoch (snd (add_or_update_entry hash_of e m)) = m_current_epoch m + 1"
    by (simp add: add_or_update_entry_def Let_def split: option.split)
  show "set (m_manager_data (snd (add_or_update_entry hash_of e m))) \<subseteq> insert (touch (m_current_epoch m + 1) e) (set (m_manager_data m))"
    by (auto simp: add_or_update_entry_def Let_def split: option.split dest: subsetD[OF upd])
qed

lemma add_to_model_steps:
  assumes "add_to_model env h e s = (r, s')"
  obtains k q where "store_entry env (handler_model h) e s = (k, q)" "shrinks count q s'"
proof -
  obtain k q where store: "store_entry env (handler_model h) e s = (k, q)" by fastforce
  have ctx: "leaves (shrinks count) (on_context f)" if "\<And>x. ctx_mode (f x) = ctx_mode x \<and> ctx_stack (f x) = ctx_stack x \<and> ctx_agent (f x) = ctx_agent x" for f
    unfolding on_context_def using that by (intro shrinking.leaves_emodify) (simp add: shrinks_def)
  have ev: "leaves (shrinks count) (if b then eseq (add_event env c t u) (on_context f) else eret ())"
    if "\<And>x. ctx_mode (f x) = ctx_mode x \<and> ctx_stack (f x) = ctx_stack x \<and> ctx_agent (f x) = ctx_agent x" for b c t u f
    by (intro shrinking.leaves_if shrinking.leaves_eseq removal_shrinks add_event_only_removes ctx[OF that] shrinking.leaves_eret)
  have "shrinks count q s'"
  proof (cases k)
    case (Inl x)
    with assms store show ?thesis by (simp add: add_to_model_def Let_def eff_simps shrinking.same)
  next
    case (Inr st)
    with assms store show ?thesis
      unfolding add_to_model_def Let_def ebind_apply
      by (simp del: if_split) (erule leavesD[rotated], intro shrinking.leaves_eseq shrinking.leaves_eret ev, simp_all)
  qed
  with store show thesis by (rule that)
qed

lemma fetch_steps:
  assumes adv: "advances count env" and run: "fetch env h p u s = (r, s')"
  obtains (early) "shrinks count s s'"
    | (stored) f a t e k q where "fetch_entry env h p u s = (Inr f, a)" "shrinks count a t"
        "store_entry env (handler_model h) e t = (k, q)" "shrinks count q s'"
        "m_parent_uuid e = p" "m_temporary_uuid e = u" "\<not> m_is_uuid_persistent e"
proof -
  obtain x a where fe: "fetch_entry env h p u s = (x, a)" by fastforce
  have sa: "shrinks count s a" using fetch_entry_shrinks[OF adv] fe by (rule leavesD)
  obtain y t where gi: "handler_get_id env h u p a = (y, t)" by fastforce
  have at: "shrinks count a t" using handler_get_id_shrinks gi by (rule leavesD)
  show thesis
  proof (cases "\<exists>f i. x = Inr f \<and> y = Inr i")
    case False
    then have "s' = a \<or> s' = t" using run fe gi
      by (cases x; cases y) (auto simp: fetch_def eff_simps)
    then show thesis using early sa at by (blast intro: shrinking.chain)
  next
    case True
    then obtain f i where xy: "x = Inr f" "y = Inr i" by blast
    let ?e = "f\<lparr> m_id := i, m_agent_id := ctx_agent (rest_ctx t) \<rparr>"
    obtain z where "add_to_model env h ?e t = (z, s')"
      using run fe gi xy by (auto simp: fetch_def eff_simps split: prod.splits sum.splits)
    then obtain k q where "store_entry env (handler_model h) ?e t = (k, q)" "shrinks count q s'"
      by (rule add_to_model_steps)
    then show thesis using stored[of f a t ?e k q] fe xy at fetch_entry_placed[of env h p u s f a] by simp
  qed
qed

subsection \<open>Which entries reading stores\<close>

text \<open>
  During a call for the agent \<open>gami\<close> and below a resource, the entries stored with the parent
  \<open>q\<close> satisfy \<open>P\<close>. The stack of components only grows, by components other than \<open>None\<close>: an
  exception can leave some behind.
\<close>

definition stores_only ::
    "string \<Rightarrow> uuid \<Rightarrow> (component \<Rightarrow> uuid \<Rightarrow> bool) \<Rightarrow> ('n, 'p, 'w) rest_state \<Rightarrow> ('n, 'p, 'w) rest_state \<Rightarrow> bool" where
  "stores_only gami q P s s' \<longleftrightarrow>
     ctx_mode (rest_ctx s') = ctx_mode (rest_ctx s) \<and> ctx_agent (rest_ctx s') = ctx_agent (rest_ctx s)
     \<and> (\<exists>pushed. ctx_stack (rest_ctx s') = pushed @ ctx_stack (rest_ctx s) \<and> ''None'' \<notin> set pushed)
     \<and> (get_parent_component (rest_ctx s) \<noteq> ''None'' \<longrightarrow> ctx_agent (rest_ctx s) = gami \<longrightarrow>
          (\<forall>c e. e \<in> set (m_manager_data (rest_tables s' c)) \<longrightarrow> m_parent_uuid e = q
             \<longrightarrow> e \<in> set (m_manager_data (rest_tables s c)) \<or> P c (get_uuid e)))"

lemma parent_component_pushed:
  "\<lbrakk>ctx_stack x' = pushed @ ctx_stack x; ''None'' \<notin> set pushed; get_parent_component x \<noteq> ''None''\<rbrakk>
   \<Longrightarrow> get_parent_component x' \<noteq> ''None''"
  by (cases pushed) (auto simp: get_parent_component_def)

interpretation storing: effect_frame "stores_only gami q P" for gami q P
proof
  fix s t u :: "('a, 'b, 'c) rest_state"
  show "stores_only gami q P s s" by (simp add: stores_only_def)
  assume st: "stores_only gami q P s t" and tu: "stores_only gami q P t u"
  from st obtain xs where "ctx_stack (rest_ctx t) = xs @ ctx_stack (rest_ctx s)" "''None'' \<notin> set xs"
    unfolding stores_only_def by blast
  moreover from tu obtain ys where "ctx_stack (rest_ctx u) = ys @ ctx_stack (rest_ctx t)" "''None'' \<notin> set ys"
    unfolding stores_only_def by blast
  ultimately have "\<exists>zs. ctx_stack (rest_ctx u) = zs @ ctx_stack (rest_ctx s) \<and> ''None'' \<notin> set zs"
    and "get_parent_component (rest_ctx s) \<noteq> ''None'' \<Longrightarrow> get_parent_component (rest_ctx t) \<noteq> ''None''"
    using parent_component_pushed[of "rest_ctx t" xs "rest_ctx s"] by (auto intro: exI[of _ "ys @ xs"])
  with st tu show "stores_only gami q P s u" unfolding stores_only_def by metis
qed

lemma shrinks_subset: "shrinks count s s' \<Longrightarrow> set (m_manager_data (rest_tables s' c)) \<subseteq> set (m_manager_data (rest_tables s c))"
  unfolding shrinks_def by (blast dest: list_emb_set)

lemma shrinks_stores: "shrinks count s s' \<Longrightarrow> stores_only gami q P s s'"
  using shrinks_subset[of count s s'] by (auto simp: shrinks_def stores_only_def)

lemma leaves_shrinks_stores: "leaves (shrinks (\<lambda>_. 0)) m \<Longrightarrow> leaves (stores_only gami q P) m"
  by (auto simp: leaves_def intro: shrinks_stores)

lemma advances_zero: "advances (\<lambda>_. 0) env"
  by (simp add: advances_def)

lemma same_stores: "\<lbrakk>rest_tables s' = rest_tables s; rest_ctx s' = rest_ctx s\<rbrakk> \<Longrightarrow> stores_only gami q P s s'"
  by (simp add: stores_only_def)

lemma fetch_stores:
  assumes "p = q \<Longrightarrow> P (handler_model h) u"
  shows "leaves (stores_only gami q P) (fetch env h p u)"
  unfolding leaves_def
proof
  fix s :: "('a, 'b, 'c) rest_state"
  obtain r s' where run: "fetch env h p u s = (r, s')" by fastforce
  from advances_zero run have "stores_only gami q P s s'"
  proof (cases rule: fetch_steps)
    case early
    then show ?thesis by (rule shrinks_stores)
  next
    case (stored f a t e k x)
    note eff = store_entry_effect[OF stored(3)]
    have "get_uuid e = u" using stored(6,7) by (simp add: get_uuid_def)
    then have "stores_only gami q P t x"
      using eff(1,3) add_or_update_entry_effect(2)[of "env_hash env" e "rest_tables t (handler_model h)"] assms stored(5)
      by (auto simp: stores_only_def)
    moreover have "shrinks (\<lambda>_. 0) s a" using fetch_entry_shrinks[OF advances_zero] stored(1) by (rule leavesD)
    ultimately show ?thesis using stored(2,4) by (meson shrinks_stores storing.chain)
  qed
  with run show "stores_only gami q P s (snd (fetch env h p u s))" by simp
qed

lemma remove_untouched_only_removes: "leaves only_removes (remove_untouched env h p epoch)"
proof -
  have "leaves only_removes (efor (\<lambda>u. eseq (do_remove (env_depth env) env h u) count_removed) us)" for us
    unfolding count_removed_def
    by (intro removals.leaves_efor removals.leaves_eseq do_remove_only_removes removals.leaves_emodify)
      (simp add: only_removes_def)
  then show ?thesis by (auto simp: leaves_def remove_untouched_def removals.same)
qed

text \<open>The agent lists, below resources of a set, only resources of the set.\<close>

definition lists_within :: "('n, 'p, 'w) rest_env \<Rightarrow> string \<Rightarrow> uuid set \<Rightarrow> bool" where
  "lists_within env gami Q \<longleftrightarrow> (\<forall>p \<in> Q. \<forall>name w us. fst (env_call env gami (GetCollection p name) w) = Subcomponents us \<longrightarrow> set us \<subseteq> Q)"

lemma execute_list_Inr:
  assumes "execute_list env req s = (Inr us, s')"
  shows "fst (env_call env (ctx_agent (rest_ctx s)) req (rest_world s)) = Subcomponents us"
  using assms by (auto simp: execute_list_def execute_def bad_shape_def Let_def eff_simps split: prod.splits sum.splits rpc_outcome.splits)

lemma fetch_uuid_list_Inr:
  assumes "fetch_uuid_list env h p name s = (Inr us, s')" and "get_parent_component (rest_ctx s) \<noteq> ''None''"
  shows "us = [] \<or> fst (env_call env (ctx_agent (rest_ctx s)) (GetCollection p name) (rest_world s)) = Subcomponents us"
proof -
  have generic: "us = [] \<or> fst (env_call env (ctx_agent (rest_ctx s)) (GetCollection p name) (rest_world s)) = Subcomponents us"
    if "generic_uuid_list env p name s = (Inr us, s')"
    using that execute_list_Inr[of env "GetCollection p name" s]
    by (auto simp: generic_uuid_list_def empty_if_rpc_error_def eff_simps split: prod.splits sum.splits if_splits)
  have manager: "generic_uuid_list env p name s = (Inr us, s') \<or> us = []" if "manager_uuid_list env p name s = (Inr us, s')"
    using that assms(2)
    by (auto simp: manager_uuid_list_def empty_if_rpc_error_def eff_simps split: prod.splits sum.splits if_splits)
  have root: "us = []" if "root_uuid_list own m p name s = (Inr us, s')" for own m
    using that assms(2) by (auto simp: root_uuid_list_def eff_simps)
  show ?thesis
    using assms(1) generic manager root
    by (auto simp: fetch_uuid_list_def task_uuid_list_def metric_definition_uuid_list_def metric_uuid_list_def split: if_splits)
qed

abbreviation call_frame :: "('n, 'p, 'w) rest_state \<Rightarrow> ('n, 'p, 'w) rest_state \<Rightarrow> bool" where
  "call_frame \<equiv> stores_only [] [] (\<lambda>_ _. True)"

lemma call_frame_stores:
  "\<lbrakk>call_frame s s'; get_parent_component (rest_ctx s) \<noteq> ''None'' \<Longrightarrow> ctx_agent (rest_ctx s) = gami \<Longrightarrow> stores_only gami q P s s'\<rbrakk>
   \<Longrightarrow> stores_only gami q P s s'"
  unfolding stores_only_def by blast

lemma stores_call_frame: "stores_only gami q P s s' \<Longrightarrow> call_frame s s'"
  by (simp add: stores_only_def)

lemma component_handlers_named: "h \<in> set component_handlers \<Longrightarrow> handler_component h \<noteq> ''None''"
  by (auto simp: component_handlers_def handler_component_def handler_model_def)

lemma sub_handlers_named:
  assumes "sub \<in> set (sub_handlers cols)"
  shows "snd sub \<in> set component_handlers" "handler_component (snd sub) \<noteq> ''None''"
proof -
  obtain t where "map_of collection_handlers t = Some (snd sub)"
    using assms by (auto simp: sub_handlers_def split: option.splits)
  then have "(t, snd sub) \<in> set collection_handlers" by (rule map_of_SomeD)
  then have "snd sub \<in> snd ` set collection_handlers" by (rule image_eqI[rotated]) simp
  also have "\<dots> \<subseteq> set component_handlers" by (simp add: collection_handlers_def component_handlers_def)
  finally show "snd sub \<in> set component_handlers" .
  then show "handler_component (snd sub) \<noteq> ''None''" by (rule component_handlers_named)
qed

lemma unless_unreachable_stores: "leaves (stores_only gami q P) m \<Longrightarrow> leaves (stores_only gami q P) (unless_unreachable m)"
  unfolding unless_unreachable_def by (intro storing.leaves_ecatch) auto

lemma fetch_strong_stores:
  assumes frame: "\<And>u. leaves call_frame (adder h p u True)"
    and inside: "\<And>u. u \<in> U \<Longrightarrow> leaves (stores_only gami q P) (adder h p u True)"
    and listed: "\<And>w us. fst (env_call env gami (GetCollection p name) w) = Subcomponents us \<Longrightarrow> set us \<subseteq> U"
  shows "leaves (stores_only gami q P) (fetch_strong adder env h p name)"
  unfolding fetch_strong_def
proof (rule storing.leaves_ebind_at)
  show "leaves (stores_only gami q P) (fetch_uuid_list env h p name)"
    by (intro leaves_shrinks_stores fetch_uuid_list_shrinks advances_zero)
  fix us s t
  assume run: "fetch_uuid_list env h p name s = (Inr us, t)"
  let ?loop = "efor (\<lambda>u. unless_unreachable (ebind (adder h p u True) (\<lambda>_. eret ()))) us"
  have "leaves (shrinks (\<lambda>_. 0)) (fetch_uuid_list env h p name)" by (intro fetch_uuid_list_shrinks advances_zero)
  then have "shrinks (\<lambda>_. 0) s t" using run by (rule leavesD)
  then have ctx: "get_parent_component (rest_ctx t) = get_parent_component (rest_ctx s)" "ctx_agent (rest_ctx t) = ctx_agent (rest_ctx s)"
    by (auto simp: shrinks_def get_parent_component_def)
  have "leaves call_frame ?loop"
    by (intro storing.leaves_efor unless_unreachable_stores storing.leaves_ebind frame storing.leaves_eret)
  then have "call_frame t (snd (?loop t))" by (simp add: leaves_def)
  then show "stores_only gami q P t (snd (?loop t))"
  proof (rule call_frame_stores)
    assume "get_parent_component (rest_ctx t) \<noteq> ''None''" "ctx_agent (rest_ctx t) = gami"
    then have "set us \<subseteq> U" using fetch_uuid_list_Inr[OF run] ctx listed by auto
    then have "leaves (stores_only gami q P) ?loop"
      by (intro storing.leaves_efor unless_unreachable_stores storing.leaves_ebind inside storing.leaves_eret) auto
    then show "stores_only gami q P t (snd (?loop t))" by (simp add: leaves_def)
  qed
qed

lemma fetch_siblings_stores:
  assumes "\<And>u. leaves call_frame (adder h p u True)"
    and "\<And>u. u \<in> U \<Longrightarrow> leaves (stores_only gami q P) (adder h p u True)"
    and "\<And>w us. fst (env_call env gami (GetCollection p name) w) = Subcomponents us \<Longrightarrow> set us \<subseteq> U"
  shows "leaves (stores_only gami q P) (fetch_siblings adder env h p name)"
proof -
  have links: "leaves (stores_only gami q P) (ebind (fetch_uuid_list env h p name) (\<lambda>us. emodify (\<lambda>s. s\<lparr> rest_links := f us s \<rparr>)))" for f
    by (intro storing.leaves_ebind leaves_shrinks_stores fetch_uuid_list_shrinks advances_zero storing.leaves_emodify same_stores) auto
  have strong: "leaves (stores_only gami q P) (fetch_strong adder env h p name)" using assms by (rule fetch_strong_stores)
  show ?thesis
    unfolding fetch_siblings_def fetch_links_def fetch_acls_def
    by (intro storing.leaves_ebind storing.leaves_eget) (auto simp: strong links split: collection_kind.split)
qed

lemma fetch_collections_stores:
  "(\<And>sub. sub \<in> set subs \<Longrightarrow> leaves (stores_only gami q P) (fetch_siblings adder env (snd sub) p (fst sub)))
   \<Longrightarrow> leaves (stores_only gami q P) (fetch_collections adder env h p subs epochs)"
proof (induction subs arbitrary: epochs)
  case (Cons sub subs)
  have "leaves (stores_only gami q P) (remember_sub_handler h (snd sub))"
    unfolding remember_sub_handler_def by (intro storing.leaves_emodify same_stores) auto
  with Cons show ?case
    by (simp only: fetch_collections.simps) (intro storing.leaves_ebind storing.leaves_eget storing.leaves_eseq unless_unreachable_stores, auto)
qed (simp add: storing.leaves_eret)

lemma ebind_eseq: "ebind m (\<lambda>a. eseq (f a) n) = eseq (ebind m f) n"
  by (auto simp: fun_eq_iff eff_simps split: prod.splits sum.splits)

lemma bracket_stores:
  assumes inner: "leaves (stores_only gami q P) m" and c: "c \<noteq> ''None''"
  shows "leaves (stores_only gami q P) (eseq (push_component c) (eseq m pop_component))"
  unfolding leaves_def
proof
  fix s :: "('a, 'b, 'c) rest_state"
  let ?s = "s\<lparr> rest_ctx := (rest_ctx s)\<lparr> ctx_stack := c # ctx_stack (rest_ctx s) \<rparr> \<rparr>"
  obtain r t where run: "m ?s = (r, t)" by fastforce
  have push: "stores_only gami q P s ?s" using c by (simp add: stores_only_def)
  moreover have body: "stores_only gami q P ?s t" using inner run by (rule leavesD)
  ultimately have st: "stores_only gami q P s t" by (rule storing.chain)
  from body obtain xs where xs: "ctx_stack (rest_ctx t) = xs @ c # ctx_stack (rest_ctx s)" "''None'' \<notin> set xs"
    unfolding stores_only_def by auto
  have "\<exists>ys. tl (ctx_stack (rest_ctx t)) = ys @ ctx_stack (rest_ctx s) \<and> ''None'' \<notin> set ys"
    using xs c by (cases xs) auto
  with st have "stores_only gami q P s (t\<lparr> rest_ctx := (rest_ctx t)\<lparr> ctx_stack := tl (ctx_stack (rest_ctx t)) \<rparr> \<rparr>)"
    by (simp add: stores_only_def)
  with st run show "stores_only gami q P s (snd (eseq (push_component c) (eseq m pop_component) s))"
    by (cases r) (simp_all add: push_component_def pop_component_def on_context_def eff_simps)
qed

lemma fetch_subcomponents_stores:
  assumes "\<And>sub. sub \<in> set (sub_handlers cols) \<Longrightarrow> leaves (stores_only gami q P) (fetch_siblings adder env (snd sub) p (fst sub))"
    and "handler_component h \<noteq> ''None''"
  shows "leaves (stores_only gami q P) (fetch_subcomponents adder env h p cols)"
  unfolding fetch_subcomponents_def ebind_eseq
  by (intro bracket_stores storing.leaves_ebind fetch_collections_stores storing.leaves_efor
      leaves_shrinks_stores[OF removal_shrinks] remove_untouched_only_removes assms)

lemma add_step_stores:
  assumes "p = q \<Longrightarrow> P (handler_model h) u" and "handler_component h \<noteq> ''None''"
    and "\<And>h' name. handler_component h' \<noteq> ''None'' \<Longrightarrow> leaves (stores_only gami q P) (fetch_siblings (add n env) env h' u name)"
  shows "leaves (stores_only gami q P) (add (Suc n) env h p u recursively)"
  unfolding add.simps
  by (intro storing.leaves_ebind storing.leaves_eseq storing.leaves_if storing.leaves_eret fetch_stores
      fetch_subcomponents_stores assms sub_handlers_named(2))

lemma add_frame: "handler_component h \<noteq> ''None'' \<Longrightarrow> leaves call_frame (add n env h p u recursively)"
proof (induction n arbitrary: h p u recursively)
  case 0
  then show ?case by (simp add: storing.leaves_ethrow)
next
  case (Suc n)
  then show ?case by (intro add_step_stores fetch_siblings_stores[where U = UNIV]) auto
qed

text \<open>Reading below resources that are not \<open>q\<close> stores nothing with the parent \<open>q\<close>.\<close>

lemma add_stores:
  assumes within: "lists_within env gami Q" and q: "q \<notin> Q"
  shows "\<lbrakk>p \<in> Q \<or> P (handler_model h) u; u \<in> Q; handler_component h \<noteq> ''None''\<rbrakk> \<Longrightarrow> leaves (stores_only gami q P) (add n env h p u recursively)"
proof (induction n arbitrary: h p u recursively)
  case 0
  then show ?case by (simp add: storing.leaves_ethrow)
next
  case (Suc n)
  show ?case
  proof (rule add_step_stores)
    show "p = q \<Longrightarrow> P (handler_model h) u" using Suc.prems q by auto
    show "leaves (stores_only gami q P) (fetch_siblings (add n env) env h' u name)" if "handler_component h' \<noteq> ''None''" for h' name
      using that Suc within by (intro fetch_siblings_stores[where U = Q] add_frame) (auto simp: lists_within_def)
  qed (rule Suc.prems)
qed

subsection \<open>Epochs and calls\<close>

text \<open>
  Every stored entry follows a call to the agent, so an epoch advances at most by the number of
  calls. As long as no epoch runs over its 64 bits, the tables stay in order.
\<close>

definition ticks :: "('w \<Rightarrow> nat) \<Rightarrow> ('n, 'p, 'w) rest_env \<Rightarrow> bool" where
  "ticks count env \<longleftrightarrow> (\<forall>gami req w. count w < count (snd (env_call env gami req w)))"

definition paced :: "('w \<Rightarrow> nat) \<Rightarrow> ('n, 'p, 'w) rest_state \<Rightarrow> ('n, 'p, 'w) rest_state \<Rightarrow> bool" where
  "paced count s s' \<longleftrightarrow> count (rest_world s) \<le> count (rest_world s')
     \<and> (\<forall>c. \<exists>k \<le> count (rest_world s') - count (rest_world s).
          m_current_epoch (rest_tables s' c) = m_current_epoch (rest_tables s c) + of_nat k)
     \<and> (tables_ok s \<longrightarrow> (\<forall>c. unat (m_current_epoch (rest_tables s c)) + (count (rest_world s') - count (rest_world s)) < 2 ^ 64)
          \<longrightarrow> tables_ok s')"

lemma unat_add_le: "unat ((x :: u64) + of_nat k) \<le> unat x + k"
proof -
  have "unat (x + of_nat k) = (unat x + unat (of_nat k :: u64)) mod 2 ^ 64" by (simp add: unat_word_ariths)
  also have "\<dots> \<le> unat x + unat (of_nat k :: u64)" by (rule mod_less_eq_dividend)
  also have "\<dots> \<le> unat x + k" by (simp add: unat_of_nat)
  finally show ?thesis .
qed

lemma paced_room:
  assumes pace: "paced count s t" and le: "count (rest_world t) \<le> n" and ok: "tables_ok s"
    and room: "\<forall>c. unat (m_current_epoch (rest_tables s c)) + (n - count (rest_world s)) < 2 ^ 64"
  shows "tables_ok t \<and> (\<forall>c. unat (m_current_epoch (rest_tables t c)) + (n - count (rest_world t)) < 2 ^ 64)"
proof -
  have st: "count (rest_world s) \<le> count (rest_world t)" using pace by (simp add: paced_def)
  have less: "unat (m_current_epoch (rest_tables s c)) + (count (rest_world t) - count (rest_world s)) < 2 ^ 64" for c
    using room[rule_format, of c] le st by linarith
  have "unat (m_current_epoch (rest_tables t c)) + (n - count (rest_world t)) < 2 ^ 64" for c
  proof -
    obtain k where k: "k \<le> count (rest_world t) - count (rest_world s)"
      "m_current_epoch (rest_tables t c) = m_current_epoch (rest_tables s c) + of_nat k"
      using pace unfolding paced_def by blast
    then have "unat (m_current_epoch (rest_tables t c)) \<le> unat (m_current_epoch (rest_tables s c)) + k"
      by (simp add: unat_add_le)
    with k(1) room[rule_format, of c] le st show ?thesis by linarith
  qed
  with pace ok less show ?thesis by (simp add: paced_def)
qed

lemma paced_chain:
  assumes "paced count s t" "paced count t u"
  shows "paced count s u"
proof -
  let ?n = "count (rest_world t) - count (rest_world s)" and ?m = "count (rest_world u) - count (rest_world t)"
  have le: "count (rest_world s) \<le> count (rest_world t)" "count (rest_world t) \<le> count (rest_world u)"
    using assms by (auto simp: paced_def)
  have "\<exists>k \<le> count (rest_world u) - count (rest_world s).
      m_current_epoch (rest_tables u c) = m_current_epoch (rest_tables s c) + of_nat k" for c
  proof -
    obtain j k where "j \<le> ?n" "m_current_epoch (rest_tables t c) = m_current_epoch (rest_tables s c) + of_nat j"
      "k \<le> ?m" "m_current_epoch (rest_tables u c) = m_current_epoch (rest_tables t c) + of_nat k"
      using assms unfolding paced_def by metis
    with le show ?thesis by (intro exI[of _ "j + k"]) (simp add: add.assoc)
  qed
  moreover have "tables_ok u" if "tables_ok s"
    "\<forall>c. unat (m_current_epoch (rest_tables s c)) + (count (rest_world u) - count (rest_world s)) < 2 ^ 64"
    using paced_room[OF assms(1) le(2) that] assms(2) by (simp add: paced_def)
  ultimately show ?thesis using le by (simp add: paced_def)
qed

interpretation pacing: effect_frame "paced count" for count
proof (unfold_locales, goal_cases)
  case (1 s)
  show ?case by (auto simp: paced_def)
next
  case (2 s t u)
  then show ?case by (rule paced_chain)
qed

lemma shrinks_paced:
  assumes "shrinks count s s'"
  shows "paced count s s'"
proof -
  have "tables_ok s \<Longrightarrow> tables_ok s'"
    using assms unfolding tables_ok_def shrinks_def by (blast intro: rest_inv_subseq)
  with assms show ?thesis unfolding paced_def shrinks_def by (auto intro: exI[of _ 0])
qed

lemma add_or_update_entry_keeps:
  assumes inv: "rest_inv m" and np: "\<not> m_is_uuid_persistent r" and room: "unat (m_current_epoch m) < 2 ^ 64 - 1"
  shows "rest_inv (snd (add_or_update_entry hash_of r m))"
proof (cases "\<forall>it. find_entry m (m_temporary_uuid r) = Some it \<longrightarrow> m_parent_uuid it = m_parent_uuid r")
  case True
  then show ?thesis using add_or_update_entry_rest(1)[OF inv np _ room] by blast
next
  case False
  then obtain it where "find_entry m (get_uuid r) = Some it" "m_parent_uuid it \<noteq> m_parent_uuid r"
    using np by (auto simp: get_uuid_def)
  then have same: "snd (add_or_update_entry hash_of r m) = m\<lparr> m_current_epoch := m_current_epoch m + 1 \<rparr>"
    by (simp add: add_or_update_entry_def Let_def)
  have "m_current_epoch m \<le> m_current_epoch m + 1" using room by (simp add: word_le_nat_alt unat_word_ariths)
  with inv show ?thesis unfolding same by (auto simp: rest_inv_def intro: order_trans)
qed

lemma execute_ticks:
  assumes "ticks count env" and "execute env req s = (r, s')"
  shows "count (rest_world s) < count (rest_world s')"
proof -
  obtain out w where call: "env_call env (ctx_agent (rest_ctx s)) req (rest_world s) = (out, w)" by fastforce
  with assms(1) have "count (rest_world s) < count w" unfolding ticks_def by (metis snd_conv)
  also have "\<dots> \<le> count (rest_world s')"
    using execute_after_call[OF call, of count] assms(2) by (simp add: shrinks_def)
  finally show ?thesis .
qed

lemma ticks_advances: "ticks count env \<Longrightarrow> advances count env"
  by (simp add: ticks_def advances_def less_imp_le)

lemma fetch_entry_ticks:
  assumes tick: "ticks count env" and run: "fetch_entry env h p u s = (Inr f, a)"
  shows "count (rest_world s) < count (rest_world a)"
proof -
  have place: "place p u r x = (y, z) \<Longrightarrow> rest_world z = rest_world x" for r x y z by (auto simp: place_def)
  have first: "count (rest_world s) < count (rest_world t)" if "execute_resource env req s = (Inr r, t) \<or> execute_metrics env req s = (Inr rs, t)" for req r rs t
    using that unfolding execute_resource_def execute_metrics_def bad_shape_def
    by (auto elim!: ebind_InrE dest!: execute_ticks[OF tick] split: rpc_outcome.splits)
  have "generic_fetch_entry env h p u s = (Inr f, a) \<Longrightarrow> ?thesis"
    unfolding generic_fetch_entry_def by (elim ebind_InrE) (use first place in fastforce)
  moreover have "metric_fetch_entry env p u s = (Inr f, a) \<Longrightarrow> ?thesis"
    unfolding metric_fetch_entry_def by (elim ebind_InrE) (use first place in \<open>fastforce split: list.splits\<close>)
  moreover have "task_fetch_entry env p u s = (Inr f, a) \<Longrightarrow> ?thesis"
    unfolding task_fetch_entry_def
    by (elim ebind_InrE) (use first place leavesD[OF task_result_messages_shrinks[OF ticks_advances[OF tick]]] in \<open>fastforce simp: shrinks_def\<close>)
  ultimately show ?thesis using run by (auto simp: fetch_entry_def split: if_splits)
qed

lemma store_paced:
  assumes "store_entry env c e t = (k, q)" and np: "\<not> m_is_uuid_persistent e"
    and before: "paced count s t" and tick: "count (rest_world s) < count (rest_world t)"
    and same: "\<And>c. m_current_epoch (rest_tables t c) = m_current_epoch (rest_tables s c)"
  shows "paced count s q"
proof -
  note eff = store_entry_effect[OF assms(1)]
  let ?m = "rest_tables t c" and ?n = "count (rest_world q) - count (rest_world s)"
  have epoch: "m_current_epoch (rest_tables q c') = (if c' = c then m_current_epoch (rest_tables s c') + 1 else m_current_epoch (rest_tables s c'))" for c'
    by (simp add: eff(1) same add_or_update_entry_effect(1))
  have "\<exists>j \<le> ?n. m_current_epoch (rest_tables q c') = m_current_epoch (rest_tables s c') + of_nat j" for c'
    using tick eff(4) epoch[of c'] by (intro exI[of _ "if c' = c then 1 else 0"]) auto
  moreover have "tables_ok q" if ok: "tables_ok s" and room: "\<forall>c. unat (m_current_epoch (rest_tables s c)) + ?n < 2 ^ 64"
  proof -
    have "tables_ok t" using before ok room eff(4) by (simp add: paced_def)
    moreover have "unat (m_current_epoch ?m) < 2 ^ 64 - 1" using room[rule_format, of c] tick eff(4) same by simp
    ultimately show ?thesis using add_or_update_entry_keeps[OF _ np] by (auto simp: tables_ok_def eff(1))
  qed
  ultimately show ?thesis using tick eff(4) by (simp add: paced_def)
qed

lemma fetch_paced:
  assumes tick: "ticks count env"
  shows "leaves (paced count) (fetch env h p u)"
  unfolding leaves_def
proof
  fix s
  obtain r s' where run: "fetch env h p u s = (r, s')" by fastforce
  from ticks_advances[OF tick] run have "paced count s s'"
  proof (cases rule: fetch_steps)
    case early
    then show ?thesis by (rule shrinks_paced)
  next
    case (stored f a t e k q)
    have sa: "shrinks count s a" using fetch_entry_shrinks[OF ticks_advances[OF tick]] stored(1) by (rule leavesD)
    then have st: "shrinks count s t" using stored(2) by (rule shrinking.chain)
    have "count (rest_world s) < count (rest_world t)"
      using fetch_entry_ticks[OF tick stored(1)] stored(2) by (simp add: shrinks_def)
    with st have "paced count s q"
      by (intro store_paced[OF stored(3,7)]) (auto intro: shrinks_paced simp: shrinks_def)
    then show ?thesis by (rule pacing.chain) (rule shrinks_paced[OF stored(4)])
  qed
  with run show "paced count s (snd (fetch env h p u s))" by simp
qed

lemma same_paced:
  "\<lbrakk>rest_tables s' = rest_tables s; rest_world s' = rest_world s\<rbrakk> \<Longrightarrow> paced count s s'"
  by (auto simp: paced_def tables_ok_def intro: exI[of _ 0])

lemma leaves_shrinks_paced: "leaves (shrinks count) m \<Longrightarrow> leaves (paced count) m"
  by (auto simp: leaves_def intro: shrinks_paced)

lemma emodify_paced: "(\<And>s. rest_tables (f s) = rest_tables s \<and> rest_world (f s) = rest_world s) \<Longrightarrow> leaves (paced count) (emodify f)"
  by (intro pacing.leaves_emodify same_paced) auto

lemma unless_unreachable_paced: "leaves (paced count) m \<Longrightarrow> leaves (paced count) (unless_unreachable m)"
  unfolding unless_unreachable_def by (intro pacing.leaves_ecatch) auto

lemma fetch_siblings_paced:
  assumes tick: "ticks count env" and adder: "\<And>u. leaves (paced count) (adder h p u True)"
  shows "leaves (paced count) (fetch_siblings adder env h p name)"
proof -
  have list: "leaves (paced count) (fetch_uuid_list env h p name)"
    by (intro leaves_shrinks_paced fetch_uuid_list_shrinks ticks_advances tick)
  have links: "leaves (paced count) (ebind (fetch_uuid_list env h p name) (\<lambda>us. emodify (\<lambda>s. s\<lparr> rest_links := f us s \<rparr>)))" for f
    by (intro pacing.leaves_ebind list emodify_paced) auto
  have strong: "leaves (paced count) (fetch_strong adder env h p name)"
    unfolding fetch_strong_def
    by (intro pacing.leaves_ebind list pacing.leaves_efor unless_unreachable_paced adder pacing.leaves_eret)
  show ?thesis
    unfolding fetch_siblings_def fetch_links_def fetch_acls_def
    by (intro pacing.leaves_ebind pacing.leaves_eget) (auto simp: strong links split: collection_kind.split)
qed

lemma fetch_collections_paced:
  assumes tick: "ticks count env" and adder: "\<And>h p u. leaves (paced count) (adder h p u True)"
  shows "leaves (paced count) (fetch_collections adder env h p subs epochs)"
proof (induction subs arbitrary: epochs)
  case (Cons sub subs)
  have "leaves (paced count) (remember_sub_handler h (snd sub))"
    unfolding remember_sub_handler_def by (rule emodify_paced) simp
  then show ?case
    by (simp only: fetch_collections.simps)
      (intro pacing.leaves_ebind pacing.leaves_eget pacing.leaves_eseq unless_unreachable_paced fetch_siblings_paced tick adder Cons)
qed (simp add: pacing.leaves_eret)

lemma fetch_subcomponents_paced:
  assumes tick: "ticks count env" and adder: "\<And>h p u. leaves (paced count) (adder h p u True)"
  shows "leaves (paced count) (fetch_subcomponents adder env h p cols)"
  unfolding fetch_subcomponents_def push_component_def pop_component_def on_context_def
  by (intro pacing.leaves_eseq pacing.leaves_ebind pacing.leaves_efor emodify_paced fetch_collections_paced tick adder
      leaves_shrinks_paced removal_shrinks remove_untouched_only_removes) auto

lemma add_paced: "ticks count env \<Longrightarrow> leaves (paced count) (add n env h p u recursively)"
proof (induction n arbitrary: h p u recursively)
  case (Suc n)
  then show ?case
    unfolding add.simps
    by (intro pacing.leaves_ebind pacing.leaves_eseq pacing.leaves_if pacing.leaves_eret fetch_paced fetch_subcomponents_paced) auto
qed (simp add: pacing.leaves_ethrow)

lemma handler_add_paced: "ticks count env \<Longrightarrow> leaves (paced count) (handler_add env h p u recursively)"
  unfolding handler_add_def root_add_def
  by (intro pacing.leaves_if pacing.leaves_eseq pacing.leaves_eret fetch_subcomponents_paced add_paced)

lemma with_context_paced:
  assumes "leaves (paced count) m"
  shows "leaves (paced count) (with_context c m)"
  unfolding leaves_def
proof
  fix s
  have "paced count (s\<lparr> rest_ctx := c \<rparr>) (snd (m (s\<lparr> rest_ctx := c \<rparr>)))"
    using assms by (simp add: leaves_def)
  then show "paced count s (snd (with_context c m s))"
    by (auto simp: with_context_def paced_def tables_ok_def split: prod.split)
qed

text \<open>
  C15: Polling an agent, or loading one of its resources, keeps every table in order: no two
  entries share an identifier, and no entry is stamped later than the epoch of its table.
  The number of calls made to the agent, on top of the epochs, must stay below \<open>2 ^ 64\<close>.
\<close>

theorem reading_keeps_tables:
  assumes "ticks count env" and "tables_ok s"
    and s': "s' = snd (poll env gami h parent component u s) \<or> s' = snd (handler_load env gami h parent component u recursively s)"
    and "\<forall>c. unat (m_current_epoch (rest_tables s c)) + (count (rest_world s') - count (rest_world s)) < 2 ^ 64"
  shows "tables_ok s'"
proof -
  have "leaves (paced count) (poll env gami h parent component u)"
    unfolding poll_def notify_events_def
    by (intro with_context_paced pacing.leaves_ecatch pacing.leaves_eseq pacing.leaves_ebind handler_add_paced assms(1)
        emodify_paced) (auto simp: notify_def)
  moreover have "leaves (paced count) (handler_load env gami h parent component u recursively)"
    unfolding handler_load_def do_load_def notify_events_def
    by (intro with_context_paced pacing.leaves_eseq pacing.leaves_ebind handler_add_paced assms(1)
        emodify_paced) (auto simp: notify_def)
  ultimately have "paced count s s'" using s' by (auto simp: leaves_def)
  with assms(2,4) show ?thesis by (simp add: paced_def)
qed

lemma sample_ticks: "ticks id (sample_env U)"
  by (simp add: ticks_def sample_env_def)

theorem reading_keeps_tables_witness:
  "tables_ok (snd (poll (sample_env {}) ''agent'' ''Drive'' ''c'' ''Chassis'' ''d'' sample))"
proof (rule reading_keeps_tables[where count = id, OF sample_ticks sample_ok(1) disjI1[OF refl]])
  have "rest_world (snd (poll (sample_env {}) ''agent'' ''Drive'' ''c'' ''Chassis'' ''d'' sample)) = 1" by code_simp
  then show "\<forall>c. unat (m_current_epoch (rest_tables sample c)) + (id (rest_world (snd (poll (sample_env {}) ''agent'' ''Drive'' ''c'' ''Chassis'' ''d'' sample)))
      - id (rest_world sample)) < 2 ^ 64"
    by (simp add: sample_def sample_state_def sample_tables_def sample_table_def)
qed

subsection \<open>What is left after the collections below a resource were read\<close>

definition reading :: "string \<Rightarrow> ('n, 'p, 'w) rest_state \<Rightarrow> bool" where
  "reading gami s \<longleftrightarrow> tables_ok s \<and> ctx_agent (rest_ctx s) = gami
     \<and> (ctx_mode (rest_ctx s) = POLLING \<or> ctx_mode (rest_ctx s) = LOADING)"

lemma reading_removed: "\<lbrakk>reading gami s; only_removes s s'\<rbrakk> \<Longrightarrow> reading gami s'"
  using tables_ok_removed[of s s'] by (auto simp: reading_def only_removes_def)

lemma in_table: "tables_ok s \<Longrightarrow> e \<in> set (m_manager_data (rest_tables s c)) \<longleftrightarrow> entry_at s c (m_temporary_uuid e) = Some e"
  using rest_inv_find[of "rest_tables s c" "m_temporary_uuid e" e] by (simp add: tables_ok_def)

lemma remove_untouched_returns:
  assumes run: "remove_untouched env h p epoch s = (Inr (), s')" and rd: "reading gami s"
    and e: "entry_at s' (handler_model h) v = Some e" "m_parent_uuid e = p" "m_agent_id e = gami"
  shows "was_touched_after epoch e"
proof (rule ccontr)
  assume untouched: "\<not> was_touched_after epoch e"
  let ?body = "\<lambda>u. eseq (do_remove (env_depth env) env h u) count_removed"
  let ?flt = "\<lambda>entry. m_agent_id entry = gami \<and> \<not> was_touched_after epoch entry"
  let ?keys = "get_keys_by_parent (rest_tables s (handler_model h)) p ?flt"
  have ok: "tables_ok s" using rd by (simp add: reading_def)
  have loop: "efor ?body ?keys s = (Inr (), s')" using run rd by (simp add: remove_untouched_def reading_def)
  have body: "leaves only_removes (?body u)" for u
    unfolding count_removed_def
    by (intro removals.leaves_eseq do_remove_only_removes removals.leaves_emodify) (simp add: only_removes_def)
  have step: "only_removes t t'" if "?body u t = (Inr (), t')" for u t t' using body that by (rule leavesD)
  have "entry_at s (handler_model h) v = Some e"
    by (rule entry_kept[OF ok leavesD[OF removals.leaves_efor loop] e(1)]) (rule body)
  then have "v \<in> set ?keys"
    using e untouched ok rest_keys[of "rest_tables s (handler_model h)"] by (auto simp: get_keys_by_parent_def tables_ok_def)
  with loop have "entry_at s' (handler_model h) v = None"
  proof (rule efor_establishes[where I = tables_ok])
    fix t t'
    assume "tables_ok t" "?body v t = (Inr (), t')"
    then obtain x where "do_remove (env_depth env) env h v t = (Inr (), x)" "rest_tables t' = rest_tables x"
      by (auto simp: count_removed_def elim!: eseq_InrE)
    with \<open>tables_ok t\<close> show "entry_at t' (handler_model h) v = None"
      using do_remove_own[of "env_depth env" env] unfolding removes_own_def by metis
  qed (use ok step in \<open>blast intro: tables_ok_removed entry_stays_gone\<close>)+
  with e(1) show False by simp
qed

text \<open>Entries below \<open>q\<close> in a table with a noted epoch are older than the epoch, or listed by now.\<close>

definition listed :: "(string \<Rightarrow> uuid list) \<Rightarrow> (string \<times> component) list \<Rightarrow> component \<Rightarrow> uuid \<Rightarrow> bool" where
  "listed listing subs c v \<longleftrightarrow> (\<exists>sub \<in> set subs. handler_model (snd sub) = c \<and> v \<in> set (listing (fst sub)))"

definition noted :: "uuid \<Rightarrow> (component \<Rightarrow> uuid \<Rightarrow> bool) \<Rightarrow> (component \<rightharpoonup> u64) \<Rightarrow> ('n, 'p, 'w) rest_state \<Rightarrow> bool" where
  "noted q P epochs s \<longleftrightarrow> (\<forall>c E e. epochs c = Some E \<longrightarrow> e \<in> set (m_manager_data (rest_tables s c)) \<longrightarrow> m_parent_uuid e = q
     \<longrightarrow> m_touched_at e \<le> E \<or> P c (get_uuid e))"

lemma noted_note_epoch:
  assumes "noted q P epochs s" "tables_ok s"
  shows "noted q P (note_epoch h epochs s) s"
  using assms unfolding noted_def note_epoch_def
  by (auto simp: get_manager_epoch_def tables_ok_def rest_inv_def split: if_splits)

lemma noted_stores:
  assumes "noted q P epochs s" "stores_only gami q P' s s'" "get_parent_component (rest_ctx s) \<noteq> ''None''" "ctx_agent (rest_ctx s) = gami"
    and "\<And>c v. P c v \<or> P' c v \<Longrightarrow> P'' c v"
  shows "noted q P'' epochs s'"
  using assms unfolding noted_def stores_only_def by metis

lemma unless_unreachable_InrE:
  assumes "unless_unreachable m s = (Inr (), t)"
  shows "\<exists>r. m s = (r, t)"
  using assms by (auto simp: unless_unreachable_def eff_simps split: prod.splits sum.splits if_splits)

lemma fetch_collections_noted:
  assumes run: "fetch_collections (add n env) env h q subs epochs s = (Inr ep, s')"
    and noted: "noted q (listed listing done) epochs s"
    and stack: "get_parent_component (rest_ctx s) \<noteq> ''None''" and agent: "ctx_agent (rest_ctx s) = gami"
    and ok: "tables_ok s" and tick: "ticks count env"
    and room: "\<forall>c. unat (m_current_epoch (rest_tables s c)) + (count (rest_world s') - count (rest_world s)) < 2 ^ 64"
    and subs: "\<forall>sub \<in> set subs. handler_component (snd sub) \<noteq> ''None''"
    and lists: "\<And>name w us. fst (env_call env gami (GetCollection q name) w) = Subcomponents us \<Longrightarrow> us = listing name"
    and within: "lists_within env gami Q" "q \<notin> Q" "\<And>name. set (listing name) \<subseteq> Q"
  shows "noted q (listed listing (done @ subs)) ep s' \<and> (\<forall>c E. epochs c = Some E \<longrightarrow> ep c = Some E)
    \<and> (\<forall>sub \<in> set subs. ep (handler_model (snd sub)) \<noteq> None)"
  using run noted stack agent ok room subs
proof (induction subs arbitrary: epochs s "done")
  case Nil
  then show ?case by simp
next
  case (Cons sub subs)
  let ?ep = "note_epoch (snd sub) epochs s"
  let ?P = "\<lambda>c v. handler_model (snd sub) = c \<and> v \<in> set (listing (fst sub))"
  let ?one = "eseq (fetch_siblings (add n env) env (snd sub) q (fst sub)) (remember_sub_handler h (snd sub))"
  from Cons.prems(1) obtain t where one: "unless_unreachable ?one s = (Inr (), t)"
    and rest: "fetch_collections (add n env) env h q subs ?ep t = (Inr ep, s')"
    by (auto elim!: eseq_InrE simp: ebind_apply eget_apply)
  have "leaves (stores_only gami q ?P) (fetch_siblings (add n env) env (snd sub) q (fst sub))"
    using Cons.prems(7) lists within(1,2) subsetD[OF within(3)[of "fst sub"]]
    by (intro fetch_siblings_stores[where U = "set (listing (fst sub))"] add_frame add_stores[where Q = Q]) auto
  then have "leaves (stores_only gami q ?P) ?one"
    unfolding remember_sub_handler_def by (intro storing.leaves_eseq storing.leaves_emodify same_stores) auto
  then have st: "stores_only gami q ?P s t" using unless_unreachable_stores one by (blast dest: leavesD)
  have "leaves (paced count) ?one"
    unfolding remember_sub_handler_def
    by (intro pacing.leaves_eseq fetch_siblings_paced emodify_paced tick add_paced) auto
  then have pt: "paced count s t" using unless_unreachable_paced one by (blast dest: leavesD)
  have "paced count t s'"
    by (rule leavesD[OF fetch_collections_paced rest]) (auto intro: tick add_paced)
  then have le: "count (rest_world s) \<le> count (rest_world t)" "count (rest_world t) \<le> count (rest_world s')"
    using pt by (simp_all add: paced_def)
  have okt: "tables_ok t" and roomt: "\<forall>c. unat (m_current_epoch (rest_tables t c)) + (count (rest_world s') - count (rest_world t)) < 2 ^ 64"
    using paced_room[OF pt le(2) Cons.prems(5,6)] by auto
  have notedt: "noted q (listed listing (done @ [sub])) ?ep t"
    by (rule noted_stores[OF noted_note_epoch[OF Cons.prems(2,5)] st Cons.prems(3,4)]) (auto simp: listed_def)
  have stackt: "get_parent_component (rest_ctx t) \<noteq> ''None''"
    using st Cons.prems(3) parent_component_pushed[of "rest_ctx t" _ "rest_ctx s"] unfolding stores_only_def by blast
  have agentt: "ctx_agent (rest_ctx t) = gami" using st Cons.prems(4) by (simp add: stores_only_def)
  from Cons.IH[OF rest notedt stackt agentt okt roomt] Cons.prems(7)
  have IH: "noted q (listed listing ((done @ [sub]) @ subs)) ep s' \<and> (\<forall>c E. ?ep c = Some E \<longrightarrow> ep c = Some E)
    \<and> (\<forall>sub \<in> set subs. ep (handler_model (snd sub)) \<noteq> None)" by simp
  have own: "\<exists>E. ?ep (handler_model (snd sub)) = Some E" and old: "epochs c = Some E \<Longrightarrow> ?ep c = Some E" for c E
    by (auto simp: note_epoch_def)
  with IH show ?case by auto
qed

lemma children_are_listed:
  assumes run: "fetch_subcomponents (add n env) env h q cols s = (Inr (), s')"
    and h: "handler_component h \<noteq> ''None''" and rd: "reading gami s" and tick: "ticks count env"
    and room: "\<forall>c. unat (m_current_epoch (rest_tables s c)) + (count (rest_world s') - count (rest_world s)) < 2 ^ 64"
    and lists: "\<forall>name w us. fst (env_call env gami (GetCollection q name) w) = Subcomponents us \<longrightarrow> us = listing name"
    and within: "lists_within env gami Q" "q \<notin> Q" "\<forall>name. set (listing name) \<subseteq> Q"
    and sub: "(name, k) \<in> set (sub_handlers cols)"
    and e: "find_entry (rest_tables s' (handler_model k)) v = Some e" "m_parent_uuid e = q" "m_agent_id e = gami"
  shows "\<exists>name' k'. (name', k') \<in> set (sub_handlers cols) \<and> handler_model k' = handler_model k \<and> v \<in> set (listing name')"
proof -
  let ?c = "handler_model k" and ?subs = "sub_handlers cols"
  let ?s = "s\<lparr> rest_ctx := (rest_ctx s)\<lparr> ctx_stack := handler_component h # ctx_stack (rest_ctx s) \<rparr> \<rparr>"
  obtain ep t x where fc: "fetch_collections (add n env) env h q ?subs Map.empty ?s = (Inr ep, t)"
    and loop: "efor (\<lambda>sub. remove_untouched env (snd sub) q (epoch_of ep (snd sub))) ?subs t = (Inr (), x)"
    and tabs: "rest_tables s' = rest_tables x" and world: "rest_world s' = rest_world x"
    using run unfolding fetch_subcomponents_def push_component_def pop_component_def on_context_def
    by (auto elim!: eseq_InrE ebind_InrE)
  have sub': "\<forall>sub \<in> set ?subs. handler_component (snd sub) \<noteq> ''None''" using sub_handlers_named by blast
  have rm: "leaves only_removes (remove_untouched env h' q E)" for h' E by (rule remove_untouched_only_removes)
  have tx: "only_removes t x" by (rule leavesD[OF removals.leaves_efor loop]) (rule rm)
  have worldt: "rest_world s' = rest_world t" using world tx by (simp add: only_removes_def)
  have pace: "paced count ?s t"
    by (rule leavesD[OF fetch_collections_paced fc]) (auto intro: tick add_paced)
  have frame: "call_frame ?s t"
    by (rule leavesD[OF fetch_collections_stores fc])
      (intro fetch_siblings_stores[where U = UNIV] add_frame, use sub' in auto)
  have okt: "tables_ok t"
    using paced_room[OF pace order_refl] rd room unfolding worldt by (simp add: reading_def tables_ok_def)
  have rdt: "reading gami t" using frame okt rd by (simp add: reading_def stores_only_def)
  have "noted q (listed listing ([] @ ?subs)) ep t \<and> (\<forall>c E. (Map.empty :: component \<rightharpoonup> u64) c = Some E \<longrightarrow> ep c = Some E)
    \<and> (\<forall>sub \<in> set ?subs. ep (handler_model (snd sub)) \<noteq> None)"
    by (rule fetch_collections_noted[OF fc _ _ _ _ tick _ sub' _ within(1,2)])
      (use rd room h lists within(3) in \<open>auto simp: noted_def reading_def tables_ok_def get_parent_component_def worldt\<close>)
  then obtain E where E: "ep ?c = Some E" and noted: "noted q (listed listing ?subs) ep t" using sub by fastforce
  have "\<forall>v e. entry_at x ?c v = Some e \<longrightarrow> m_parent_uuid e = q \<longrightarrow> m_agent_id e = gami \<longrightarrow> was_touched_after E e"
    using loop sub
  proof (rule efor_establishes[where I = "reading gami"])
    show "reading gami t" by (rule rdt)
    show "reading gami r'" if "reading gami r" "remove_untouched env (snd y) q (epoch_of ep (snd y)) r = (Inr (), r')" for y r r'
      using reading_removed[OF that(1) leavesD[OF rm that(2)]] .
    show "\<forall>v e. entry_at r' ?c v = Some e \<longrightarrow> m_parent_uuid e = q \<longrightarrow> m_agent_id e = gami \<longrightarrow> was_touched_after E e"
      if "reading gami r" "remove_untouched env (snd (name, k)) q (epoch_of ep (snd (name, k))) r = (Inr (), r')" for r r'
      using remove_untouched_returns[OF _ that(1)] that(2) E by (auto simp: epoch_of_def)
    show "\<forall>v e. entry_at r' ?c v = Some e \<longrightarrow> m_parent_uuid e = q \<longrightarrow> m_agent_id e = gami \<longrightarrow> was_touched_after E e"
      if "reading gami r" "\<forall>v e. entry_at r ?c v = Some e \<longrightarrow> m_parent_uuid e = q \<longrightarrow> m_agent_id e = gami \<longrightarrow> was_touched_after E e"
        "remove_untouched env (snd y) q (epoch_of ep (snd y)) r = (Inr (), r')" for y r r'
      using entry_kept[OF _ leavesD[OF rm that(3)]] that(1,2) unfolding reading_def by blast
  qed
  then have touched: "was_touched_after E e" using e tabs by simp
  have et: "entry_at t ?c v = Some e" using entry_kept[OF okt tx] e(1) tabs by simp
  then have tmp: "m_temporary_uuid e = v" "\<not> m_is_uuid_persistent e" "e \<in> set (m_manager_data (rest_tables t ?c))"
    using okt rest_inv_find[of "rest_tables t ?c" v e] by (auto simp: tables_ok_def rest_inv_def)
  have "\<not> m_touched_at e \<le> E" using touched by (simp add: was_touched_after_def)
  with noted E e(2) tmp(3) have "listed listing ?subs ?c (get_uuid e)" unfolding noted_def by blast
  then obtain y where "y \<in> set ?subs" "handler_model (snd y) = ?c" "v \<in> set (listing (fst y))"
    using tmp by (auto simp: listed_def get_uuid_def)
  then show ?thesis by (intro exI[of _ "fst y"] exI[of _ "snd y"]) simp
qed

text \<open>
  C1: Reading the collections below a resource, when it returns while polling or loading, leaves
  of the agent's resources below it only those the agent lists: every other one has been
  removed, together with everything below it. The agent must answer the same list for a
  collection throughout, must not list the resource below itself, and the epochs must not run
  over.
\<close>

theorem polled_children_listed:
  assumes run: "fetch_subcomponents (add n env) env h q cols s = (Inr (), s')"
    and h: "handler_component h \<noteq> ''None''" and rd: "reading gami s" and tick: "ticks count env"
    and room: "\<forall>c. unat (m_current_epoch (rest_tables s c)) + (count (rest_world s') - count (rest_world s)) < 2 ^ 64"
    and lists: "\<forall>name w us. fst (env_call env gami (GetCollection q name) w) = Subcomponents us \<longrightarrow> us = listing name"
    and within: "lists_within env gami Q" "q \<notin> Q" "\<forall>name. set (listing name) \<subseteq> Q"
    and sub: "(name, k) \<in> set (sub_handlers cols)"
    and e: "find_entry (rest_tables s' (handler_model k)) v = Some e" "m_parent_uuid e = q" "m_agent_id e = gami"
  shows "\<exists>name' k'. (name', k') \<in> set (sub_handlers cols) \<and> handler_model k' = handler_model k \<and> v \<in> set (listing name')"
  using assms by (rule children_are_listed)

text \<open>The chassis of the sample had the drives \<open>d\<close> and \<open>f\<close>; its agent now lists \<open>d\<close> and \<open>e\<close>.\<close>

theorem polled_children_listed_witness:
  "\<exists>name' k'. (name', k') \<in> set (sub_handlers [(''Drives'', ''Drives'')]) \<and> handler_model k' = handler_model ''Drive''
     \<and> ''d'' \<in> set (sample_listing ''c'' name')"
proof -
  let ?run = "fetch_subcomponents (add 3 (sample_env {})) (sample_env {}) ''Chassis'' ''c'' [(''Drives'', ''Drives'')] sample"
  have "case ?run of (r, x) \<Rightarrow> r = Inr () \<and> rest_world x = 3
      \<and> map_option (\<lambda>e. (m_parent_uuid e, m_agent_id e)) (find_entry (rest_tables x ''Drive'') ''d'') = Some (''c'', ''agent'')"
    by code_simp
  moreover obtain r x where rx: "?run = (r, x)" by (cases ?run)
  ultimately have run: "r = Inr ()" "rest_world x = 3"
    and "map_option (\<lambda>e. (m_parent_uuid e, m_agent_id e)) (find_entry (rest_tables x ''Drive'') ''d'') = Some (''c'', ''agent'')"
    by simp_all
  then obtain e where e: "find_entry (rest_tables x ''Drive'') ''d'' = Some e" "m_parent_uuid e = ''c''" "m_agent_id e = ''agent''"
    by auto
  show ?thesis
  proof (rule polled_children_listed[OF rx[unfolded run(1)] _ _ sample_ticks, where Q = "{''d'', ''e''}" and gami = "''agent''"])
    show "handler_component ''Chassis'' \<noteq> ''None''" by (simp add: handler_component_def handler_model_def)
    show "reading ''agent'' sample" using sample_ok(1) by (simp add: reading_def sample_def sample_state_def new_context_def)
    show "\<forall>c. unat (m_current_epoch (rest_tables sample c)) + (id (rest_world x) - id (rest_world sample)) < 2 ^ 64"
      using run(2) by (simp add: sample_def sample_state_def sample_tables_def sample_table_def)
    show "lists_within (sample_env {}) ''agent'' {''d'', ''e''}" by (simp add: lists_within_def sample_env_def sample_listing_def)
    show "\<forall>name. set (sample_listing ''c'' name) \<subseteq> {''d'', ''e''}" by (auto simp: sample_listing_def)
    show "(''Drives'', ''Drive'') \<in> set (sub_handlers [(''Drives'', ''Drives'')])" by (simp add: sub_handlers_def collection_handlers_def)
    show "find_entry (rest_tables x (handler_model ''Drive'')) ''d'' = Some e" using e(1) by (simp add: handler_model_def)
  qed (use e in \<open>simp_all add: sample_env_def sample_listing_def\<close>)
qed

end
