(* ===== verification/Handler_Failures.thy ===== *)
theory Handler_Failures
  imports Handler_Polling
begin

text \<open>
  How the handlers react to failures: a lost connection, an agent that cannot list a
  collection, events for unknown resources, and what is left behind.
\<close>

subsection \<open>A lost connection\<close>

text \<open>
  C23: When an agent does not answer, the call always throws. The first failure in a row is noted
  and nothing else changes; until a minute has passed nothing changes at all; after a minute
  the data of the agent is removed, and if that succeeds the agent is unregistered, exactly
  its resources and everything below them is gone, and the call throws \<open>AgentUnreachable\<close>. If it fails, the
  agent stays registered, and the call throws the exception of the removal instead.
\<close>

theorem lost_connection_outcome:
  fixes s :: "('n, 'p, 'w) rest_state"
  defines "gami \<equiv> ctx_agent (rest_ctx s)"
  assumes "wf_env env" "tables_ok s" "wf_subs s"
    and call: "env_call env gami req (rest_world s) = (ConnectorError, w)"
    and run: "execute env req s = (r, s')"
  shows "case connection_error_observed_at s gami of
      None \<Rightarrow> r = Inl (AgentUnreachable gami) \<and> rest_tables s' = rest_tables s \<and> rest_agents s' = rest_agents s
        \<and> connection_error_observed_at s' gami = Some (env_now env w)
    | Some observed_at \<Rightarrow>
        if (env_now env w - observed_at) sdiv 1000000000 < 60
        then r = Inl (AgentUnreachable gami) \<and> rest_tables s' = rest_tables s \<and> rest_agents s' = rest_agents s
        else (r = Inl (AgentUnreachable gami) \<and> gami \<notin> set (rest_agents s')
                \<and> (\<forall>c v. find_entry (rest_tables s' c) v = (if (c, v) \<in> agent_subtree s gami then None else find_entry (rest_tables s c) v)))
          \<or> (\<exists>x. fst (remove_agent_data env gami (s\<lparr> rest_world := w \<rparr>)) = Inl x \<and> r = Inl x \<and> rest_agents s' = rest_agents s)"
proof -
  let ?t = "s\<lparr> rest_world := w \<rparr>"
  obtain x q where remove: "remove_agent_data env gami ?t = (x, q)" by fastforce
  have ok: "tables_ok ?t" "wf_subs ?t" using assms(3,4) by (simp_all add: tables_ok_def wf_subs_def)
  have "below ?t = below s"
  proof (intro ext iffI)
    fix c u c' v
    show "below ?t c u c' v \<Longrightarrow> below s c u c' v" by (induction rule: below.induct) (auto intro: below.intros)
    show "below s c u c' v \<Longrightarrow> below ?t c u c' v" by (induction rule: below.induct) (auto intro: below.itself below.child)
  qed
  then have sub: "agent_subtree ?t gami = agent_subtree s gami" by (simp add: agent_subtree_def)
  have exact: "find_entry (rest_tables q c) v = (if (c, v) \<in> agent_subtree s gami then None else find_entry (rest_tables s c) v)"
    if "x = Inr ()" for c v
    using agent_data_removed[OF assms(2) ok, of gami q c v] remove that sub by simp
  have "only_removes ?t q" using remove_agent_data_only_removes remove by (rule leavesD)
  then have agents: "rest_agents q = rest_agents s" by (simp add: only_removes_def)
  show ?thesis
    using run call remove exact agents unfolding gami_def[symmetric]
    by (cases x) (auto simp: execute_def connection_failed_def set_observed_at_def agent_manager_remove_agent_def
        REMOVE_AGENT_AFTER_SECONDS_def gami_def[symmetric] Let_def eff_simps split: option.splits if_splits)
qed

lemma sample_wf_env: "wf_env (sample_env U)"
  by (simp add: wf_env_def sample_env_def component_handlers_def)

theorem lost_connection_outcome_witness:
  "fst (execute (sample_env {''d''}) (GetInfo ''Drive'' ''d'') sample) = Inl (AgentUnreachable ''agent'')
   \<and> connection_error_observed_at (snd (execute (sample_env {''d''}) (GetInfo ''Drive'' ''d'') sample)) ''agent'' = Some 1000000000"
proof -
  have ctx: "ctx_agent (rest_ctx sample) = ''agent''" "rest_world sample = 0" "connection_error_observed_at sample = (\<lambda>_. None)"
    by (simp_all add: sample_def sample_state_def new_context_def)
  have call: "env_call (sample_env {''d''}) (ctx_agent (rest_ctx sample)) (GetInfo ''Drive'' ''d'') (rest_world sample) = (ConnectorError, 1)"
    by (simp add: sample_env_def ctx)
  show ?thesis
    using lost_connection_outcome[OF sample_wf_env sample_ok call prod.collapse[symmetric]]
    by (simp add: ctx) (simp add: sample_env_def)
qed

subsection \<open>An agent that cannot list a collection\<close>

text \<open>
  C37: An error in the listing of a collection is taken for the removal of its members. When the
  agent keeps the connection but answers the request for every collection of one kind below a resource with an
  error, reading the collections below that resource, when it returns, leaves none of the agent's resources of this
  kind below it, whatever the other collections list. (All kinds but the ports of Ethernet
  switches have a single type of collection.) The conditions are those of \<open>polled_children_listed\<close>.
\<close>

theorem failed_listing_removes_children:
  assumes run: "fetch_subcomponents (add n env) env h q cols s = (Inr (), s')"
    and "handler_component h \<noteq> ''None''" and "reading gami s" and "ticks count env"
    and "\<forall>c. unat (m_current_epoch (rest_tables s c)) + (count (rest_world s') - count (rest_world s)) < 2 ^ 64"
    and lists: "\<forall>name w us. fst (env_call env gami (GetCollection q name) w) = Subcomponents us \<longrightarrow> us = listing name"
    and within: "lists_within env gami Q" "q \<notin> Q" "\<forall>name. set (listing name) \<subseteq> Q"
    and sub: "(name, k) \<in> set (sub_handlers cols)"
    and fails: "\<forall>name' k' w us. (name', k') \<in> set (sub_handlers cols) \<and> handler_model k' = handler_model k
      \<longrightarrow> fst (env_call env gami (GetCollection q name') w) \<noteq> Subcomponents us"
    and e: "find_entry (rest_tables s' (handler_model k)) v = Some e" "m_parent_uuid e = q"
  shows "m_agent_id e \<noteq> gami"
proof
  assume agent: "m_agent_id e = gami"
  let ?of_kind = "\<lambda>name'. \<exists>k'. (name', k') \<in> set (sub_handlers cols) \<and> handler_model k' = handler_model k"
  let ?listing = "\<lambda>name'. if ?of_kind name' then [] else listing name'"
  have lists': "\<forall>name w us. fst (env_call env gami (GetCollection q name) w) = Subcomponents us \<longrightarrow> us = ?listing name"
    using lists fails by auto
  have within': "\<forall>name. set (?listing name) \<subseteq> Q" using within(3) by auto
  obtain name' k' where "(name', k') \<in> set (sub_handlers cols)" "handler_model k' = handler_model k" "v \<in> set (?listing name')"
    using children_are_listed[OF assms(1-5) lists' within(1,2) within' sub e agent] by blast
  then show False by (auto split: if_splits)
qed

text \<open>An agent that fails to list drives and nothing else.\<close>

definition failing_env :: "(nat, unit, nat) rest_env" where
  "failing_env = (sample_env {})\<lparr> env_call := (\<lambda>gami req w.
     (if req = GetCollection ''c'' ''Drives'' then ServerFailure [] else sample_answer {} req, w + 1)) \<rparr>"

definition two_agents :: "(nat, unit, nat) rest_state" where
  "two_agents = sample_state (\<lambda>c. if c = ''Chassis'' then sample_table [sample_resource ''c'' ''Manager'' ''m'' 1 []]
     else if c = ''Drive'' then sample_table [sample_resource ''d'' ''Chassis'' ''c'' 1 [],
       (sample_resource ''g'' ''Chassis'' ''c'' 2 [])\<lparr> m_agent_id := ''other'' \<rparr>]
     else sample_table []) (\<lambda>_. [])"

theorem failed_listing_removes_children_witness:
  "\<exists>e. find_entry (rest_tables (snd (fetch_subcomponents (add 3 failing_env) failing_env ''Chassis'' ''c'' [(''Drives'', ''Drives''), (''Processors'', ''Processors'')] two_agents)) ''Drive'') ''g''
     = Some e \<and> m_agent_id e \<noteq> ''agent''"
proof -
  let ?run = "fetch_subcomponents (add 3 failing_env) failing_env ''Chassis'' ''c'' [(''Drives'', ''Drives''), (''Processors'', ''Processors'')] two_agents"
  have "case ?run of (r, x) \<Rightarrow> r = Inr () \<and> rest_world x = 2
      \<and> map_option m_parent_uuid (find_entry (rest_tables x ''Drive'') ''g'') = Some ''c''"
    by code_simp
  moreover obtain r x where rx: "?run = (r, x)" by (cases ?run)
  ultimately have run: "?run = (Inr (), x)" "rest_world x = 2"
    and "map_option m_parent_uuid (find_entry (rest_tables x ''Drive'') ''g'') = Some ''c''"
    by simp_all
  then obtain e where e: "find_entry (rest_tables x ''Drive'') ''g'' = Some e" "m_parent_uuid e = ''c''" by auto
  have handlers: "sub_handlers [(''Drives'', ''Drives''), (''Processors'', ''Processors'')] = [(''Drives'', ''Drive''), (''Processors'', ''Processor'')]"
    by (simp add: sub_handlers_def collection_handlers_def)
  have "m_agent_id e \<noteq> ''agent''"
  proof (rule failed_listing_removes_children[OF run(1), where count = id and name = "''Drives''" and k = "''Drive''" and Q = "{}" and listing = "\<lambda>_. []"])
    have "tables_ok two_agents"
      by (simp add: tables_ok_def rest_inv_def two_agents_def sample_state_def sample_table_def sample_resource_def)
    then show "reading ''agent'' two_agents" by (simp add: reading_def two_agents_def sample_state_def new_context_def)
    show "ticks id failing_env" by (simp add: ticks_def failing_env_def)
    show "\<forall>c. unat (m_current_epoch (rest_tables two_agents c)) + (id (rest_world x) - id (rest_world two_agents)) < 2 ^ 64"
      using run(2) by (simp add: two_agents_def sample_state_def sample_table_def)
    show "\<forall>name w us. fst (env_call failing_env ''agent'' (GetCollection ''c'' name) w) = Subcomponents us \<longrightarrow> us = []"
      by (simp add: failing_env_def sample_listing_def)
    show "find_entry (rest_tables x (handler_model ''Drive'')) ''g'' = Some e" using e(1) by (simp add: handler_model_def)
  qed (use e(2) in \<open>simp_all add: handlers handler_component_def handler_model_def failing_env_def lists_within_def\<close>)
  with run e show ?thesis by simp
qed

subsection \<open>Events for unknown resources\<close>

text \<open>A resource that is in no table: the removal of the single resource throws \<open>InvalidUuid\<close>, whatever the handler.\<close>

lemma missing_component_url:
  assumes "uuid_to_rest_id (tabs c) u = Inl e" and "get_entry (tabs c) u = Inl e"
  shows "component_url_case rec tabs c u path \<in> {Inl (ModelError e), Inl (UrlNotFound c)}"
proof -
  note rules = sbind_def lift_model_def build_parent_path_def
  consider (parent) literal where "map_of parent_literals c = Some literal"
    | (child) literal where "map_of parent_literals c = None" "map_of child_literals c = Some literal"
    | (member) name where "map_of parent_literals c = None" "map_of child_literals c = None" "map_of array_literals c = Some name"
    | (other) "map_of parent_literals c = None" "map_of child_literals c = None" "map_of array_literals c = None"
    by (cases "map_of parent_literals c"; cases "map_of child_literals c"; cases "map_of array_literals c") auto
  then show ?thesis
  proof cases
    case parent
    then show ?thesis using assms by (simp add: component_url_parent rules)
  next
    case child
    then show ?thesis using assms by (simp add: component_url_child rules)
  next
    case member
    then show ?thesis using assms by (simp add: component_url_array rules)
  next
    case other
    have either: "(P \<Longrightarrow> x \<in> S) \<Longrightarrow> (\<not> P \<Longrightarrow> y \<in> S) \<Longrightarrow> (if P then x else y) \<in> S"
      for P x y and S :: "(rest_exception + string) set"
      by simp
    show ?thesis
      unfolding component_url_case_def other option.case
      by (intro either; use assms in \<open>simp add: rules\<close>)
  qed
qed

lemma remove_single_absent:
  assumes "\<forall>x \<in> set (m_manager_data (rest_tables s (handler_model h))). \<not> any_uuid_matches u x" and "env_depth env > 0"
  shows "remove_single env h u s = (Inl (ModelError (InvalidUuid EntryNotFound u)), s)"
proof -
  obtain n where n: "env_depth env = Suc n" using assms(2) by (cases "env_depth env") auto
  let ?url = "get_component_url (Suc n) (rest_tables s) (handler_model h) u"
  note lookup = absent_lookup[of "rest_tables s (handler_model h)" u, OF assms(1)]
  have "?url = Inl (ModelError (InvalidUuid EntryNotFound u)) \<or> ?url = Inl (UrlNotFound (handler_model h))"
    using missing_component_url[of "rest_tables s" "handler_model h" u, OF lookup] by (simp add: get_component_url_def)
  with lookup(2) show ?thesis
    by (auto simp: remove_single_def add_event_def n eff_simps lift_model_def)
qed

text \<open>
  An event about the removal of a resource that the service does not know, and that has no
  children in the tables, is reported as not processed, although the handler has clauses that
  mean to ignore it: the exception thrown is \<open>InvalidUuid\<close>, and the clauses catch \<open>InvalidValue\<close> and \<open>NotFound\<close>.
  The tables do not change.
\<close>

theorem unknown_removal_reported_as_failure:
  assumes "ev_notification ev = Notification_Remove" and depth: "env_depth env > 0"
    and absent: "\<forall>x \<in> set (m_manager_data (rest_tables s (handler_model h))). \<not> any_uuid_matches (ev_component ev) x"
    and subs: "\<forall>c \<in> set (rest_subs s h). c \<in> set component_handlers \<and> child_keys c (ev_component ev) s = []"
  shows "fst (handle env gami h ev s) = Inr (False, []) \<and> rest_tables (snd (handle env gami h ev s)) = rest_tables s"
proof -
  let ?u = "ev_component ev" and ?c = "new_context EVENT gami [find_component (registered_tables env s) (ev_parent ev)]"
  let ?s = "s\<lparr> rest_ctx := ?c \<rparr>"
  obtain n where n: "env_depth env = Suc n" using depth by (cases "env_depth env") auto
  obtain l where l: "unlink h ?u ?s = (Inr (), ?s\<lparr> rest_links := l \<rparr>)" by (simp add: unlink_def)
  let ?t = "?s\<lparr> rest_links := l \<rparr>"
  have loop: "efor (remove_kind n env ?u) cs ?t = (Inr (), ?t)" if "set cs \<subseteq> set (rest_subs s h)" for cs
    using that
  proof (induction cs)
    case (Cons c cs)
    have "child_keys c ?u ?t = []" using subs Cons.prems by (simp add: child_keys_def)
    moreover have "get_handler c ?t = (Inr c, ?t)" using subs Cons.prems by (simp add: get_handler_def)
    ultimately have "remove_kind n env ?u c ?t = (Inr (), ?t)" by (simp add: remove_kind_def remove_all_def eff_simps)
    with Cons show ?case by (simp add: eff_simps)
  qed simp
  have "remove_single env h ?u ?t = (Inl (ModelError (InvalidUuid EntryNotFound ?u)), ?t)"
    by (rule remove_single_absent) (use absent depth in auto)
  with l loop[of "rest_subs s h"] have "do_remove (Suc n) env h ?u ?s = (Inl (ModelError (InvalidUuid EntryNotFound ?u)), ?t)"
    unfolding do_remove_Suc by (simp add: eff_simps)
  then have "handle env gami h ev s = (Inr (False, []), ?t\<lparr> rest_ctx := rest_ctx s \<rparr>)"
    using assms(1) by (simp add: handle_def with_context_def handle_remove_def n eff_simps)
  then show ?thesis by simp
qed

theorem unknown_removal_reported_as_failure_witness:
  "fst (handle (sample_env {}) ''agent'' ''Drive''
      \<lparr> ev_notification = Notification_Remove, ev_type = ''Drive'', ev_parent = ''c'', ev_component = ''z'' \<rparr> sample) = Inr (False, [])"
proof -
  let ?ev = "\<lparr> ev_notification = Notification_Remove, ev_type = ''Drive'', ev_parent = ''c'', ev_component = ''z'' \<rparr>"
  have "\<forall>x \<in> set (m_manager_data (rest_tables sample (handler_model ''Drive''))). \<not> any_uuid_matches (ev_component ?ev) x"
    by (simp add: sample_def sample_state_def sample_tables_def sample_table_def sample_resource_def handler_model_def
        any_uuid_matches_def uuid_matches_def)
  moreover have "rest_subs sample ''Drive'' = []" by (simp add: sample_def sample_state_def sample_subs_def)
  ultimately show ?thesis
    using unknown_removal_reported_as_failure[of ?ev "sample_env {}" sample "''Drive''" "''agent''"] by (simp add: sample_env_def)
qed

subsection \<open>An event whose processing is interrupted\<close>

text \<open>
  C39: When the connection fails while the collections below a new resource are read, the handler
  of the event removes the resource again. A kind of children is recorded only after a
  collection of it was read to the end, so if that has never happened below a resource of
  this kind, the removal does not reach the children stored before the failure: they stay in
  their tables without a parent.
\<close>

theorem interrupted_add_orphans:
  assumes ev: "ev_notification ev = Notification_Add" "\<not> entry_exists (rest_tables s (handler_model h)) (ev_component ev)"
    and interrupted: "handler_add env h (ev_parent ev) (ev_component ev) True
          (s\<lparr> rest_ctx := new_context EVENT gami [find_component (registered_tables env s) (ev_parent ev)] \<rparr>) = (Inl (AgentUnreachable gami), t)"
    and cleanup: "rest_subs t h = []" "do_remove (env_depth env) env h (ev_component ev) t = (Inr (), t')"
    and "tables_ok t" and "\<forall>x \<in> set (m_manager_data (rest_tables t (handler_model h))). m_persistent_uuid x \<noteq> ev_component ev"
    and child: "find_entry (rest_tables t c) v = Some e" "m_parent_uuid e = ev_component ev" "m_parent_type e = handler_model h"
      "c \<noteq> handler_model h" "led_over_parent c" "led_over_parent (handler_model h) \<or> map_of parent_literals (handler_model h) \<noteq> None"
  shows "fst (handle env gami h ev s) = Inr (False, []) \<and> orphan (snd (handle env gami h ev s)) c v e"
proof -
  let ?u = "ev_component ev"
  have result: "handle env gami h ev s = (Inr (False, []), t'\<lparr> rest_ctx := rest_ctx s \<rparr>)"
    using ev interrupted cleanup(2) by (simp add: handle_def with_context_def handle_add_def eff_simps)
  obtain n where "env_depth env = Suc n" using cleanup(2) by (cases "env_depth env") auto
  then have "eseq (unlink h ?u) (eseq (eret ()) (remove_single env h ?u)) t = (Inr (), t')"
    using cleanup unfolding do_remove_Suc by (simp add: eff_simps unlink_def)
  then obtain l where single: "remove_single env h ?u (t\<lparr> rest_links := l \<rparr>) = (Inr (), t')"
    by (auto simp: eff_simps unlink_def)
  have ok: "tables_ok (t\<lparr> rest_links := l \<rparr>)" using assms(6) by (simp add: tables_ok_def)
  have rem: "only_removes (t\<lparr> rest_links := l \<rparr>) t'" using remove_single_only_removes single by (rule leavesD)
  have ok': "tables_ok t'" using ok rem by (rule tables_ok_removed)
  have "entry_at t' c v = Some e" using remove_single_entries(1)[OF ok single, of c v] child(1,4) by simp
  moreover have "\<not> any_uuid_matches ?u x" if x: "x \<in> set (m_manager_data (rest_tables t' (handler_model h)))" for x
  proof -
    have "entry_at t' (handler_model h) ?u = None" using remove_single_entries(2)[OF ok single] by simp
    then have "m_temporary_uuid x \<noteq> ?u"
      using x ok' rest_inv_find_None[of "rest_tables t' (handler_model h)"] by (auto simp: tables_ok_def)
    moreover have "x \<in> set (m_manager_data (rest_tables t (handler_model h)))"
      using x only_removesD(2)[OF rem, of "handler_model h"] by (auto dest: list_emb_set)
    ultimately show ?thesis using assms(7) by (auto simp: any_uuid_matches_def)
  qed
  ultimately have "orphan t' c v e" using ok' child by (simp add: orphan_def)
  then show ?thesis by (simp add: result orphan_def tables_ok_def)
qed

definition chassis_added :: event_data where
  "chassis_added = \<lparr> ev_notification = Notification_Add, ev_type = ''Chassis'', ev_parent = ''m'', ev_component = ''c'' \<rparr>"

theorem interrupted_add_orphans_witness:
  "\<exists>e. orphan (snd (handle (sample_env {''e''}) ''agent'' ''Chassis'' chassis_added one_manager)) ''Drive'' ''d'' e"
proof -
  let ?env = "sample_env {''e''}"
  let ?s = "one_manager\<lparr> rest_ctx := new_context EVENT ''agent'' [find_component (registered_tables ?env one_manager) ''m''] \<rparr>"
  let ?run = "handler_add ?env ''Chassis'' ''m'' ''c'' True ?s"
  let ?clean = "do_remove 5 ?env ''Chassis'' ''c''"
  have "case ?run of (r, t) \<Rightarrow> r = Inl (AgentUnreachable ''agent'') \<and> rest_subs t ''Chassis'' = [] \<and> rest_world t = 4
      \<and> fst (?clean t) = Inr () \<and> list_all (\<lambda>x. m_persistent_uuid x \<noteq> ''c'') (m_manager_data (rest_tables t ''Chassis''))
      \<and> map_option (\<lambda>e. (m_parent_uuid e, m_parent_type e)) (find_entry (rest_tables t ''Drive'') ''d'') = Some (''c'', ''Chassis'')"
    by code_simp
  moreover obtain r t where rt: "?run = (r, t)" by (cases ?run)
  ultimately have run: "?run = (Inl (AgentUnreachable ''agent''), t)" "rest_subs t ''Chassis'' = []" "rest_world t = 4"
    "fst (?clean t) = Inr ()" "\<forall>x \<in> set (m_manager_data (rest_tables t ''Chassis'')). m_persistent_uuid x \<noteq> ''c''"
    and "map_option (\<lambda>e. (m_parent_uuid e, m_parent_type e)) (find_entry (rest_tables t ''Drive'') ''d'') = Some (''c'', ''Chassis'')"
    by (simp_all add: list_all_iff)
  then obtain e where e: "find_entry (rest_tables t ''Drive'') ''d'' = Some e" "m_parent_uuid e = ''c''" "m_parent_type e = ''Chassis''" by auto
  have "paced id ?s t" using handler_add_paced[OF sample_ticks] run(1) by (rule leavesD)
  then have "tables_ok t"
    using one_manager_ok(1) run(3)
    by (simp add: paced_def tables_ok_def one_manager_def sample_state_def sample_table_def)
  moreover have "\<not> entry_exists (rest_tables one_manager ''Chassis'') ''c''"
    by (simp add: entry_exists_def find_entry_def one_manager_def sample_state_def sample_table_def)
  moreover have "?clean t = (Inr (), snd (?clean t))" using run(4) by (metis prod.collapse)
  moreover have "env_depth ?env = 5" by (simp add: sample_env_def)
  ultimately have "orphan (snd (handle ?env ''agent'' ''Chassis'' chassis_added one_manager)) ''Drive'' ''d'' e"
    by (intro interrupted_add_orphans[where t = t and t' = "snd (?clean t)", THEN conjunct2])
      (use run(1,2,5) e in \<open>simp_all add: chassis_added_def handler_model_def led_over_parent_def child_literals_def parent_literals_def\<close>)
  then show ?thesis by blast
qed

subsection \<open>Links that are never cleared\<close>

definition keeps_functions :: "('n, 'p, 'w) rest_state \<Rightarrow> ('n, 'p, 'w) rest_state \<Rightarrow> bool" where
  "keeps_functions s s' \<longleftrightarrow> ctx_stack (rest_ctx s') = ctx_stack (rest_ctx s)
     \<and> (ctx_stack (rest_ctx s) = [] \<longrightarrow> rest_links s' ''processor_function'' = rest_links s ''processor_function'')"

interpretation functions_kept: effect_frame keeps_functions
  by unfold_locales (auto simp: keeps_functions_def)

lemma unlink_functions: "leaves keeps_functions (unlink h u)"
  by (simp add: leaves_def unlink_def keeps_functions_def handler_unlink_def get_parent_component_def pcie_function_unlink_def
      acl_unlink_def drive_unlink_def endpoint_unlink_def ethernet_switch_port_unlink_def port_unlink_def
      storage_service_unlink_def storage_subsystem_unlink_def volume_unlink_def zone_unlink_def on_links_def)

lemma remove_single_functions: "leaves keeps_functions (remove_single env h u)"
  unfolding remove_single_def leaves_def keeps_functions_def
  by (auto simp: eff_simps add_event_def record_event_def release_id_def on_table_def lift_model_def
      split: sum.split option.split prod.split)

lemma do_remove_functions: "leaves keeps_functions (do_remove n env h u)"
proof (induction n arbitrary: h u)
  case (Suc n)
  have "leaves keeps_functions (get_handler c)" for c by (simp add: get_handler_def)
  with Suc show ?case
    by (simp only: do_remove.simps) (intro functions_kept.leaves_eseq functions_kept.leaves_ebind functions_kept.leaves_efor
      unlink_functions remove_single_functions functions_kept.leaves_eget)
qed simp

lemma clean_links_other: "name \<notin> set names \<Longrightarrow> clean_links gami names l name = l name"
  unfolding clean_links_def by (induction names arbitrary: l) (auto simp: on_links_def)

text \<open>
  The links between processors and PCIe functions survive the removal of everything an agent
  reported: the handler of functions clears them only under a processor, and the removal of
  an agent's data runs without a parent.
\<close>

theorem processor_links_stay:
  "rest_links (snd (remove_agent_data env gami s)) ''processor_function'' = rest_links s ''processor_function''"
proof -
  have clean: "leaves keeps_functions (emodify (\<lambda>s. s\<lparr> rest_links := clean_links gami (f s) (rest_links s) \<rparr>))"
    if "\<And>s. ctx_stack (rest_ctx s) = [] \<Longrightarrow> ''processor_function'' \<notin> set (f s)" for f :: "('a, 'b, 'c) rest_state \<Rightarrow> string list"
    using that by (simp add: leaves_def keeps_functions_def clean_links_other)
  have "leaves keeps_functions (handler_remove_agent_data env gami h)" for h
    unfolding handler_remove_agent_data_def
    by (intro functions_kept.leaves_eseq functions_kept.leaves_ebind functions_kept.leaves_efor clean functions_kept.leaves_eget
        do_remove_functions) (auto simp: cleaned_before_def cleaned_after_def get_parent_component_def)
  then have "leaves keeps_functions (eseq (efor (handler_remove_agent_data env gami) (get_handlers env))
      (emodify (\<lambda>s. notify (ctx_events (rest_ctx s)) s)))"
    by (intro functions_kept.leaves_eseq functions_kept.leaves_efor functions_kept.leaves_emodify)
      (auto simp: keeps_functions_def notify_def)
  then have "keeps_functions (s\<lparr> rest_ctx := new_context AGENT_DISAPPEARED [] [] \<rparr>) (snd (eseq (efor (handler_remove_agent_data env gami) (get_handlers env))
      (emodify (\<lambda>s. notify (ctx_events (rest_ctx s)) s)) (s\<lparr> rest_ctx := new_context AGENT_DISAPPEARED [] [] \<rparr>)))"
    by (simp add: leaves_def)
  then show ?thesis
    by (auto simp: remove_agent_data_def with_context_def keeps_functions_def new_context_def split: prod.split)
qed

end
