(* ===== verification/Subscription_Model.thy ===== *)
theory Subscription_Model
  imports Rest_Model
begin

text \<open>
  Subscriptions for events (\<open>rest/eventing/model/subscription.cpp\<close>): which events one is for, and its
  JSON form, written for the database and read back from it and from requests.
\<close>

datatype subscription_protocol = Redfish

record subscription =
  sub_id :: u64
  sub_name :: string
  sub_destination :: string
  sub_context :: string
  sub_protocol :: subscription_protocol
  sub_event_types :: "event_type list"
  sub_origin_resources :: "string list"

definition is_subscribed_for :: "subscription \<Rightarrow> event \<Rightarrow> bool" where
  "is_subscribed_for sub e =
     (if fst e \<notin> set (sub_event_types sub) then False
      else if sub_origin_resources sub = [] then True
      else snd e \<in> set (sub_origin_resources sub))"

definition equal_subscriptions :: "subscription \<Rightarrow> subscription \<Rightarrow> bool" where
  "equal_subscriptions s1 s2 \<longleftrightarrow>
     sub_destination s1 = sub_destination s2 \<and> sub_context s1 = sub_context s2
     \<and> sub_event_types s1 = sub_event_types s2 \<and> sub_origin_resources s1 = sub_origin_resources s2
     \<and> sub_name s1 = sub_name s2 \<and> sub_protocol s1 = sub_protocol s2"

subsection \<open>Names of enumerators\<close>

text \<open>\<open>from_string\<close> compares C strings, which end at the first zero character.\<close>

definition c_str :: "string \<Rightarrow> string" where
  "c_str s = takeWhile (\<lambda>c. c \<noteq> CHR 0x00) s"

definition event_type_names :: "(string \<times> event_type) list" where
  "event_type_names =
     [(''Alert'', Alert), (''ResourceAdded'', ResourceAdded), (''ResourceRemoved'', ResourceRemoved),
      (''ResourceUpdated'', ResourceUpdated), (''StatusChange'', StatusChange)]"

fun event_type_to_string :: "event_type \<Rightarrow> string" where
  "event_type_to_string Alert = ''Alert''"
| "event_type_to_string ResourceAdded = ''ResourceAdded''"
| "event_type_to_string ResourceRemoved = ''ResourceRemoved''"
| "event_type_to_string ResourceUpdated = ''ResourceUpdated''"
| "event_type_to_string StatusChange = ''StatusChange''"

subsection \<open>The JSON form\<close>

text \<open>
  What reading a document can end with: an exception of the JSON library or of an
  enumeration, the exception for an unknown address, and the access to a member that a constant
  object does not have, which the library leaves undefined.
\<close>

datatype json_failure = JsonThrows | InvalidOrigin string | NoSuchMember

type_synonym 'a read = "json_failure + 'a"

definition rbind :: "'a read \<Rightarrow> ('a \<Rightarrow> 'b read) \<Rightarrow> 'b read" where
  "rbind r f = (case r of Inl e \<Rightarrow> Inl e | Inr a \<Rightarrow> f a)"

fun rmap :: "('a \<Rightarrow> 'b read) \<Rightarrow> 'a list \<Rightarrow> 'b list read" where
  "rmap f [] = Inr []"
| "rmap f (x # xs) = rbind (f x) (\<lambda>y. rbind (rmap f xs) (\<lambda>ys. Inr (y # ys)))"

fun json_at :: "string \<Rightarrow> json \<Rightarrow> json read" where
  "json_at k (JObject ms) = (case map_of ms k of Some j \<Rightarrow> Inr j | None \<Rightarrow> Inl NoSuchMember)"
| "json_at k _ = Inl JsonThrows"

fun get_string :: "json \<Rightarrow> string read" where
  "get_string (JString s) = Inr s"
| "get_string _ = Inl JsonThrows"

text \<open>What a loop over a document visits.\<close>

fun json_elements :: "json \<Rightarrow> json list" where
  "json_elements (JArray js) = js"
| "json_elements (JObject ms) = map snd ms"
| "json_elements JNull = []"
| "json_elements j = [j]"

definition event_type_from_string :: "string \<Rightarrow> event_type read" where
  "event_type_from_string s = (case map_of event_type_names (c_str s) of Some t \<Rightarrow> Inr t | None \<Rightarrow> Inl JsonThrows)"

definition protocol_from_string :: "string \<Rightarrow> subscription_protocol read" where
  "protocol_from_string s = (if c_str s = ''Redfish'' then Inr Redfish else Inl JsonThrows)"

text \<open>The members in the order of their keys.\<close>

definition subscription_to_json :: "subscription \<Rightarrow> json" where
  "subscription_to_json sub = JObject
     [(''Context'', JString (sub_context sub)),
      (''Destination'', JString (sub_destination sub)),
      (''EventTypes'', JArray (map (\<lambda>t. JString (event_type_to_string t)) (sub_event_types sub))),
      (''Name'', JString (sub_name sub)),
      (''OriginResources'', JArray (map (\<lambda>r. JObject [(''@odata.id'', JString r)]) (sub_origin_resources sub))),
      (''Protocol'', JString (case sub_protocol sub of Redfish \<Rightarrow> ''Redfish''))]"

definition origin_from_json :: "(string \<Rightarrow> bool) \<Rightarrow> bool \<Rightarrow> json \<Rightarrow> string read" where
  "origin_from_json is_correct_endpoint_url validate_origin_resources j =
     rbind (rbind (json_at ''@odata.id'' j) get_string) (\<lambda>url.
       if validate_origin_resources \<and> \<not> is_correct_endpoint_url url then Inl (InvalidOrigin url) else Inr url)"

definition subscription_from_json :: "(string \<Rightarrow> bool) \<Rightarrow> bool \<Rightarrow> json \<Rightarrow> subscription read" where
  "subscription_from_json is_correct_endpoint_url validate_origin_resources j =
     rbind (rbind (json_at ''Name'' j) get_string) (\<lambda>name.
     rbind (rbind (json_at ''Destination'' j) get_string) (\<lambda>destination.
     rbind (rbind (json_at ''Context'' j) get_string) (\<lambda>ctx.
     rbind (rbind (json_at ''Protocol'' j) get_string) (\<lambda>protocol.
     rbind (rbind (json_at ''EventTypes'' j) (\<lambda>ts. rmap (\<lambda>t. rbind (get_string t) event_type_from_string) (json_elements ts))) (\<lambda>event_types.
     rbind (protocol_from_string protocol) (\<lambda>p.
     rbind (case json_member j ''OriginResources'' of
              None \<Rightarrow> Inr []
            | Some JNull \<Rightarrow> Inr []
            | Some rs \<Rightarrow> rmap (origin_from_json is_correct_endpoint_url validate_origin_resources) (json_elements rs)) (\<lambda>origins.
     Inr \<lparr> sub_id = 0, sub_name = name, sub_destination = destination, sub_context = ctx, sub_protocol = p,
           sub_event_types = event_types, sub_origin_resources = origins \<rparr>)))))))"

subsection \<open>Reading what was written\<close>

lemma rbind_simps [simp]: "rbind (Inr a) f = f a" "rbind (Inl e) f = Inl e"
  by (simp_all add: rbind_def)

lemma rmap_map: "(\<And>x. x \<in> set xs \<Longrightarrow> f (g x) = Inr x) \<Longrightarrow> rmap f (map g xs) = Inr xs"
  by (induction xs) simp_all

lemma event_type_back [simp]: "event_type_from_string (event_type_to_string t) = Inr t"
  by (cases t) (simp_all add: event_type_from_string_def event_type_names_def c_str_def)

lemma protocol_back [simp]: "protocol_from_string (case p of Redfish \<Rightarrow> ''Redfish'') = Inr Redfish"
  by (cases p) (simp add: protocol_from_string_def c_str_def)

lemma subscription_json_back:
  assumes "validate \<Longrightarrow> \<forall>r \<in> set (sub_origin_resources sub). is_correct r"
  shows "subscription_from_json is_correct validate (subscription_to_json sub) = Inr (sub\<lparr> sub_id := 0 \<rparr>)"
proof -
  have origins: "rmap (origin_from_json is_correct validate) (map (\<lambda>r. JObject [(''@odata.id'', JString r)]) (sub_origin_resources sub))
      = Inr (sub_origin_resources sub)"
    using assms by (intro rmap_map) (auto simp: origin_from_json_def)
  have types: "rmap (\<lambda>t. rbind (get_string t) event_type_from_string) (map (\<lambda>t. JString (event_type_to_string t)) (sub_event_types sub))
      = Inr (sub_event_types sub)"
    by (intro rmap_map) simp
  have "sub_protocol sub = Redfish" by (cases "sub_protocol sub") simp
  then show ?thesis using origins types by (simp add: subscription_from_json_def subscription_to_json_def protocol_from_string_def c_str_def)
qed

text \<open>Subscriptions that count as equal differ in their number only, and match the same events.\<close>

lemma equal_subscriptions_iff: "equal_subscriptions s1 s2 \<longleftrightarrow> s1\<lparr> sub_id := i \<rparr> = s2\<lparr> sub_id := i \<rparr>"
  by (cases s1; cases s2) (auto simp: equal_subscriptions_def)

end
