(* ===== verification/Rest_Watcher.thy ===== *)
theory Rest_Watcher
  imports Rest_Example "HOL-Library.Multiset"
begin

text \<open>
  The thread that drives the REST service (\<open>watcher.cpp\<close>): periodic tasks wait in a vector that
  is kept in the order of their next run, the last one being the next to run, and when no
  task is due the thread takes a notification of an agent from the queue of events. Times
  of the steady clock are in nanoseconds.
\<close>

subsection \<open>Tasks and their registrations\<close>

datatype watcher_task = PollingTask int | RetentionPolicyTask int int

primrec get_interval :: "watcher_task \<Rightarrow> int" where
  "get_interval (PollingTask interval) = interval"
| "get_interval (RetentionPolicyTask interval outdated) = interval"

definition polling_task :: "u16 option \<Rightarrow> watcher_task" where
  "polling_task poll_interval_sec = PollingTask (case poll_interval_sec of Some i \<Rightarrow> uint i | None \<Rightarrow> 0)"

definition DEFAULT_INTERVAL_SECONDS :: int where
  "DEFAULT_INTERVAL_SECONDS = 0"

definition DEFAULT_OUTDATED_HOURS :: int where
  "DEFAULT_OUTDATED_HOURS = 24"

definition retention_policy_task :: "u32 option \<Rightarrow> u32 option \<Rightarrow> watcher_task" where
  "retention_policy_task interval_value outdated_value =
     RetentionPolicyTask
       (case interval_value of Some i \<Rightarrow> uint i | None \<Rightarrow> DEFAULT_INTERVAL_SECONDS)
       (case outdated_value of Some i \<Rightarrow> uint i | None \<Rightarrow> DEFAULT_OUTDATED_HOURS * 3600)"

definition on_files :: "(files \<Rightarrow> nat \<times> files) \<Rightarrow> ('n, 'p, 'w) rest_state \<Rightarrow> ('n, 'p, 'w) rest_state" where
  "on_files f s = s\<lparr> rest_ids := (rest_ids s)\<lparr> id_files := snd (f (id_files (rest_ids s))) \<rparr> \<rparr>"

primrec task_started :: "('n, 'p, 'w) rest_env \<Rightarrow> watcher_task \<Rightarrow> ('n, 'p, 'w) rest_state \<Rightarrow> ('n, 'p, 'w) rest_state" where
  "task_started env (PollingTask interval) s = s"
| "task_started env (RetentionPolicyTask interval outdated) s =
     on_files (invalidate_all (env_clock env (rest_world s)) (env_location env) outdated) s"

primrec task_stopped :: "('n, 'p, 'w) rest_env \<Rightarrow> watcher_task \<Rightarrow> ('n, 'p, 'w) rest_state \<Rightarrow> ('n, 'p, 'w) rest_state" where
  "task_stopped env (PollingTask interval) s = s"
| "task_stopped env (RetentionPolicyTask interval outdated) s =
     (if interval \<noteq> 0 then on_files (invalidate_all (env_clock env (rest_world s)) (env_location env) outdated) s else s)"

text \<open>A run of a task ends, fails with an exception, which the watcher only logs, or asks to be removed.\<close>

datatype run_result = Completed | Failed | StopWatching

primrec task_execute :: "('n, 'p, 'w) rest_env \<Rightarrow> (string \<Rightarrow> bool) \<Rightarrow> watcher_task \<Rightarrow> ('n, 'p, 'w, run_result) rest_eff" where
  "task_execute env busy (PollingTask interval) =
     ecatch (eseq (polling_execute env busy) (eret Completed))
       (\<lambda>e. if is_exception e then eret Failed else ethrow e)"
| "task_execute env busy (RetentionPolicyTask interval outdated) =
     (if interval = 0 then eret StopWatching
      else eseq (emodify (\<lambda>s. on_files (remove_outdated (env_clock env (rest_world s)) (env_location env) outdated) s))
             (eret Completed))"

record registration =
  reg_task :: watcher_task
  next_run :: int
  executed :: u32

record ('n, 'p, 'w) watcher =
  added_tasks :: "registration list"
  m_running :: bool
  service :: "('n, 'p, 'w) rest_state"

definition seconds :: "int \<Rightarrow> int" where
  "seconds n = n * 1000000000"

fun watcher_insert :: "registration \<Rightarrow> registration list \<Rightarrow> registration list" where
  "watcher_insert reg [] = [reg]"
| "watcher_insert reg (r # rs) = (if next_run r \<le> next_run reg then reg # r # rs else r # watcher_insert reg rs)"

definition add_task :: "('n, 'p, 'w) rest_env \<Rightarrow> int \<Rightarrow> watcher_task \<Rightarrow> ('n, 'p, 'w) watcher \<Rightarrow> ('n, 'p, 'w) watcher" where
  "add_task env now t w =
     w\<lparr> service := (if m_running w then task_started env t (service w) else service w),
        added_tasks := watcher_insert \<lparr> reg_task = t, next_run = now + seconds (get_interval t), executed = 0 \<rparr> (added_tasks w) \<rparr>"

subsection \<open>The thread\<close>

text \<open>
  What a round of the loop meets: the time, the agents that are in another transaction, the
  notification found in the queue within a second, and whether the watcher still runs then.
\<close>

record watch_input =
  round_now :: int
  round_busy :: "string \<Rightarrow> bool"
  round_notification :: "(string \<times> event_data list) option"
  round_running :: bool

definition task_due :: "watch_input \<Rightarrow> ('n, 'p, 'w) watcher \<Rightarrow> bool" where
  "task_due inp w \<longleftrightarrow> added_tasks w \<noteq> [] \<and> next_run (List.last (added_tasks w)) \<le> round_now inp"

definition next_registration :: "registration \<Rightarrow> registration" where
  "next_registration r = r\<lparr> next_run := next_run r + seconds (get_interval (reg_task r)), executed := executed r + 1 \<rparr>"

definition run_task :: "('n, 'p, 'w) rest_env \<Rightarrow> watch_input \<Rightarrow> (('n, 'p, 'w) watcher, rest_exception, unit) eff" where
  "run_task env inp w =
     (let found = next_registration (List.last (added_tasks w)); others = butlast (added_tasks w)
      in case task_execute env (round_busy inp) (reg_task found) (service w) of
           (Inl e, s) \<Rightarrow> (Inl e, w\<lparr> added_tasks := others, service := s \<rparr>)
         | (Inr StopWatching, s) \<Rightarrow> (Inr (), w\<lparr> added_tasks := others, service := task_stopped env (reg_task found) s \<rparr>)
         | (Inr _, s) \<Rightarrow> (Inr (), w\<lparr> added_tasks := watcher_insert found others, service := s \<rparr>))"

definition take_notification :: "('n, 'p, 'w) rest_env \<Rightarrow> watch_input \<Rightarrow> (('n, 'p, 'w) watcher, rest_exception, unit) eff" where
  "take_notification env inp w =
     (case round_notification inp of
        None \<Rightarrow> (Inr (), w)
      | Some (gami, notifications) \<Rightarrow>
          if round_running inp
          then (case process_notification env (round_busy inp gami) gami notifications (service w) of
                  (r, s) \<Rightarrow> (r, w\<lparr> service := s \<rparr>))
          else (Inr (), w))"

definition watch_round :: "('n, 'p, 'w) rest_env \<Rightarrow> watch_input \<Rightarrow> (('n, 'p, 'w) watcher, rest_exception, unit) eff" where
  "watch_round env inp w = (if task_due inp w then run_task env inp w else take_notification env inp w)"

text \<open>
  The start of the thread, with the time read for each task. The order of tasks with the same
  time is not fixed by \<open>std::sort\<close>; here they keep their order, as with the two tasks of the service.
\<close>

definition watch_start :: "('n, 'p, 'w) rest_env \<Rightarrow> (nat \<Rightarrow> int) \<Rightarrow> ('n, 'p, 'w) watcher \<Rightarrow> ('n, 'p, 'w) watcher" where
  "watch_start env clock w =
     w\<lparr> service := fold (\<lambda>r. task_started env (reg_task r)) (added_tasks w) (service w),
        added_tasks := sort_key (\<lambda>r. - next_run r)
          (map (\<lambda>(i, r). r\<lparr> next_run := clock i + seconds (get_interval (reg_task r)) \<rparr>) (enumerate 0 (added_tasks w))) \<rparr>"

definition watch_stop :: "('n, 'p, 'w) rest_env \<Rightarrow> ('n, 'p, 'w) watcher \<Rightarrow> ('n, 'p, 'w) watcher" where
  "watch_stop env w = w\<lparr> service := fold (\<lambda>r. task_stopped env (reg_task r)) (added_tasks w) (service w) \<rparr>"

text \<open>The loop runs one round per input, until the watcher is stopped.\<close>

definition watch_loop :: "('n, 'p, 'w) rest_env \<Rightarrow> watch_input list \<Rightarrow> (('n, 'p, 'w) watcher, rest_exception, unit) eff" where
  "watch_loop env inputs = efor (watch_round env) inputs"

definition watch :: "('n, 'p, 'w) rest_env \<Rightarrow> (nat \<Rightarrow> int) \<Rightarrow> watch_input list \<Rightarrow> (('n, 'p, 'w) watcher, rest_exception, unit) eff" where
  "watch env clock inputs =
     eseq (emodify (watch_start env clock)) (eseq (watch_loop env inputs) (emodify (watch_stop env)))"

definition watcher_create :: "('n, 'p, 'w) rest_env \<Rightarrow> int \<Rightarrow> int \<Rightarrow> u16 option \<Rightarrow> u32 option \<Rightarrow> u32 option \<Rightarrow> ('n, 'p, 'w) rest_state \<Rightarrow> ('n, 'p, 'w) watcher" where
  "watcher_create env created_at then_at poll_interval_sec interval_value outdated_value s =
     add_task env then_at (retention_policy_task interval_value outdated_value)
       (add_task env created_at (polling_task poll_interval_sec) \<lparr> added_tasks = [], m_running = False, service = s \<rparr>)"

subsection \<open>A queue of things due\<close>

text \<open>
  What the loop relies on: the first element is due before or with the others, and entering
  and leaving change the contents by one element and keep the order.
\<close>

locale run_queue =
  fixes ordered :: "'q \<Rightarrow> bool" and elements :: "'q \<Rightarrow> 'r multiset" and due_at :: "'r \<Rightarrow> int"
    and enter :: "'r \<Rightarrow> 'q \<Rightarrow> 'q" and first :: "'q \<Rightarrow> 'r" and leave :: "'q \<Rightarrow> 'q"
  assumes ordered_enter: "ordered q \<Longrightarrow> ordered (enter r q)"
    and elements_enter: "elements (enter r q) = add_mset r (elements q)"
    and ordered_leave: "\<lbrakk>ordered q; elements q \<noteq> {#}\<rbrakk> \<Longrightarrow> ordered (leave q)"
    and elements_leave: "elements q \<noteq> {#} \<Longrightarrow> elements q = add_mset (first q) (elements (leave q))"
    and first_least: "\<lbrakk>ordered q; r \<in># elements q\<rbrakk> \<Longrightarrow> due_at (first q) \<le> due_at r"
begin

text \<open>
  The number of turns the elements of a queue have until a time, when each comes back after its
  period. An element that has its turn and comes back takes one turn away.
\<close>

definition turns_left :: "('r \<Rightarrow> int) \<Rightarrow> int \<Rightarrow> 'q \<Rightarrow> nat" where
  "turns_left period t q = (\<Sum>r \<in># elements q. nat ((t - due_at r) div period r + 1))"

lemma turn_taken:
  assumes "elements q \<noteq> {#}" and "due_at (first q) \<le> t" and "period (first q) > 0"
    and "due_at r = due_at (first q) + period (first q)" and "period r = period (first q)"
  shows "turns_left period t q = Suc (turns_left period t (enter r (leave q)))"
proof -
  let ?d = "t - due_at (first q)" and ?p = "period (first q)"
  have "t - due_at r = ?d + ?p * (-1)" using assms(4) by simp
  moreover have "(?d + ?p * (-1)) div ?p = -1 + ?d div ?p" by (rule div_mult_self2) (use assms(3) in simp)
  ultimately have "(t - due_at r) div ?p = -1 + ?d div ?p" by (simp only:)
  moreover have "?d div ?p \<ge> 0" using assms(2,3) by (simp add: pos_imp_zdiv_nonneg_iff)
  ultimately have "nat (?d div ?p + 1) = Suc (nat ((t - due_at r) div period r + 1))" using assms(5) by simp
  moreover have "turns_left period t q = nat (?d div ?p + 1) + (\<Sum>r \<in># elements (leave q). nat ((t - due_at r) div period r + 1))"
    unfolding turns_left_def by (subst elements_leave[OF assms(1)]) simp
  ultimately show ?thesis by (simp add: turns_left_def elements_enter)
qed

lemma turn_given_up:
  assumes "elements q \<noteq> {#}" and "due_at (first q) \<le> t" and "period (first q) > 0"
  shows "turns_left period t q > turns_left period t (leave q)"
proof -
  have "(t - due_at (first q)) div period (first q) \<ge> 0" using assms(2,3) by (simp add: pos_imp_zdiv_nonneg_iff)
  moreover have "turns_left period t q = nat ((t - due_at (first q)) div period (first q) + 1) + turns_left period t (leave q)"
    unfolding turns_left_def by (subst elements_leave[OF assms(1)]) simp
  ultimately show ?thesis by simp
qed

end

definition queue_ordered :: "registration list \<Rightarrow> bool" where
  "queue_ordered rs \<longleftrightarrow> sorted_wrt (\<lambda>a b. next_run a \<ge> next_run b) rs"

lemma set_watcher_insert: "set (watcher_insert r rs) = insert r (set rs)"
  by (induction rs) auto

lemma mset_watcher_insert: "mset (watcher_insert r rs) = add_mset r (mset rs)"
  by (induction rs) auto

lemma watcher_insert_ordered: "queue_ordered rs \<Longrightarrow> queue_ordered (watcher_insert r rs)"
  unfolding queue_ordered_def by (induction rs) (auto simp: set_watcher_insert)

interpretation registrations: run_queue queue_ordered mset next_run watcher_insert List.last butlast
proof
  fix rs :: "registration list" and r
  show "queue_ordered rs \<Longrightarrow> queue_ordered (watcher_insert r rs)" by (rule watcher_insert_ordered)
  show "mset (watcher_insert r rs) = add_mset r (mset rs)" by (rule mset_watcher_insert)
  assume "queue_ordered rs" "mset rs \<noteq> {#}"
  then show "queue_ordered (butlast rs)"
    by (metis append_butlast_last_id mset_zero_iff queue_ordered_def sorted_wrt_append)
next
  fix rs :: "registration list"
  assume "mset rs \<noteq> {#}"
  then have "rs = butlast rs @ [List.last rs]" by simp
  then show "mset rs = add_mset (List.last rs) (mset (butlast rs))" by (metis mset.simps mset_append add.right_neutral add_mset_add_single)
next
  fix rs :: "registration list" and r
  assume "queue_ordered rs" "r \<in># mset rs"
  then show "next_run (List.last rs) \<le> next_run r"
    unfolding queue_ordered_def by (induction rs) auto
qed

subsection \<open>The order of the tasks\<close>

lemma retention_stops:
  "task_execute env busy t s = (Inr StopWatching, s') \<Longrightarrow> (\<exists>outdated. t = RetentionPolicyTask 0 outdated) \<and> s' = s"
  by (cases t) (auto simp: eff_simps split: prod.splits sum.splits if_splits)

lemma run_task_cases:
  assumes "run_task env inp w = (Inr (), w')" and "added_tasks w \<noteq> []"
  obtains (again) "added_tasks w' = watcher_insert (next_registration (List.last (added_tasks w))) (butlast (added_tasks w))"
    | (removed) outdated where "reg_task (List.last (added_tasks w)) = RetentionPolicyTask 0 outdated"
      "added_tasks w' = butlast (added_tasks w)"
  using assms unfolding run_task_def
  by (auto simp: Let_def next_registration_def split: prod.splits sum.splits run_result.splits dest!: retention_stops)

lemma take_notification_tasks: "added_tasks (snd (take_notification env inp w)) = added_tasks w"
  by (auto simp: take_notification_def split: option.split prod.split)

lemma removed_last: "added_tasks w \<noteq> [] \<Longrightarrow> mset (map reg_task (added_tasks w))
    = add_mset (reg_task (List.last (added_tasks w))) (mset (map reg_task (butlast (added_tasks w))))"
  using registrations.elements_leave[of "added_tasks w"] by (metis image_mset_add_mset mset_map mset_zero_iff)

lemma started_tasks:
  "map reg_task (map (\<lambda>(i, r). r\<lparr> next_run := clock i + seconds (get_interval (reg_task r)) \<rparr>) (enumerate n rs)) = map reg_task rs"
  by (induction rs arbitrary: n) auto

text \<open>
  C19: The watcher keeps its tasks: they are in the order of their next run from the start of the
  thread on and after every round, whatever the round does. A round loses no task, except
  the task of the retention policy when no interval is configured, which asks to be removed.
  A task added in between keeps the order as well.
\<close>

theorem watcher_keeps_tasks:
  "queue_ordered (added_tasks (watch_start env clock w))
   \<and> mset (map reg_task (added_tasks (watch_start env clock w))) = mset (map reg_task (added_tasks w))
   \<and> (queue_ordered (added_tasks w) \<longrightarrow>
        queue_ordered (added_tasks (add_task env now t w))
        \<and> (\<forall>w'. watch_round env inp w = (Inr (), w') \<longrightarrow> queue_ordered (added_tasks w')
            \<and> (mset (map reg_task (added_tasks w')) = mset (map reg_task (added_tasks w))
               \<or> (\<exists>outdated. mset (map reg_task (added_tasks w)) = add_mset (RetentionPolicyTask 0 outdated) (mset (map reg_task (added_tasks w')))))))"
proof (intro conjI impI allI)
  show "queue_ordered (added_tasks (watch_start env clock w))"
  proof -
    have "sorted_wrt (\<lambda>a b. - next_run a \<le> - next_run b) (sort_key (\<lambda>r. - next_run r) rs)" for rs
      using sorted_sort_key[of "\<lambda>r. - next_run r" rs] by (simp add: sorted_wrt_map)
    then show ?thesis by (simp add: watch_start_def queue_ordered_def)
  qed
  show "mset (map reg_task (added_tasks (watch_start env clock w))) = mset (map reg_task (added_tasks w))"
    using started_tasks[of clock 0 "added_tasks w"] by (simp add: watch_start_def del: map_map) (metis mset_map)
  assume ordered: "queue_ordered (added_tasks w)"
  then show "queue_ordered (added_tasks (add_task env now t w))" by (simp add: add_task_def watcher_insert_ordered)
  fix w'
  assume round: "watch_round env inp w = (Inr (), w')"
  have "queue_ordered (added_tasks w') \<and> (mset (map reg_task (added_tasks w')) = mset (map reg_task (added_tasks w))
      \<or> (\<exists>outdated. mset (map reg_task (added_tasks w)) = add_mset (RetentionPolicyTask 0 outdated) (mset (map reg_task (added_tasks w')))))"
  proof (cases "task_due inp w")
    case True
    then have ne: "added_tasks w \<noteq> []" by (simp add: task_due_def)
    have left: "queue_ordered (butlast (added_tasks w))" using registrations.ordered_leave[OF ordered] ne by simp
    have "run_task env inp w = (Inr (), w')" using round True by (simp add: watch_round_def)
    then show ?thesis using ne
    proof (cases rule: run_task_cases)
      case again
      then show ?thesis
        using left removed_last[OF ne] by (simp add: watcher_insert_ordered mset_watcher_insert next_registration_def)
    next
      case (removed outdated)
      then show ?thesis using left removed_last[OF ne] by auto
    qed
  next
    case False
    then have "added_tasks w' = added_tasks w"
      using round take_notification_tasks[of env inp w] by (simp add: watch_round_def)
    with ordered show ?thesis by simp
  qed
  then show "queue_ordered (added_tasks w')" and "mset (map reg_task (added_tasks w')) = mset (map reg_task (added_tasks w))
      \<or> (\<exists>outdated. mset (map reg_task (added_tasks w)) = add_mset (RetentionPolicyTask 0 outdated) (mset (map reg_task (added_tasks w'))))"
    by auto
qed

text \<open>A watcher with its two tasks and an empty service, and a quiet round.\<close>

definition sample_watcher :: "int \<Rightarrow> int \<Rightarrow> (nat, unit, nat) watcher" where
  "sample_watcher poll_interval retention_interval =
     \<lparr> added_tasks = [\<lparr> reg_task = RetentionPolicyTask retention_interval 60, next_run = 1, executed = 0 \<rparr>,
                      \<lparr> reg_task = PollingTask poll_interval, next_run = 0, executed = 0 \<rparr>],
       m_running = True, service = (sample_state (\<lambda>_. sample_table []) (\<lambda>_. []))\<lparr> rest_agents := [] \<rparr> \<rparr>"

definition quiet_round :: "int \<Rightarrow> watch_input" where
  "quiet_round now = \<lparr> round_now = now, round_busy = (\<lambda>_. False), round_notification = None, round_running = True \<rparr>"

theorem watcher_keeps_tasks_witness:
  "queue_ordered (added_tasks (snd (watch_round (sample_env {}) (quiet_round 0) (sample_watcher 5 7))))"
proof -
  let ?w = "sample_watcher 5 7" and ?env = "sample_env {}"
  have "queue_ordered (added_tasks ?w)" by (simp add: queue_ordered_def sample_watcher_def)
  moreover have "fst (watch_round ?env (quiet_round 0) ?w) = Inr ()" by code_simp
  ultimately show ?thesis
    using watcher_keeps_tasks[of ?env "\<lambda>_. 0" ?w 0 "PollingTask 0" "quiet_round 0"] by (metis prod.collapse)
qed

subsection \<open>Notifications get their turn\<close>

definition period :: "registration \<Rightarrow> int" where
  "period r = seconds (get_interval (reg_task r))"

abbreviation runs_until :: "int \<Rightarrow> registration list \<Rightarrow> nat" where
  "runs_until t rs \<equiv> \<Sum>r\<leftarrow>rs. nat ((t - next_run r) div period r + 1)"

lemma runs_until_turns: "runs_until t rs = registrations.turns_left period t rs"
  unfolding registrations.turns_left_def by (simp flip: sum_mset_sum_list)

definition all_periodic :: "('n, 'p, 'w) watcher \<Rightarrow> bool" where
  "all_periodic w \<longleftrightarrow> (\<forall>r \<in> set (added_tasks w). get_interval (reg_task r) > 0)"

lemma task_round_progress:
  assumes "task_due inp w" "watch_round env inp w = (Inr (), w')" "round_now inp \<le> t" "all_periodic w"
  shows "all_periodic w' \<and> runs_until t (added_tasks w) = Suc (runs_until t (added_tasks w'))"
proof -
  let ?r = "List.last (added_tasks w)"
  have ne: "added_tasks w \<noteq> []" and due: "next_run ?r \<le> t" using assms(1,3) by (auto simp: task_due_def)
  have pos: "get_interval (reg_task ?r) > 0" using ne assms(4) by (auto simp: all_periodic_def)
  have "run_task env inp w = (Inr (), w')" using assms(1,2) by (simp add: watch_round_def)
  then have w': "added_tasks w' = watcher_insert (next_registration ?r) (butlast (added_tasks w))"
    using ne pos by (cases rule: run_task_cases) auto
  have "all_periodic w'"
    using assms(4) ne pos unfolding all_periodic_def w' set_watcher_insert
    by (auto simp: next_registration_def dest: in_set_butlastD)
  moreover have "registrations.turns_left period t (added_tasks w) = Suc (registrations.turns_left period t (added_tasks w'))"
    unfolding w' using ne due pos
    by (intro registrations.turn_taken) (auto simp: next_registration_def period_def seconds_def)
  ultimately show ?thesis unfolding runs_until_turns by simp
qed

text \<open>The state of the watcher before each round.\<close>

fun states_before :: "('n, 'p, 'w) rest_env \<Rightarrow> watch_input list \<Rightarrow> ('n, 'p, 'w) watcher \<Rightarrow> (watch_input \<times> ('n, 'p, 'w) watcher) list" where
  "states_before env [] w = []"
| "states_before env (inp # inps) w = (inp, w) # states_before env inps (snd (watch_round env inp w))"

lemma tasks_only_bounded:
  assumes "watch_loop env inputs w = (Inr (), w')" and "all_periodic w" and "\<forall>inp \<in> set inputs. round_now inp \<le> t"
    and "\<forall>(inp, x) \<in> set (states_before env inputs w). task_due inp x"
  shows "length inputs \<le> runs_until t (added_tasks w)"
  using assms
proof (induction inputs arbitrary: w)
  case (Cons inp inputs)
  obtain x where x: "watch_round env inp w = (Inr (), x)" "watch_loop env inputs x = (Inr (), w')"
    using Cons.prems(1) unfolding watch_loop_def by (auto elim: eseq_InrE)
  have "all_periodic x \<and> runs_until t (added_tasks w) = Suc (runs_until t (added_tasks x))"
    using task_round_progress[OF _ x(1), of t] Cons.prems by simp
  with Cons.IH[OF x(2)] Cons.prems x(1) show ?case by simp
qed simp

lemma runs_until_bound:
  assumes "\<forall>r \<in> set rs. least \<le> period r \<and> t - late \<le> next_run r" and "0 < least" and "0 \<le> late"
  shows "int (runs_until t rs) * least \<le> int (length rs) * (late + least)"
  using assms(1)
proof (induction rs)
  case (Cons r rs)
  have "(t - next_run r) div period r \<le> late div least"
  proof (cases "t - next_run r < 0")
    case True
    then have "(t - next_run r) div period r < 0" using Cons.prems assms(2) by (intro div_neg_pos_less0) auto
    moreover have "0 \<le> late div least" using assms(2,3) by (simp add: pos_imp_zdiv_nonneg_iff)
    ultimately show ?thesis by linarith
  next
    case False
    then have "(t - next_run r) div period r \<le> (t - next_run r) div least" using Cons.prems assms(2) by (intro zdiv_mono2) auto
    also have "\<dots> \<le> late div least" using Cons.prems assms(2) by (intro zdiv_mono1) auto
    finally show ?thesis .
  qed
  moreover have "0 \<le> late div least" using assms(2,3) by (simp add: pos_imp_zdiv_nonneg_iff)
  ultimately have "int (nat ((t - next_run r) div period r + 1)) \<le> late div least + 1" by linarith
  then have "int (nat ((t - next_run r) div period r + 1)) * least \<le> (late div least + 1) * least" using assms(2) by (intro mult_right_mono) auto
  moreover have "late div least * least \<le> late"
    using div_mult_mod_eq[of late least] pos_mod_sign[OF assms(2), of late] by linarith
  ultimately have "int (nat ((t - next_run r) div period r + 1)) * least \<le> late + least" by (simp add: distrib_right)
  then show ?case using Cons by (simp add: algebra_simps)
qed simp

text \<open>
  C20: When the tasks leave the watcher enough time, they cannot keep it from the notifications.
  Let every round take at most \<open>longest\<close>, the n tasks have intervals of at least
  \<open>least\<close> with \<open>n * longest < least\<close>, and let no task be more than \<open>late\<close> behind at the start. Then of
  \<open>N\<close> rounds with \<open>N * (least - n * longest) > n * (late + least)\<close> one turns to the queue of events; the bound
  covers the late runs that the tasks catch up on, one after the other. The condition on the
  load cannot be dropped: \<open>slow_tasks_starve\<close>.
\<close>

theorem notifications_get_their_turn:
  assumes "watch_loop env inputs w = (Inr (), w')"
    and rounds: "\<forall>k < length inputs. round_now (inputs ! k) \<le> start + int k * longest"
    and tasks: "\<forall>r \<in> set (added_tasks w). least \<le> seconds (get_interval (reg_task r)) \<and> start - late \<le> next_run r"
    and load: "int (length (added_tasks w)) * longest < least" "0 \<le> longest" "0 \<le> late"
    and many: "int (length inputs) * (least - int (length (added_tasks w)) * longest) > int (length (added_tasks w)) * (late + least)"
  shows "\<exists>(inp, x) \<in> set (states_before env inputs w). \<not> task_due inp x \<and> watch_round env inp x = take_notification env inp x"
proof (rule ccontr)
  let ?n = "int (length (added_tasks w))" and ?N = "int (length inputs)"
  let ?t = "start + ?N * longest"
  assume "\<not> ?thesis"
  then have busy: "\<forall>(inp, x) \<in> set (states_before env inputs w). task_due inp x" by (auto simp: watch_round_def)
  have least: "0 < least" using load by (smt (verit) mult_nonneg_nonneg of_nat_0_le_iff)
  have "all_periodic w" using tasks least by (auto simp: all_periodic_def seconds_def)
  moreover have "\<forall>inp \<in> set inputs. round_now inp \<le> ?t"
  proof
    fix inp
    assume "inp \<in> set inputs"
    then obtain k where k: "k < length inputs" "inp = inputs ! k" by (metis in_set_conv_nth)
    then have "int k * longest \<le> ?N * longest" using load(2) by (intro mult_right_mono) auto
    then show "round_now inp \<le> ?t" using rounds k by force
  qed
  ultimately have "?N \<le> int (runs_until ?t (added_tasks w))" using tasks_only_bounded[OF assms(1) _ _ busy] by simp
  then have "?N * least \<le> int (runs_until ?t (added_tasks w)) * least" using least by (intro mult_right_mono) auto
  also have "\<dots> \<le> ?n * (late + ?N * longest + least)"
    using tasks least load(2,3) by (intro runs_until_bound) (auto simp: period_def)
  finally show False using many by (simp add: algebra_simps)
qed

theorem notifications_get_their_turn_witness:
  "\<exists>(inp, x) \<in> set (states_before (sample_env {}) (map quiet_round [1, 1, 1]) (sample_watcher 5 7)).
     \<not> task_due inp x \<and> watch_round (sample_env {}) inp x = take_notification (sample_env {}) inp x"
proof -
  let ?w = "sample_watcher 5 7" and ?env = "sample_env {}" and ?inputs = "map quiet_round [1, 1, 1]"
  have "fst (watch_loop ?env ?inputs ?w) = Inr ()" by code_simp
  then have run: "watch_loop ?env ?inputs ?w = (Inr (), snd (watch_loop ?env ?inputs ?w))" by (metis prod.collapse)
  have at: "\<forall>k < length ?inputs. round_now (?inputs ! k) \<le> 1 + int k * 0" by (simp add: quiet_round_def less_Suc_eq)
  show ?thesis
    by (rule notifications_get_their_turn[OF run at, where least = 5000000000 and late = 1])
      (simp_all add: sample_watcher_def seconds_def)
qed

subsection \<open>Tasks that take too long\<close>

text \<open>
  C21: When the rounds take as long as the interval of one task, notifications are starved: if the
  polling task is due at a time and the k-th round after it comes at least k of its intervals later,
  no round ever turns to the queue of events, however many rounds there are and whatever the other tasks are. With
  the default interval zero this is the case as soon as the task is due.
\<close>

theorem slow_tasks_starve:
  assumes "watch_loop env inputs w = (Inr (), w')" and "queue_ordered (added_tasks w)"
    and "r \<in> set (added_tasks w)" and "reg_task r = PollingTask interval" and "0 \<le> interval" and "next_run r \<le> due"
    and "\<forall>k < length inputs. due + int k * seconds interval \<le> round_now (inputs ! k)"
  shows "\<forall>(inp, x) \<in> set (states_before env inputs w). task_due inp x \<and> watch_round env inp x = run_task env inp x"
  using assms
proof (induction inputs arbitrary: w r due)
  case (Cons inp inputs)
  let ?last = "List.last (added_tasks w)" and ?rest = "butlast (added_tasks w)"
  obtain x where x: "watch_round env inp w = (Inr (), x)" "watch_loop env inputs x = (Inr (), w')"
    using Cons.prems(1) unfolding watch_loop_def by (auto elim: eseq_InrE)
  have ne: "added_tasks w \<noteq> []" using Cons.prems(3) by auto
  have "next_run ?last \<le> next_run r" using registrations.first_least[OF Cons.prems(2)] Cons.prems(3) by simp
  moreover have "due \<le> round_now inp" using Cons.prems(7)[rule_format, of 0] by simp
  ultimately have now: "task_due inp w" using ne Cons.prems(6) by (simp add: task_due_def)
  then have run: "run_task env inp w = (Inr (), x)" using x(1) by (simp add: watch_round_def)
  have left: "queue_ordered ?rest" using registrations.ordered_leave[OF Cons.prems(2)] ne by simp
  have step: "0 \<le> seconds interval" using Cons.prems(5) by (simp add: seconds_def)
  have here: "r = ?last \<or> r \<in> set ?rest" using Cons.prems(3) ne by (metis append_butlast_last_id rotate1.simps(2) set_ConsD set_rotate1)
  have "queue_ordered (added_tasks x)
      \<and> (\<exists>r' \<in> set (added_tasks x). reg_task r' = PollingTask interval \<and> next_run r' \<le> due + seconds interval)"
    using run ne
  proof (cases rule: run_task_cases)
    case again
    then show ?thesis
      using here left Cons.prems(4,6) step
      by (auto simp: watcher_insert_ordered set_watcher_insert next_registration_def intro!: bexI[of _ r])
  next
    case (removed outdated)
    then have "r \<in> set ?rest" using here Cons.prems(4) by auto
    then show ?thesis using removed left Cons.prems(4,6) step by (intro conjI bexI[of _ r]) auto
  qed
  then obtain r' where r': "queue_ordered (added_tasks x)" "r' \<in> set (added_tasks x)" "reg_task r' = PollingTask interval"
    "next_run r' \<le> due + seconds interval" by blast
  have "\<forall>k < length inputs. (due + seconds interval) + int k * seconds interval \<le> round_now (inputs ! k)"
  proof (intro allI impI)
    fix k
    assume "k < length inputs"
    then have "due + int (Suc k) * seconds interval \<le> round_now ((inp # inputs) ! Suc k)" using Cons.prems(7)[rule_format, of "Suc k"] by simp
    then show "(due + seconds interval) + int k * seconds interval \<le> round_now (inputs ! k)" by (simp add: algebra_simps)
  qed
  from Cons.IH[OF x(2) r'(1,2,3) Cons.prems(5) r'(4) this] x(1) now show ?case by (simp add: watch_round_def)
qed simp

theorem slow_tasks_starve_witness:
  "list_all (\<lambda>(inp, x). task_due inp x) (states_before (sample_env {}) (map quiet_round [0, 5000000000, 10000000000]) (sample_watcher 5 7))"
proof -
  let ?w = "sample_watcher 5 7" and ?env = "sample_env {}" and ?inputs = "map quiet_round [0, 5000000000, 10000000000]"
  have "fst (watch_loop ?env ?inputs ?w) = Inr ()" by code_simp
  then have run: "watch_loop ?env ?inputs ?w = (Inr (), snd (watch_loop ?env ?inputs ?w))" by (metis prod.collapse)
  have "\<forall>(inp, x) \<in> set (states_before ?env ?inputs ?w). task_due inp x \<and> watch_round ?env inp x = run_task ?env inp x"
  proof (rule slow_tasks_starve[OF run, where interval = 5 and due = 0])
    show "queue_ordered (added_tasks ?w)" by (simp add: queue_ordered_def sample_watcher_def)
    show "\<lparr> reg_task = PollingTask 5, next_run = 0, executed = 0 \<rparr> \<in> set (added_tasks ?w)" by (simp add: sample_watcher_def)
    show "\<forall>k < length ?inputs. 0 + int k * seconds 5 \<le> round_now (?inputs ! k)" by (simp add: quiet_round_def seconds_def less_Suc_eq)
  qed simp_all
  then show ?thesis unfolding list_all_iff by blast
qed

subsection \<open>A task without an interval\<close>

text \<open>
  A polling task whose interval is zero, which is the default, takes every round from the
  time it is due: its next run is never moved, so as long as the other tasks are due later, the watcher neither
  runs any of them nor looks at a notification, however long it runs.
\<close>

theorem zero_interval_starves:
  assumes "watch_loop env inputs w = (Inr (), w')" and "added_tasks w = others @ [r]" and "reg_task r = PollingTask 0"
    and "\<forall>r' \<in> set others. next_run r < next_run r'" and "\<forall>inp \<in> set inputs. next_run r \<le> round_now inp"
  shows "added_tasks w' = others @ [r\<lparr> executed := executed r + of_nat (length inputs) \<rparr>]
    \<and> service w' = fold (\<lambda>inp s. snd (polling_execute env (round_busy inp) s)) inputs (service w)"
  using assms
proof (induction inputs arbitrary: w r)
  case (Cons inp inputs)
  let ?next = "r\<lparr> executed := executed r + 1 \<rparr>"
  obtain x where x: "watch_round env inp w = (Inr (), x)" "watch_loop env inputs x = (Inr (), w')"
    using Cons.prems(1) unfolding watch_loop_def by (auto elim: eseq_InrE)
  have next_reg: "next_registration r = ?next" using Cons.prems(3) by (simp add: next_registration_def seconds_def)
  have at_end: "watcher_insert ?next rs = rs @ [?next]" if "set rs \<subseteq> set others" for rs
    using that Cons.prems(4) by (induction rs) force+
  have "task_due inp w" using Cons.prems(2,5) by (simp add: task_due_def)
  with x(1) Cons.prems(2,3) have "added_tasks x = others @ [?next]"
    and service: "service x = snd (polling_execute env (round_busy inp) (service w))"
    by (auto simp: watch_round_def run_task_def next_reg at_end eff_simps split: prod.splits sum.splits if_splits)
  with Cons.IH[OF x(2), of ?next] Cons.prems show ?case by (simp add: ac_simps)
qed (simp add: watch_loop_def)

theorem zero_interval_starves_witness:
  "map executed (added_tasks (snd (watch_loop (sample_env {}) [quiet_round 1, quiet_round 2] (sample_watcher 0 0)))) = [0, 2]"
proof -
  let ?w = "sample_watcher 0 0" and ?env = "sample_env {}" and ?inputs = "[quiet_round 1, quiet_round 2]"
  have "fst (watch_loop ?env ?inputs ?w) = Inr ()" by code_simp
  then have run: "watch_loop ?env ?inputs ?w = (Inr (), snd (watch_loop ?env ?inputs ?w))" by (metis prod.collapse)
  have "added_tasks ?w = [\<lparr> reg_task = RetentionPolicyTask 0 60, next_run = 1, executed = 0 \<rparr>]
      @ [\<lparr> reg_task = PollingTask 0, next_run = 0, executed = 0 \<rparr>]"
    by (simp add: sample_watcher_def)
  from zero_interval_starves[OF run this] show ?thesis by (simp add: quiet_round_def)
qed

end
