(* ===== verification/Event_Service.thy ===== *)
theory Event_Service
  imports Subscription_Model Rest_Watcher
begin

text \<open>
  The subscription manager and the delivery of events (\<open>rest/eventing\<close>): the subscriptions with their
  database, the queue of arrays of events with their due times, and the thread that selects
  the events for each subscriber, posts them, repeats a failed post and in the end gives the
  subscriber up. The HTTP client, the clocks and the text form of JSON documents are arguments.
\<close>

subsection \<open>Subscriptions\<close>

record event_array =
  ea_subscriber_id :: "u64 option"
  ea_retry_attempts :: u32
  ea_id :: u64
  ea_events :: "event list"
  ea_context :: string

definition new_event_array :: "event list \<Rightarrow> event_array" where
  "new_event_array events =
     \<lparr> ea_subscriber_id = None, ea_retry_attempts = 0, ea_id = 0, ea_events = events, ea_context = [] \<rparr>"

text \<open>What a post ends with: it was sent, the client threw its \<open>runtime_error\<close>, or something else was thrown.\<close>

datatype post_outcome = Posted | PostFailed | PostThrew

record 'w event_env =
  delivery_retry_attempts :: u32
  delivery_retry_interval :: int
  ev_steady_clock :: "'w \<Rightarrow> int"
  ev_file_clock :: "'w \<Rightarrow> int"
  ev_location :: string
  ev_dump :: "json \<Rightarrow> string"
  ev_parse :: "string \<Rightarrow> json option"
  ev_post :: "string \<Rightarrow> event_array \<Rightarrow> 'w \<Rightarrow> post_outcome \<times> 'w"

text \<open>The posts made are recorded in \<open>ev_posts\<close>.\<close>

record 'w event_state =
  m_subscriptions :: "(u64 \<times> subscription) list"
  m_last_subscription :: u64
  sub_files :: files
  ev_queue :: "(int \<times> event_array) list"
  event_array_id :: u64
  ev_posts :: "(string \<times> event_array) list"
  ev_world :: 'w

type_synonym ('w, 'a) ev_eff = "('w event_state, model_exception, 'a) eff"

definition subscription_db :: "'w event_env \<Rightarrow> fdb" where
  "subscription_db env = fdb_create ''Subscription'' False (ev_location env)"

definition subscription_get :: "u64 \<Rightarrow> ('w, subscription) ev_eff" where
  "subscription_get i s =
     (case map_of (m_subscriptions s) i of Some sub \<Rightarrow> (Inr sub, s) | None \<Rightarrow> (Inl (NotFound i), s))"

text \<open>The loop that looks for a number not in use needs at most one round per subscription and one more.\<close>

fun next_subscription_id :: "nat \<Rightarrow> u64 set \<Rightarrow> u64 \<Rightarrow> u64 option" where
  "next_subscription_id 0 used i = None"
| "next_subscription_id (Suc n) used i = (if i + 1 \<notin> used then Some (i + 1) else next_subscription_id n used (i + 1))"

text \<open>Assignment to an entry of the ordered map.\<close>

definition sub_put :: "u64 \<Rightarrow> subscription \<Rightarrow> (u64 \<times> subscription) list \<Rightarrow> (u64 \<times> subscription) list" where
  "sub_put i sub subs = insort_key fst (i, sub) (filter (\<lambda>e. fst e \<noteq> i) subs)"

definition subscription_add :: "'w event_env \<Rightarrow> subscription \<Rightarrow> 'w event_state \<Rightarrow> (u64 \<times> 'w event_state) option" where
  "subscription_add env sub s =
     (case next_subscription_id (Suc (length (m_subscriptions s))) (fst ` set (m_subscriptions s)) (m_last_subscription s) of
        None \<Rightarrow> None
      | Some i \<Rightarrow>
          let sub' = sub\<lparr> sub_id := i \<rparr>
          in Some (i, s\<lparr> m_last_subscription := i,
                 sub_files := snd (fdb_put (ev_file_clock env (ev_world s)) (subscription_db env) (id_value_serialize i) (ev_dump env (subscription_to_json sub')) (sub_files s)),
                 m_subscriptions := sub_put i sub' (m_subscriptions s) \<rparr>))"

definition subscription_del :: "'w event_env \<Rightarrow> u64 \<Rightarrow> ('w, unit) ev_eff" where
  "subscription_del env i s =
     (if map_of (m_subscriptions s) i = None then (Inl (NotFound i), s)
      else (Inr (), s\<lparr> m_subscriptions := filter (\<lambda>e. fst e \<noteq> i) (m_subscriptions s),
              sub_files := snd (fdb_remove (subscription_db env) (id_value_serialize i) (sub_files s)) \<rparr>))"

subsection \<open>The queue\<close>

text \<open>
  A multimap from due times to arrays: a new entry goes behind those with the same time.
  \<open>queue_take\<close> is \<open>wait_for_and_pop\<close> seen at the time it looks at the head for the last time.
\<close>

fun queue_emplace :: "int \<times> event_array \<Rightarrow> (int \<times> event_array) list \<Rightarrow> (int \<times> event_array) list" where
  "queue_emplace x [] = [x]"
| "queue_emplace x (y # q) = (if fst x < fst y then x # y # q else y # queue_emplace x q)"

fun queue_take :: "int \<Rightarrow> (int \<times> event_array) list \<Rightarrow> event_array option \<times> (int \<times> event_array) list" where
  "queue_take now [] = (None, [])"
| "queue_take now ((t, x) # q) = (if t - now \<le> 0 then (Some x, q) else (None, (t, x) # q))"

text \<open>\<open>pop\<close> compares the other way round.\<close>

fun queue_pop :: "int \<Rightarrow> (int \<times> event_array) list \<Rightarrow> event_array option \<times> (int \<times> event_array) list" where
  "queue_pop now [] = (None, [])"
| "queue_pop now ((t, x) # q) = (if now - t \<le> 0 then (Some x, q) else (None, (t, x) # q))"

definition post_events_array :: "'w event_env \<Rightarrow> event_array \<Rightarrow> int \<Rightarrow> 'w event_state \<Rightarrow> 'w event_state" where
  "post_events_array env x delay s = s\<lparr> ev_queue := queue_emplace (ev_steady_clock env (ev_world s) + delay, x) (ev_queue s) \<rparr>"

definition notify_event :: "'w event_env \<Rightarrow> event \<Rightarrow> 'w event_state \<Rightarrow> 'w event_state" where
  "notify_event env e s = post_events_array env (new_event_array [e]) 0 s"

definition notify_all :: "'w event_env \<Rightarrow> event list \<Rightarrow> 'w event_state \<Rightarrow> 'w event_state" where
  "notify_all env events s =
     (if events = [] then s else post_events_array env (new_event_array (remove_duplicates events)) 0 s)"

subsection \<open>Delivery\<close>

definition call_post :: "'w event_env \<Rightarrow> string \<Rightarrow> event_array \<Rightarrow> 'w event_state \<Rightarrow> post_outcome \<times> 'w event_state" where
  "call_post env destination x s =
     (case ev_post env destination x (ev_world s) of
        (r, w) \<Rightarrow> (r, s\<lparr> ev_world := w, ev_posts := ev_posts s @ [(destination, x)] \<rparr>))"

text \<open>\<open>None\<close> stands for an exception that is not handled here.\<close>

definition delivery_failed :: "'w event_env \<Rightarrow> subscription \<Rightarrow> event_array \<Rightarrow> 'w event_state \<Rightarrow> unit option \<times> 'w event_state" where
  "delivery_failed env sub x s =
     (let retry = x\<lparr> ea_retry_attempts := ea_retry_attempts x + 1 \<rparr>
      in if ea_retry_attempts retry < delivery_retry_attempts env
         then (Some (), post_events_array env retry (delivery_retry_interval env) s)
         else (case subscription_del env (sub_id sub) s of (Inr _, s') \<Rightarrow> (Some (), s') | (Inl _, s') \<Rightarrow> (None, s')))"

definition send_event_array :: "'w event_env \<Rightarrow> u64 \<Rightarrow> event_array \<Rightarrow> 'w event_state \<Rightarrow> unit option \<times> 'w event_state" where
  "send_event_array env i x s =
     (case subscription_get i s of
        (Inl _, s') \<Rightarrow> (Some (), s')
      | (Inr sub, s') \<Rightarrow>
          (case call_post env (sub_destination sub) x s' of
             (Posted, s'') \<Rightarrow> (Some (), s'')
           | (PostFailed, s'') \<Rightarrow> delivery_failed env sub x s''
           | (PostThrew, s'') \<Rightarrow> (None, s'')))"

fun select_events_for_subscribers :: "event_array \<Rightarrow> (u64 \<times> subscription) list \<Rightarrow> u64 \<Rightarrow> (u64 \<times> event_array) list \<times> u64" where
  "select_events_for_subscribers x [] next_id = ([], next_id)"
| "select_events_for_subscribers x ((i, sub) # subs) next_id =
     (let events = filter (is_subscribed_for sub) (ea_events x)
      in if events = [] then select_events_for_subscribers x subs next_id
         else case select_events_for_subscribers x subs (next_id + 1) of
                (selections, last_id) \<Rightarrow>
                  ((sub_id sub, (new_event_array events)\<lparr> ea_context := sub_context sub, ea_subscriber_id := Some (sub_id sub), ea_id := next_id \<rparr>)
                     # selections, last_id))"

text \<open>The exception of one delivery ends the loop over the subscribers.\<close>

fun send_event_arrays :: "'w event_env \<Rightarrow> (u64 \<times> event_array) list \<Rightarrow> 'w event_state \<Rightarrow> 'w event_state" where
  "send_event_arrays env [] s = s"
| "send_event_arrays env ((i, x) # xs) s =
     (case send_event_array env i x s of (Some _, s') \<Rightarrow> send_event_arrays env xs s' | (None, s') \<Rightarrow> s')"

definition handle_event_array :: "'w event_env \<Rightarrow> event_array \<Rightarrow> 'w event_state \<Rightarrow> 'w event_state" where
  "handle_event_array env x s =
     (case ea_subscriber_id x of
        None \<Rightarrow>
          (case select_events_for_subscribers x (m_subscriptions s) (event_array_id s) of
             (selections, next_id) \<Rightarrow> send_event_arrays env selections (s\<lparr> event_array_id := next_id \<rparr>))
      | Some i \<Rightarrow> snd (send_event_array env i x s))"

text \<open>A round of the thread, at a time.\<close>

definition handle_events_round :: "'w event_env \<Rightarrow> int \<Rightarrow> 'w event_state \<Rightarrow> 'w event_state" where
  "handle_events_round env now s =
     (case queue_take now (ev_queue s) of
        (None, q) \<Rightarrow> s\<lparr> ev_queue := q \<rparr>
      | (Some x, q) \<Rightarrow> handle_event_array env x (s\<lparr> ev_queue := q \<rparr>))"

subsection \<open>Properties of the subscription manager\<close>

lemma next_subscription_id_tried:
  "next_subscription_id n used i = None \<Longrightarrow> (\<lambda>k. i + of_nat k) ` {1..n} \<subseteq> used"
proof (induction n arbitrary: i)
  case (Suc n)
  have "i + of_nat k \<in> used" if "k \<in> {1..Suc n}" for k
  proof (cases "k = 1")
    case True
    then show ?thesis using Suc.prems by (simp split: if_splits)
  next
    case False
    have "next_subscription_id n used (i + 1) = None" using Suc.prems by (simp split: if_splits)
    moreover have "k - 1 \<in> {1..n}" using False that by auto
    ultimately have "i + 1 + of_nat (k - 1) \<in> used" using Suc.IH by blast
    then show ?thesis using that by (simp add: of_nat_diff)
  qed
  then show ?case by blast
qed simp

lemma inj_on_next: "n < 2 ^ 64 \<Longrightarrow> inj_on (\<lambda>k. (i :: u64) + of_nat k) {1..n}"
proof (rule inj_onI)
  fix j k
  assume "n < 2 ^ 64" "j \<in> {1..n}" "k \<in> {1..n}" "i + of_nat j = i + (of_nat k :: u64)"
  then have "unat (of_nat j :: u64) = unat (of_nat k :: u64)" "j < 2 ^ 64" "k < 2 ^ 64" by auto
  then show "j = k" by (simp add: unsigned_of_nat take_bit_nat_eq_self)
qed

lemma next_subscription_id_found:
  assumes "length xs < n" and "n < 2 ^ 64"
  shows "next_subscription_id n (set xs) i \<noteq> None"
proof
  assume "next_subscription_id n (set xs) i = None"
  then have "card ((\<lambda>k. i + of_nat k) ` {1..n}) \<le> card (set xs)" by (intro card_mono next_subscription_id_tried) auto
  then show False using card_image[OF inj_on_next[OF assms(2)], of i] card_length[of xs] assms(1) by simp
qed

lemma next_subscription_id_unused: "next_subscription_id n used i = Some j \<Longrightarrow> j \<notin> used"
  by (induction n arbitrary: i) (auto split: if_splits)

lemma map_of_insort_key: "fst p \<notin> fst ` set xs \<Longrightarrow> map_of (insort_key fst p xs) = (map_of xs)(fst p \<mapsto> snd p)"
  by (induction xs) (auto simp: fun_upd_twist)

lemma map_of_filter_key: "map_of (filter (\<lambda>e. fst e \<noteq> i) xs) = (map_of xs)(i := None)"
  by (induction xs) auto

lemma map_of_sub_put: "map_of (sub_put i sub subs) = (map_of subs)(i \<mapsto> sub)"
  by (simp add: sub_put_def map_of_insort_key map_of_filter_key image_iff)

text \<open>
  C30: A new subscription is always entered, under a number no other subscription has: the
  search for a number ends, also when the counter wraps around, \<open>get\<close> with the
  number returned gives the subscription back, and all others stay as they were.
\<close>

theorem subscription_add_fresh:
  assumes "length (m_subscriptions s) < 2 ^ 64 - 1"
  shows "\<exists>i s'. subscription_add env sub s = Some (i, s') \<and> fst (subscription_get i s) = Inl (NotFound i)
    \<and> fst (subscription_get i s') = Inr (sub\<lparr> sub_id := i \<rparr>) \<and> (\<forall>j. j \<noteq> i \<longrightarrow> fst (subscription_get j s') = fst (subscription_get j s))"
proof -
  let ?used = "fst ` set (m_subscriptions s)"
  obtain i where i: "next_subscription_id (Suc (length (m_subscriptions s))) ?used (m_last_subscription s) = Some i"
    using next_subscription_id_found[of "map fst (m_subscriptions s)" "Suc (length (m_subscriptions s))" "m_last_subscription s"] assms
    by auto
  have new: "i \<notin> ?used" by (rule next_subscription_id_unused[OF i])
  then have "map_of (m_subscriptions s) i = None" by (simp add: map_of_eq_None_iff)
  then show ?thesis using i by (simp add: subscription_add_def subscription_get_def Let_def map_of_sub_put split: option.split)
qed

subsection \<open>Properties of the queue\<close>

definition times_ordered :: "(int \<times> event_array) list \<Rightarrow> bool" where
  "times_ordered q \<longleftrightarrow> sorted (map fst q)"

lemma mset_queue_emplace: "mset (queue_emplace x q) = add_mset x (mset q)"
  by (induction q) auto

lemma set_queue_emplace: "set (queue_emplace x q) = insert x (set q)"
  using mset_queue_emplace[of x q] by (metis set_mset_add_mset_insert set_mset_mset)

interpretation arrays: run_queue times_ordered mset fst queue_emplace hd tl
proof
  fix q :: "(int \<times> event_array) list" and x r
  show "times_ordered q \<Longrightarrow> times_ordered (queue_emplace x q)"
    unfolding times_ordered_def by (induction q) (auto simp: set_queue_emplace)
  show "mset (queue_emplace x q) = add_mset x (mset q)" by (rule mset_queue_emplace)
  show "\<lbrakk>times_ordered q; mset q \<noteq> {#}\<rbrakk> \<Longrightarrow> times_ordered (tl q)"
    unfolding times_ordered_def by (cases q) auto
  show "mset q \<noteq> {#} \<Longrightarrow> mset q = add_mset (hd q) (mset (tl q))" by (cases q) auto
  show "\<lbrakk>times_ordered q; r \<in># mset q\<rbrakk> \<Longrightarrow> fst (hd q) \<le> fst r"
    unfolding times_ordered_def by (cases q) auto
qed

text \<open>The queue hands out an array that is due, the one due first; \<open>pop\<close> hands out only arrays that are not due yet.\<close>

lemma queue_take_first:
  "\<lbrakk>times_ordered q; queue_take now q = (Some x, q')\<rbrakk>
   \<Longrightarrow> \<exists>t. (t, x) \<in># mset q \<and> t \<le> now \<and> mset q = add_mset (t, x) (mset q') \<and> (\<forall>r \<in># mset q. t \<le> fst r)"
  using arrays.first_least[of q] by (cases q) (fastforce split: if_splits)+

lemma queue_take_members:
  "queue_take now q = (y, q') \<Longrightarrow> set q' \<subseteq> set q \<and> (\<forall>x. y = Some x \<longrightarrow> x \<in> snd ` set q)"
  by (cases "(now, q)" rule: queue_take.cases) (auto split: if_splits)

lemma queue_pop_early: "queue_pop now ((t, x) # q) = (Some x, q) \<longleftrightarrow> now \<le> t"
  by auto

subsection \<open>The queue drains\<close>

text \<open>
  How often an array is posted at most, and the number of rounds an array can still cause: an
  array for a subscriber one per try left, a fresh array one of its own and the further tries for every subscriber.
\<close>

definition tries :: "'w event_env \<Rightarrow> nat" where
  "tries env = max 1 (unat (delivery_retry_attempts env))"

definition array_rounds :: "'w event_env \<Rightarrow> nat \<Rightarrow> event_array \<Rightarrow> nat" where
  "array_rounds env n x = (if ea_subscriber_id x = None then 1 + n * (tries env - 1) else tries env - unat (ea_retry_attempts x))"

abbreviation queue_rounds :: "'w event_env \<Rightarrow> nat \<Rightarrow> (int \<times> event_array) list \<Rightarrow> nat" where
  "queue_rounds env n q \<equiv> \<Sum>x\<leftarrow>q. array_rounds env n (snd x)"

definition rounds_left :: "'w event_env \<Rightarrow> 'w event_state \<Rightarrow> nat" where
  "rounds_left env s = queue_rounds env (length (m_subscriptions s)) (ev_queue s)"

definition retries_ok :: "'w event_env \<Rightarrow> (int \<times> event_array) list \<Rightarrow> bool" where
  "retries_ok env q \<longleftrightarrow> (\<forall>(t, x) \<in> set q. ea_subscriber_id x \<noteq> None \<longrightarrow> unat (ea_retry_attempts x) < tries env)"

lemma queue_rounds_emplace: "queue_rounds env n (queue_emplace x q) = array_rounds env n (snd x) + queue_rounds env n q"
  by (induction q) auto

lemma array_rounds_mono: "m \<le> n \<Longrightarrow> array_rounds env m x \<le> array_rounds env n x"
  by (simp add: array_rounds_def)

lemma queue_rounds_mono: "m \<le> n \<Longrightarrow> queue_rounds env m q \<le> queue_rounds env n q"
  by (intro sum_list_mono array_rounds_mono)

text \<open>Deliveries only take subscriptions away.\<close>

definition fewer_subscriptions :: "'w event_state \<Rightarrow> 'w event_state \<Rightarrow> bool" where
  "fewer_subscriptions s s' \<longleftrightarrow> (\<exists>P. m_subscriptions s' = filter P (m_subscriptions s))"

lemma fewer_subscriptions_refl: "m_subscriptions s' = m_subscriptions s \<Longrightarrow> fewer_subscriptions s s'"
  unfolding fewer_subscriptions_def by (rule exI[of _ "\<lambda>_. True"]) simp

lemma fewer_subscriptionsD:
  assumes "fewer_subscriptions s s'"
  shows "length (m_subscriptions s') \<le> length (m_subscriptions s)" and "set (m_subscriptions s') \<subseteq> set (m_subscriptions s)"
    and "distinct (map fst (m_subscriptions s)) \<Longrightarrow> distinct (map fst (m_subscriptions s'))"
  using assms by (auto simp: fewer_subscriptions_def distinct_map_filter)

lemma subscription_del_queue:
  "ev_queue (snd (subscription_del env i s)) = ev_queue s \<and> ev_posts (snd (subscription_del env i s)) = ev_posts s
   \<and> fewer_subscriptions s (snd (subscription_del env i s))"
  by (auto simp: subscription_del_def fewer_subscriptions_def intro: fewer_subscriptions_refl exI[of _ "\<lambda>_. True"])

text \<open>What a delivery changes: it makes at most one post, forgets at most one subscription, and queues at most the array again.\<close>

definition again :: "event_array \<Rightarrow> event_array" where
  "again x = x\<lparr> ea_retry_attempts := ea_retry_attempts x + 1 \<rparr>"

lemma delivery_failed_effect:
  assumes "delivery_failed env sub x s = (r, s')"
  shows "fewer_subscriptions s s' \<and> ev_posts s' = ev_posts s
    \<and> (ev_queue s' = ev_queue s
       \<or> (\<exists>t. ev_queue s' = queue_emplace (t, again x) (ev_queue s) \<and> ea_retry_attempts x + 1 < delivery_retry_attempts env))"
proof (cases "ea_retry_attempts x + 1 < delivery_retry_attempts env")
  case True
  then show ?thesis using assms by (auto simp: delivery_failed_def post_events_array_def again_def intro: fewer_subscriptions_refl)
next
  case False
  then have "s' = snd (subscription_del env (sub_id sub) s)"
    using assms by (auto simp: delivery_failed_def split: prod.splits sum.splits)
  then show ?thesis using subscription_del_queue[of env "sub_id sub" s] by simp
qed

lemma send_event_array_effect:
  assumes "send_event_array env i x s = (r, s')"
  shows "fewer_subscriptions s s' \<and> (ev_posts s' = ev_posts s
       \<or> (\<exists>sub. map_of (m_subscriptions s) i = Some sub \<and> ev_posts s' = ev_posts s @ [(sub_destination sub, x)]))
    \<and> (ev_queue s' = ev_queue s
       \<or> (\<exists>t. ev_queue s' = queue_emplace (t, again x) (ev_queue s) \<and> ea_retry_attempts x + 1 < delivery_retry_attempts env))"
proof (cases "map_of (m_subscriptions s) i")
  case None
  then show ?thesis using assms by (simp add: send_event_array_def subscription_get_def fewer_subscriptions_refl)
next
  case (Some sub)
  obtain o' w where post: "ev_post env (sub_destination sub) x (ev_world s) = (o', w)" by fastforce
  let ?s = "s\<lparr> ev_world := w, ev_posts := ev_posts s @ [(sub_destination sub, x)] \<rparr>"
  have "s' = ?s \<or> delivery_failed env sub x ?s = (r, s')"
    using assms Some post by (cases o') (auto simp: send_event_array_def subscription_get_def call_post_def)
  moreover have "fewer_subscriptions ?s s' \<Longrightarrow> fewer_subscriptions s s'" by (simp add: fewer_subscriptions_def)
  moreover have "fewer_subscriptions s ?s" by (rule fewer_subscriptions_refl) simp
  ultimately show ?thesis using Some delivery_failed_effect[of env sub x ?s r s'] by auto
qed

lemma retry_rounds:
  assumes "ea_retry_attempts x + 1 < delivery_retry_attempts env" and "unat (ea_retry_attempts x) < tries env"
  shows "unat (ea_retry_attempts (again x)) = Suc (unat (ea_retry_attempts x)) \<and> unat (ea_retry_attempts (again x)) < tries env"
proof -
  have "unat (ea_retry_attempts x + 1) < tries env"
    using assms(1) by (simp add: tries_def word_less_nat_alt less_max_iff_disj)
  moreover have "unat (delivery_retry_attempts env) < 2 ^ 32" using unsigned_less[of "delivery_retry_attempts env"] by simp
  then have "Suc (unat (ea_retry_attempts x)) < 2 ^ 32" using assms(2) by (auto simp: tries_def)
  then have "unat (ea_retry_attempts x + 1) = Suc (unat (ea_retry_attempts x))" by (simp add: unat_word_ariths)
  ultimately show ?thesis by (simp add: again_def)
qed

lemma send_event_array_rounds:
  assumes "send_event_array env i x s = (r, s')" and "retries_ok env (ev_queue s)"
    and "ea_subscriber_id x \<noteq> None" and "unat (ea_retry_attempts x) < tries env"
  shows "retries_ok env (ev_queue s') \<and> rounds_left env s' \<le> rounds_left env s + (tries env - 1 - unat (ea_retry_attempts x))"
proof -
  let ?n = "length (m_subscriptions s)" and ?n' = "length (m_subscriptions s')"
  note eff = send_event_array_effect[OF assms(1)]
  have mono: "queue_rounds env ?n' (ev_queue s) \<le> queue_rounds env ?n (ev_queue s)" using eff by (intro queue_rounds_mono fewer_subscriptionsD(1)) simp
  from eff consider "ev_queue s' = ev_queue s"
    | t where "ev_queue s' = queue_emplace (t, again x) (ev_queue s)" "ea_retry_attempts x + 1 < delivery_retry_attempts env" by blast
  then show ?thesis
  proof cases
    case 1
    then show ?thesis using assms(2) mono by (simp add: rounds_left_def)
  next
    case 2
    note again = retry_rounds[OF 2(2) assms(4)]
    have "ea_subscriber_id (again x) = ea_subscriber_id x" by (simp add: again_def)
    then have "retries_ok env (ev_queue s')" using assms(2,3) again 2(1) by (auto simp: retries_ok_def set_queue_emplace)
    moreover have "array_rounds env ?n' (again x) = tries env - 1 - unat (ea_retry_attempts x)"
      using assms(3) again by (auto simp: array_rounds_def again_def)
    ultimately show ?thesis using mono 2(1) by (simp add: rounds_left_def queue_rounds_emplace)
  qed
qed

definition new_for_subscriber :: "event_array \<Rightarrow> bool" where
  "new_for_subscriber x \<longleftrightarrow> ea_subscriber_id x \<noteq> None \<and> ea_retry_attempts x = 0"

lemma send_event_arrays_rounds:
  assumes "\<forall>(i, x) \<in> set xs. new_for_subscriber x" and "retries_ok env (ev_queue s)"
  shows "retries_ok env (ev_queue (send_event_arrays env xs s))
    \<and> rounds_left env (send_event_arrays env xs s) \<le> rounds_left env s + length xs * (tries env - 1)"
  using assms
proof (induction xs arbitrary: s)
  case (Cons p xs)
  obtain i x where p: "p = (i, x)" by (cases p)
  obtain r s1 where send: "send_event_array env i x s = (r, s1)" by fastforce
  have x: "ea_subscriber_id x \<noteq> None" "ea_retry_attempts x = 0" using Cons.prems(1) p by (auto simp: new_for_subscriber_def)
  define k where "k = tries env - 1"
  have step: "retries_ok env (ev_queue s1) \<and> rounds_left env s1 \<le> rounds_left env s + k"
    using send_event_array_rounds[OF send Cons.prems(2) x(1)] x(2) by (simp add: tries_def k_def)
  show ?case
  proof (cases r)
    case None
    then show ?thesis using step[unfolded k_def] send p by simp
  next
    case (Some a)
    then show ?thesis using Cons.IH[of s1] Cons.prems(1) step[unfolded k_def] send p by auto
  qed
qed simp

text \<open>Every selection holds events of the array, some at least, all of them of interest to the subscriber it names.\<close>

definition selected_for :: "event_array \<Rightarrow> (u64 \<times> subscription) list \<Rightarrow> u64 \<times> event_array \<Rightarrow> bool" where
  "selected_for x subs p \<longleftrightarrow>
     (\<exists>(i, sub) \<in> set subs. fst p = sub_id sub \<and> ea_subscriber_id (snd p) = Some (sub_id sub)
        \<and> ea_events (snd p) = filter (is_subscribed_for sub) (ea_events x) \<and> ea_events (snd p) \<noteq> [])"

lemma selected_for_Cons: "selected_for x subs p \<Longrightarrow> selected_for x (q # subs) p"
  by (auto simp: selected_for_def)

lemma selections_selected:
  "select_events_for_subscribers x subs next_id = (xs, last_id) \<Longrightarrow> \<forall>p \<in> set xs. selected_for x subs p"
proof (induction x subs next_id arbitrary: xs last_id rule: select_events_for_subscribers.induct)
  case (2 x i sub subs next_id)
  show ?case
  proof (cases "filter (is_subscribed_for sub) (ea_events x) = []")
    case True
    then have "\<forall>p \<in> set xs. selected_for x subs p" using "2.IH"(1) "2.prems" by simp
    then show ?thesis by (simp add: selected_for_Cons)
  next
    case False
    obtain ys l where ys: "select_events_for_subscribers x subs (next_id + 1) = (ys, l)" by fastforce
    have "\<forall>p \<in> set ys. selected_for x ((i, sub) # subs) p" using "2.IH"(2) False ys by (simp add: selected_for_Cons)
    moreover have "xs \<noteq> [] \<and> tl xs = ys \<and> selected_for x ((i, sub) # subs) (hd xs)"
      using "2.prems" False ys by (auto simp: selected_for_def new_event_array_def)
    ultimately show ?thesis by (cases xs) auto
  qed
qed simp

lemma selections:
  "select_events_for_subscribers x subs next_id = (xs, last_id)
   \<Longrightarrow> length xs \<le> length subs \<and> (\<forall>(i, y) \<in> set xs. new_for_subscriber y)"
  by (induction x subs next_id arbitrary: xs last_id rule: select_events_for_subscribers.induct)
    (fastforce simp: Let_def new_event_array_def new_for_subscriber_def split: if_splits prod.splits)+

lemma due_round_progress:
  assumes "ev_queue s = (t, x) # q" and "t \<le> now" and "retries_ok env (ev_queue s)"
  shows "retries_ok env (ev_queue (handle_events_round env now s)) \<and> rounds_left env (handle_events_round env now s) < rounds_left env s"
proof -
  let ?s = "s\<lparr> ev_queue := q \<rparr>" and ?n = "length (m_subscriptions s)"
  have round: "handle_events_round env now s = handle_event_array env x ?s"
    using assms(1,2) by (simp add: handle_events_round_def)
  have ok: "retries_ok env (ev_queue ?s)" using assms(1,3) by (auto simp: retries_ok_def)
  have before: "rounds_left env s = array_rounds env ?n x + rounds_left env ?s" using assms(1) by (simp add: rounds_left_def)
  show ?thesis
  proof (cases "ea_subscriber_id x")
    case None
    obtain xs last_id where sel: "select_events_for_subscribers x (m_subscriptions s) (event_array_id s) = (xs, last_id)" by fastforce
    let ?t = "?s\<lparr> event_array_id := last_id \<rparr>"
    have "retries_ok env (ev_queue (send_event_arrays env xs ?t))
        \<and> rounds_left env (send_event_arrays env xs ?t) \<le> rounds_left env ?t + length xs * (tries env - 1)"
      using selections[OF sel] ok by (intro send_event_arrays_rounds) auto
    moreover have "length xs * (tries env - 1) \<le> ?n * (tries env - 1)"
      using selections[OF sel] by (intro mult_le_mono1) simp
    moreover have "rounds_left env ?t = rounds_left env ?s" by (simp add: rounds_left_def)
    moreover have "array_rounds env ?n x = 1 + ?n * (tries env - 1)" using None by (simp add: array_rounds_def)
    ultimately have "retries_ok env (ev_queue (send_event_arrays env xs ?t)) \<and> rounds_left env (send_event_arrays env xs ?t) < rounds_left env s"
      using before by linarith
    moreover have "handle_event_array env x ?s = send_event_arrays env xs ?t" using None sel by (simp add: handle_event_array_def)
    ultimately show ?thesis unfolding round by simp
  next
    case (Some i)
    obtain r s' where send: "send_event_array env i x ?s = (r, s')" by fastforce
    have tries: "unat (ea_retry_attempts x) < tries env" using assms(1,3) Some by (auto simp: retries_ok_def)
    have "retries_ok env (ev_queue s') \<and> rounds_left env s' \<le> rounds_left env ?s + (tries env - 1 - unat (ea_retry_attempts x))"
      using send_event_array_rounds[OF send ok _ tries] Some by simp
    moreover have "array_rounds env ?n x = tries env - unat (ea_retry_attempts x)" using Some by (simp add: array_rounds_def)
    ultimately have "retries_ok env (ev_queue s') \<and> rounds_left env s' < rounds_left env s" using tries before by arith
    moreover have "handle_event_array env x ?s = s'" using Some send by (simp add: handle_event_array_def)
    ultimately show ?thesis unfolding round by simp
  qed
qed

text \<open>The states before the rounds at given times.\<close>

fun event_rounds :: "'w event_env \<Rightarrow> int list \<Rightarrow> 'w event_state \<Rightarrow> 'w event_state" where
  "event_rounds env [] s = s"
| "event_rounds env (now # moments) s = event_rounds env moments (handle_events_round env now s)"

fun always_due :: "'w event_env \<Rightarrow> int list \<Rightarrow> 'w event_state \<Rightarrow> bool" where
  "always_due env [] s \<longleftrightarrow> True"
| "always_due env (now # moments) s \<longleftrightarrow>
     (ev_queue s \<noteq> [] \<longrightarrow> fst (hd (ev_queue s)) \<le> now) \<and> always_due env moments (handle_events_round env now s)"

lemma empty_queue_stays: "ev_queue s = [] \<Longrightarrow> ev_queue (event_rounds env moments s) = []"
  by (induction moments arbitrary: s) (simp_all add: handle_events_round_def)

text \<open>
  C18: Events are not repeated for ever: without new events, the queue is empty after a number of
  rounds that is known beforehand, whatever the subscribers answer. Each array for a
  subscriber is tried as often as configured, and once at least; an array that has not been
  looked at counts one round and the further tries of every subscriber.
\<close>

theorem event_queue_drains:
  assumes "retries_ok env (ev_queue s)" and "always_due env moments s"
    and "(\<Sum>x\<leftarrow>ev_queue s. array_rounds env (length (m_subscriptions s)) (snd x)) \<le> length moments"
  shows "ev_queue (event_rounds env moments s) = []"
  using assms unfolding rounds_left_def[symmetric]
proof (induction moments arbitrary: s)
  case Nil
  show ?case
  proof (cases "ev_queue s")
    case (Cons p q)
    then show ?thesis using Nil due_round_progress[of s "fst p" "snd p" q "fst p" env] by simp
  qed simp
next
  case (Cons now moments)
  show ?case
  proof (cases "ev_queue s")
    case Nil
    then show ?thesis by (rule empty_queue_stays)
  next
    case (Cons p q)
    have "retries_ok env (ev_queue (handle_events_round env now s)) \<and> rounds_left env (handle_events_round env now s) < rounds_left env s"
      using Cons.prems(1,2) Cons by (intro due_round_progress[of s "fst p" "snd p" q]) auto
    then show ?thesis using Cons.IH[of "handle_events_round env now s"] Cons.prems(2,3) by simp
  qed
qed

subsection \<open>Who gets which events\<close>

text \<open>
  Subscriptions are stored under their number, and what waits for a subscriber that still exists
  is of interest to it and not empty.
\<close>

definition of_interest :: "(u64 \<times> subscription) list \<Rightarrow> event_array \<Rightarrow> bool" where
  "of_interest subs x \<longleftrightarrow>
     (case ea_subscriber_id x of None \<Rightarrow> True
      | Some i \<Rightarrow> ea_events x \<noteq> [] \<and> (\<forall>(j, sub) \<in> set subs. j = i \<longrightarrow> (\<forall>e \<in> set (ea_events x). is_subscribed_for sub e)))"

definition deliveries_ok :: "'w event_state \<Rightarrow> bool" where
  "deliveries_ok s \<longleftrightarrow>
     distinct (map fst (m_subscriptions s)) \<and> (\<forall>(i, sub) \<in> set (m_subscriptions s). sub_id sub = i)
     \<and> (\<forall>(t, x) \<in> set (ev_queue s). of_interest (m_subscriptions s) x)"

text \<open>A post is right for a set of subscriptions when it goes to one of them and holds only events this one asked for.\<close>

definition right_post :: "(u64 \<times> subscription) list \<Rightarrow> string \<times> event_array \<Rightarrow> bool" where
  "right_post subs p \<longleftrightarrow>
     (\<exists>(i, sub) \<in> set subs. fst p = sub_destination sub \<and> ea_events (snd p) \<noteq> []
        \<and> (\<forall>e \<in> set (ea_events (snd p)). is_subscribed_for sub e))"

definition right_posts :: "'w event_state \<Rightarrow> 'w event_state \<Rightarrow> bool" where
  "right_posts s s' \<longleftrightarrow> (\<exists>ps. ev_posts s' = ev_posts s @ ps \<and> (\<forall>p \<in> set ps. right_post (m_subscriptions s) p))"

lemma of_interest_again: "of_interest subs (again x) = of_interest subs x"
  by (simp add: of_interest_def again_def split: option.split)

lemma of_interest_fewer: "\<lbrakk>of_interest subs x; set subs' \<subseteq> set subs\<rbrakk> \<Longrightarrow> of_interest subs' x"
  by (auto simp: of_interest_def split: option.splits)

lemma right_posts_trans:
  assumes "right_posts s s1" and "right_posts s1 s2" and "set (m_subscriptions s1) \<subseteq> set (m_subscriptions s)"
  shows "right_posts s s2"
proof -
  obtain ps qs where "ev_posts s1 = ev_posts s @ ps" "\<forall>p \<in> set ps. right_post (m_subscriptions s) p"
    "ev_posts s2 = ev_posts s1 @ qs" "\<forall>p \<in> set qs. right_post (m_subscriptions s1) p"
    using assms(1,2) by (auto simp: right_posts_def)
  moreover have "right_post (m_subscriptions s1) p \<Longrightarrow> right_post (m_subscriptions s) p" for p
    using assms(3) by (fastforce simp: right_post_def)
  ultimately show ?thesis unfolding right_posts_def by (intro exI[of _ "ps @ qs"]) auto
qed

lemma send_event_array_right:
  assumes "send_event_array env i x s = (r, s')" and "deliveries_ok s"
    and "ea_subscriber_id x = Some i" and "of_interest (m_subscriptions s) x"
  shows "deliveries_ok s' \<and> right_posts s s' \<and> set (m_subscriptions s') \<subseteq> set (m_subscriptions s)"
proof -
  note eff = send_event_array_effect[OF assms(1)]
  note fewer = fewer_subscriptionsD[of s s']
  have "set (ev_queue s') \<subseteq> set (ev_queue s) \<union> {p. snd p = again x}"
    using eff by (auto simp: set_queue_emplace)
  then have "\<forall>(t, y) \<in> set (ev_queue s'). of_interest (m_subscriptions s) y"
    using assms(2,4) by (fastforce simp: deliveries_ok_def of_interest_again)
  then have "deliveries_ok s'"
    using assms(2) eff fewer by (fastforce simp: deliveries_ok_def intro: of_interest_fewer)
  moreover have "right_post (m_subscriptions s) (sub_destination sub, x)" if "map_of (m_subscriptions s) i = Some sub" for sub
    using map_of_SomeD[OF that] assms(3,4) by (fastforce simp: right_post_def of_interest_def)
  then have "right_posts s s'" using eff by (auto simp: right_posts_def)
  ultimately show ?thesis using eff fewer by simp
qed

lemma send_event_arrays_right:
  assumes "deliveries_ok s" and "\<forall>(i, x) \<in> set xs. ea_subscriber_id x = Some i \<and> of_interest (m_subscriptions s) x"
  shows "deliveries_ok (send_event_arrays env xs s) \<and> right_posts s (send_event_arrays env xs s)"
  using assms
proof (induction xs arbitrary: s)
  case Nil
  then show ?case by (simp add: right_posts_def)
next
  case (Cons p xs)
  obtain i x where p: "p = (i, x)" by (cases p)
  obtain r s1 where send: "send_event_array env i x s = (r, s1)" by fastforce
  have step: "deliveries_ok s1 \<and> right_posts s s1 \<and> set (m_subscriptions s1) \<subseteq> set (m_subscriptions s)"
    using send_event_array_right[OF send] Cons.prems p by simp
  then have "\<forall>(i, x) \<in> set xs. ea_subscriber_id x = Some i \<and> of_interest (m_subscriptions s1) x"
    using Cons.prems(2) by (fastforce intro: of_interest_fewer)
  then have "deliveries_ok (send_event_arrays env xs s1) \<and> right_posts s1 (send_event_arrays env xs s1)"
    using Cons.IH[of s1] step by simp
  then show ?case using step send p by (cases r) (auto intro: right_posts_trans)
qed

lemma selected_of_interest:
  assumes "selected_for x (m_subscriptions s) p" and "deliveries_ok s"
  shows "ea_subscriber_id (snd p) = Some (fst p) \<and> of_interest (m_subscriptions s) (snd p)"
proof -
  obtain i sub where sub: "(i, sub) \<in> set (m_subscriptions s)" "fst p = sub_id sub" "ea_subscriber_id (snd p) = Some (sub_id sub)"
    "ea_events (snd p) = filter (is_subscribed_for sub) (ea_events x)" "ea_events (snd p) \<noteq> []"
    using assms(1) by (auto simp: selected_for_def)
  have "sub_id sub = i" using sub(1) assms(2) by (fastforce simp: deliveries_ok_def)
  moreover have "sub' = sub" if "(i, sub') \<in> set (m_subscriptions s)" for sub'
    using eq_key_imp_eq_value[of "m_subscriptions s" i sub' sub] that sub(1) assms(2) by (simp add: deliveries_ok_def)
  ultimately have "\<forall>(j, sub') \<in> set (m_subscriptions s). j = sub_id sub \<longrightarrow> sub' = sub" by auto
  then show ?thesis using sub by (fastforce simp: of_interest_def)
qed

text \<open>
  C16: A subscriber gets what it asked for and nothing else: whatever the thread posts in a
  round goes to the destination of a subscription that exists, holds at least one event, and
  all its events are of a type and from a resource this subscription names - also when an
  array that waited for its repetition is sent. The state keeps what this rests on.
\<close>

theorem subscribers_get_only_theirs:
  assumes "deliveries_ok s"
  shows "deliveries_ok (handle_events_round env now s)
    \<and> (\<exists>ps. ev_posts (handle_events_round env now s) = ev_posts s @ ps
           \<and> (\<forall>p \<in> set ps. \<exists>(i, sub) \<in> set (m_subscriptions s). fst p = sub_destination sub \<and> ea_events (snd p) \<noteq> []
                 \<and> (\<forall>e \<in> set (ea_events (snd p)). is_subscribed_for sub e)))"
proof (cases "queue_take now (ev_queue s)")
  case (Pair y q)
  let ?s = "s\<lparr> ev_queue := q \<rparr>"
  note q = queue_take_members[OF Pair]
  have ok: "deliveries_ok ?s" using assms q by (auto simp: deliveries_ok_def)
  have "deliveries_ok (handle_events_round env now s) \<and> right_posts ?s (handle_events_round env now s)"
  proof (cases y)
    case None
    then show ?thesis using ok Pair by (simp add: handle_events_round_def right_posts_def)
  next
    case (Some x)
    then have round: "handle_events_round env now s = handle_event_array env x ?s" using Pair by (simp add: handle_events_round_def)
    show ?thesis
    proof (cases "ea_subscriber_id x")
      case None
      obtain xs l where sel: "select_events_for_subscribers x (m_subscriptions s) (event_array_id s) = (xs, l)" by fastforce
      let ?t = "?s\<lparr> event_array_id := l \<rparr>"
      have t: "deliveries_ok ?t" using ok by (simp add: deliveries_ok_def)
      have "\<forall>(i, y) \<in> set xs. ea_subscriber_id y = Some i \<and> of_interest (m_subscriptions ?t) y"
        using selections_selected[OF sel] selected_of_interest[OF _ t] by fastforce
      then have "deliveries_ok (send_event_arrays env xs ?t) \<and> right_posts ?t (send_event_arrays env xs ?t)"
        using send_event_arrays_right[OF t] by blast
      then show ?thesis using None sel round by (simp add: handle_event_array_def right_posts_def)
    next
      case (Some i)
      obtain r s' where send: "send_event_array env i x ?s = (r, s')" by fastforce
      have "of_interest (m_subscriptions ?s) x" using q \<open>y = Some x\<close> assms by (auto simp: deliveries_ok_def)
      then show ?thesis using send_event_array_right[OF send ok Some] Some send round by (simp add: handle_event_array_def)
    qed
  qed
  then show ?thesis by (simp add: right_posts_def right_post_def)
qed

text \<open>A subscriber that cannot be reached, with two tries for each array.\<close>

definition unreachable_env :: "int event_env" where
  "unreachable_env = \<lparr> delivery_retry_attempts = 2, delivery_retry_interval = 60, ev_steady_clock = (\<lambda>w. w), ev_file_clock = (\<lambda>w. w),
     ev_location = ''/db'', ev_dump = (\<lambda>j. ''json''), ev_parse = (\<lambda>t. None), ev_post = (\<lambda>d x w. (PostFailed, w + 1)) \<rparr>"

definition one_subscriber :: "int event_state" where
  "one_subscriber = \<lparr> m_subscriptions = [(1, \<lparr> sub_id = 1, sub_name = ''n'', sub_destination = ''http://h'', sub_context = ''c'',
       sub_protocol = Redfish, sub_event_types = [ResourceAdded], sub_origin_resources = [] \<rparr>)],
     m_last_subscription = 1, sub_files = [], ev_queue = [(0, new_event_array [(ResourceAdded, ''/a''), (Alert, ''/a'')])],
     event_array_id = 1, ev_posts = [], ev_world = 0 \<rparr>"

theorem event_queue_drains_witness: "ev_queue (event_rounds unreachable_env [0, 100] one_subscriber) = []"
proof (rule event_queue_drains)
  show "retries_ok unreachable_env (ev_queue one_subscriber)" by code_simp
  show "always_due unreachable_env [0, 100] one_subscriber" by code_simp
  show "(\<Sum>x\<leftarrow>ev_queue one_subscriber. array_rounds unreachable_env (length (m_subscriptions one_subscriber)) (snd x)) \<le> length [0, 100 :: int]"
    by code_simp
qed

theorem subscription_add_fresh_witness:
  "length (m_subscriptions one_subscriber) < 2 ^ 64 - 1
   \<and> (\<exists>i s'. subscription_add unreachable_env (snd (hd (m_subscriptions one_subscriber))) one_subscriber = Some (i, s')
        \<and> fst (subscription_get 1 s') = fst (subscription_get 1 one_subscriber))"
proof -
  have n: "length (m_subscriptions one_subscriber) < 2 ^ 64 - 1" by (simp add: one_subscriber_def)
  have one: "fst (subscription_get 1 one_subscriber) \<noteq> Inl (NotFound 1)" by (simp add: one_subscriber_def subscription_get_def)
  obtain i s' where add: "subscription_add unreachable_env (snd (hd (m_subscriptions one_subscriber))) one_subscriber = Some (i, s')"
    "fst (subscription_get i one_subscriber) = Inl (NotFound i)"
    "\<forall>j. j \<noteq> i \<longrightarrow> fst (subscription_get j s') = fst (subscription_get j one_subscriber)"
    using subscription_add_fresh[OF n, of unreachable_env "snd (hd (m_subscriptions one_subscriber))"] by blast
  then have "1 \<noteq> i" using one by auto
  then show ?thesis using n add by blast
qed

theorem subscribers_get_only_theirs_witness:
  "deliveries_ok one_subscriber \<and> map fst (ev_posts (handle_events_round unreachable_env 0 one_subscriber)) = [''http://h'']
   \<and> deliveries_ok (handle_events_round unreachable_env 0 one_subscriber)"
proof -
  have ok: "deliveries_ok one_subscriber" by code_simp
  moreover have "map fst (ev_posts (handle_events_round unreachable_env 0 one_subscriber)) = [''http://h'']" by code_simp
  ultimately show ?thesis using subscribers_get_only_theirs[OF ok, of unreachable_env 0] by blast
qed

end
