(* ===== verification/Subscription_Store.thy ===== *)
theory Subscription_Store
  imports Event_Service
begin

text \<open>
  The start of the subscription manager (\<open>SubscriptionManager::SubscriptionManager\<close>), which reads the
  subscriptions back from the file database, and what it finds there after the manager has run.
\<close>

subsection \<open>Loading\<close>

text \<open>
  How the constructor can fail: a file of the database whose name is not a number makes \<open>next\<close>
  throw, outside the handler of the loop; a document without a member the code reads is not defined.
\<close>

datatype load_error = BadName number_error | UndefinedMember

definition subscription_key :: "string \<Rightarrow> u64 option" where
  "subscription_key n = (case id_value_unserialize n of Inr r \<Rightarrow> r | Inl _ \<Rightarrow> None)"

definition listed_names :: "fdb \<Rightarrow> files \<Rightarrow> string list" where
  "listed_names db fs = filter (\<lambda>n. n \<noteq> []) (map (strip_name db) (dir_names db fs))"

definition name_errors :: "string list \<Rightarrow> number_error list" where
  "name_errors ns = concat (map (\<lambda>n. case id_value_unserialize n of Inl e \<Rightarrow> [e] | Inr _ \<Rightarrow> []) ns)"

definition subscription_from_text :: "'w event_env \<Rightarrow> string \<Rightarrow> subscription read" where
  "subscription_from_text env content =
     (case ev_parse env content of None \<Rightarrow> Inl JsonThrows | Some doc \<Rightarrow> subscription_from_json (\<lambda>_. True) False doc)"

text \<open>One round of the loop: an entry that cannot be read is removed from the database.\<close>

definition load_entry :: "'w event_env \<Rightarrow> u64 \<Rightarrow> string \<Rightarrow> 'w event_state \<Rightarrow> load_error + 'w event_state" where
  "load_entry env i content s =
     (case subscription_from_text env content of
        Inr sub \<Rightarrow>
          Inr (s\<lparr> m_subscriptions := sub_put i (sub\<lparr> sub_id := i \<rparr>) (m_subscriptions s),
                 sub_files := snd (fdb_put (ev_file_clock env (ev_world s)) (subscription_db env) (id_value_serialize i) content (sub_files s)),
                 m_last_subscription := (if m_last_subscription s < i then i else m_last_subscription s) \<rparr>)
      | Inl NoSuchMember \<Rightarrow> Inl UndefinedMember
      | Inl _ \<Rightarrow> Inr (s\<lparr> sub_files := snd (fdb_remove (subscription_db env) (id_value_serialize i) (sub_files s)) \<rparr>))"

function load_subscriptions :: "'w event_env \<Rightarrow> fdb \<Rightarrow> 'w event_state \<Rightarrow> load_error + 'w event_state" where
  "load_subscriptions env db s =
     (case fdb_next subscription_key string_value_unserialize (sub_files s) db of
        (None, db') \<Rightarrow> Inr s
      | (Some (i, content), db') \<Rightarrow>
          (case load_entry env i content s of Inl e \<Rightarrow> Inl e | Inr s' \<Rightarrow> load_subscriptions env db' s'))"
  by pat_completeness auto
termination
proof (relation "measure (\<lambda>(env, db, s).
    if iterating_state db = STARTED then length (foreach_names db subscription_key (sub_files s)) else length (iterated_files db))", goal_cases)
  case 1
  then show ?case by simp
next
  case (2 env db s x db' y i content s')
  then show ?case
    by (auto simp: fdb_next_def Let_def split: if_splits prod.splits option.splits dest: next_entry_shorter)
qed

declare load_subscriptions.simps [simp del]

definition subscription_manager_new :: "'w event_env \<Rightarrow> files \<Rightarrow> 'w \<Rightarrow> load_error + 'w event_state" where
  "subscription_manager_new env fs w =
     (let db = snd (fdb_start (subscription_db env))
      in case name_errors (listed_names db fs) of
           e # _ \<Rightarrow> Inl (BadName e)
         | [] \<Rightarrow> load_subscriptions env db
                 \<lparr> m_subscriptions = [], m_last_subscription = 0, sub_files = fs, ev_queue = [], event_array_id = 1,
                   ev_posts = [], ev_world = w \<rparr>)"

subsection \<open>The loop as a recursion over the names\<close>

fun load_names :: "'w event_env \<Rightarrow> string list \<Rightarrow> 'w event_state \<Rightarrow> load_error + 'w event_state" where
  "load_names env [] s = Inr s"
| "load_names env (n # ns) s =
     (case read_file (full_name (subscription_db env) n) (sub_files s) of
        None \<Rightarrow> load_names env ns s
      | Some content \<Rightarrow> (case load_entry env (the (subscription_key n)) content s of Inl e \<Rightarrow> Inl e | Inr s' \<Rightarrow> load_names env ns s'))"

lemma next_entry_load:
  assumes "next_entry db subscription_key string_value_unserialize (sub_files s) ns = (r, ns')"
    and "full_name db = full_name (subscription_db env)"
  shows "load_names env ns s =
    (case r of None \<Rightarrow> Inr s
     | Some (i, content) \<Rightarrow> (case load_entry env i content s of Inl e \<Rightarrow> Inl e | Inr s' \<Rightarrow> load_names env ns' s'))"
  using assms by (induction ns) (auto simp: string_value_unserialize_def split: option.splits)

lemma load_iterating_names:
  assumes "iterating_state db = ITERATE" and "full_name db = full_name (subscription_db env)"
  shows "load_subscriptions env db s = load_names env (iterated_files db) s"
  using assms
proof (induction env db s rule: load_subscriptions.induct)
  case (1 env db s)
  obtain r ns where ne: "next_entry db subscription_key string_value_unserialize (sub_files s) (iterated_files db) = (r, ns)"
    by fastforce
  note names = next_entry_load[OF ne "1.prems"(2)]
  show ?case
  proof (cases r)
    case None
    then show ?thesis using ne names "1.prems"(1) by (subst load_subscriptions.simps) (simp add: fdb_next_def Let_def)
  next
    case (Some p)
    obtain i content where p: "p = (i, content)" by (cases p)
    let ?db = "db\<lparr> iterating_state := ITERATE, iterated_files := ns \<rparr>"
    have nx: "fdb_next subscription_key string_value_unserialize (sub_files s) db = (Some (i, content), ?db)"
      using ne Some p "1.prems"(1) by (simp add: fdb_next_def Let_def)
    have "load_subscriptions env ?db s' = load_names env ns s'" if "load_entry env i content s = Inr s'" for s'
      using "1.IH"[OF nx[symmetric] refl refl that] "1.prems"(2) by simp
    then show ?thesis using names nx Some p by (subst load_subscriptions.simps) (auto split: sum.split)
  qed
qed

lemma load_started_names:
  assumes "iterating_state db = STARTED" and "full_name db = full_name (subscription_db env)"
  shows "load_subscriptions env db s = load_names env (foreach_names db subscription_key (sub_files s)) s"
proof -
  obtain r ns where ne: "next_entry db subscription_key string_value_unserialize (sub_files s) (foreach_names db subscription_key (sub_files s)) = (r, ns)"
    by fastforce
  let ?db = "db\<lparr> iterating_state := ITERATE, iterated_files := ns \<rparr>"
  have "load_subscriptions env ?db s' = load_names env ns s'" for s'
    using load_iterating_names[of ?db env s'] assms(2) by simp
  then show ?thesis
    using ne next_entry_load[OF ne assms(2)] assms(1)
    by (subst load_subscriptions.simps) (auto simp: fdb_next_def Let_def split: option.split sum.split)
qed

subsection \<open>What the files hold\<close>

text \<open>
  The files agree with the subscriptions when every subscription has its file, with a text
  that fits and reads back as the document written, and no other name is listed. No number is above the counter.
\<close>

definition text_ok :: "'w event_env \<Rightarrow> subscription \<Rightarrow> bool" where
  "text_ok env sub \<longleftrightarrow>
     length (ev_dump env (subscription_to_json sub)) < VALUE_LENGTH
     \<and> ev_parse env (ev_dump env (subscription_to_json sub)) = Some (subscription_to_json sub)"

abbreviation sub_file :: "'w event_env \<Rightarrow> u64 \<Rightarrow> files \<Rightarrow> string option" where
  "sub_file env i fs \<equiv> read_file (full_name (subscription_db env) (id_value_serialize i)) fs"

definition files_hold :: "'w event_env \<Rightarrow> (u64 \<rightharpoonup> subscription) \<Rightarrow> files \<Rightarrow> bool" where
  "files_hold env subs fs \<longleftrightarrow>
     (\<forall>i sub. subs i = Some sub \<longrightarrow> i \<noteq> 0 \<and> sub_id sub = i \<and> text_ok env sub
        \<and> sub_file env i fs = Some (ev_dump env (subscription_to_json sub)))
     \<and> (\<forall>n \<in> set (listed_names (subscription_db env) fs). \<exists>i \<in> dom subs. n = id_value_serialize i)"

definition stored_ok :: "'w event_env \<Rightarrow> 'w event_state \<Rightarrow> bool" where
  "stored_ok env s \<longleftrightarrow>
     files_hold env (map_of (m_subscriptions s)) (sub_files s)
     \<and> (\<forall>i \<in> fst ` set (m_subscriptions s). i \<le> m_last_subscription s)"

lemma to_json_number [simp]: "subscription_to_json (sub\<lparr> sub_id := i \<rparr>) = subscription_to_json sub"
  by (simp add: subscription_to_json_def)

lemma text_ok_number [simp]: "text_ok env (sub\<lparr> sub_id := i \<rparr>) = text_ok env sub"
  by (simp add: text_ok_def)

lemma name_ok_number: "i \<noteq> 0 \<Longrightarrow> name_ok (id_value_serialize i)"
proof -
  have "\<not> is_digit (CHR ''/'')" "\<not> is_digit (CHR '':'')" by (simp_all add: is_digit_def)
  then have "CHR ''/'' \<noteq> digit_char d" "CHR '':'' \<noteq> digit_char d" if "d < 10" for d
    using that digit_char_simps(1)[OF that] by auto
  then have "CHR ''/'' \<notin> set (to_string (unat i))" "CHR '':'' \<notin> set (to_string (unat i))"
    using to_string_digits[of "unat i"] by blast+
  then show "i \<noteq> 0 \<Longrightarrow> name_ok (id_value_serialize i)" by (simp add: name_ok_def id_value_serialize_def)
qed

lemma subscription_key_number [simp]: "subscription_key (id_value_serialize i) = (if i = 0 then None else Some i)"
  by (simp add: subscription_key_def id_value_back)

lemma serialize_inj: "\<lbrakk>i \<noteq> 0; j \<noteq> 0\<rbrakk> \<Longrightarrow> id_value_serialize i = id_value_serialize j \<longleftrightarrow> i = j"
  by (metis option.inject subscription_key_number)

lemma sub_file_get: "sub_file env j fs = fdb_get (subscription_db env) (id_value_serialize j) Some fs"
  by (simp add: fdb_get_def split: option.split)

lemma sub_file_put:
  assumes "i \<noteq> 0" and "j \<noteq> 0" and "length content < VALUE_LENGTH"
  shows "sub_file env j (snd (fdb_put now (subscription_db env) (id_value_serialize i) content fs))
    = (if j = i then Some content else sub_file env j fs)"
  unfolding sub_file_get fdb_get_put[OF name_ok_number[OF assms(1)] assms(3)] using serialize_inj[OF assms(2,1)] by simp

lemma sub_file_remove:
  assumes "i \<noteq> 0" and "j \<noteq> 0"
  shows "sub_file env j (snd (fdb_remove (subscription_db env) (id_value_serialize i) fs))
    = (if j = i then None else sub_file env j fs)"
  unfolding sub_file_get fdb_get_remove[OF name_ok_number[OF assms(1)]] using serialize_inj[OF assms(2,1)] by simp

subsection \<open>The names listed\<close>

definition entry_path :: "fdb \<Rightarrow> string \<Rightarrow> string" where
  "entry_path db n = fdb_path db @ ''/'' @ name_prefix db @ n @ EXT"

lemma strip_nameD: "strip_name db d = n \<Longrightarrow> n \<noteq> [] \<Longrightarrow> d = name_prefix db @ n @ EXT"
proof (cases "fdb_name db = []")
  case True
  assume "strip_name db d = n" "n \<noteq> []"
  then have "drop (length d - length EXT) d = EXT" "take (length d - length EXT) d = n"
    using True by (auto simp: strip_name_def Let_def split: if_splits)
  then show ?thesis using True by (metis append_Nil append_take_drop_id name_prefix_def)
next
  case False
  let ?r = "drop (Suc (length (fdb_name db))) d"
  assume n: "strip_name db d = n" "n \<noteq> []"
  then have "take (length (fdb_name db)) d = fdb_name db" "take 1 (drop (length (fdb_name db)) d) = ''.''"
    "drop (length ?r - length EXT) ?r = EXT" "take (length ?r - length EXT) ?r = n"
    using False by (auto simp: strip_name_def Let_def split: if_splits)
  then have "?r = n @ EXT" "d = fdb_name db @ ''.'' @ ?r"
    by (metis append_take_drop_id, metis append.assoc append_take_drop_id drop_drop plus_1_eq_Suc)
  then show ?thesis using False by (simp add: name_prefix_def)
qed

lemma set_dir_names: "d \<in> set (dir_names db fs) \<longleftrightarrow> CHR ''/'' \<notin> set d \<and> fdb_path db @ ''/'' @ d \<in> fst ` set fs"
proof -
  define p where "p = fdb_path db @ ''/''"
  have dirs: "set (dir_names db fs) = drop (length p) ` {f \<in> fst ` set fs. take (length p) f = p \<and> CHR ''/'' \<notin> set (drop (length p) f)}"
    unfolding dir_names_def Let_def p_def[symmetric] by auto
  have "d \<in> set (dir_names db fs) \<longleftrightarrow> CHR ''/'' \<notin> set d \<and> p @ d \<in> fst ` set fs"
  proof
    assume "d \<in> set (dir_names db fs)"
    then obtain f where "f \<in> fst ` set fs" "take (length p) f = p" "drop (length p) f = d" "CHR ''/'' \<notin> set d"
      unfolding dirs by blast
    then show "CHR ''/'' \<notin> set d \<and> p @ d \<in> fst ` set fs" by (metis append_take_drop_id)
  next
    assume "CHR ''/'' \<notin> set d \<and> p @ d \<in> fst ` set fs"
    then show "d \<in> set (dir_names db fs)" unfolding dirs by (intro image_eqI[where x = "p @ d"]) simp_all
  qed
  then show ?thesis by (simp add: p_def)
qed

lemma set_listed_names:
  assumes "CHR ''/'' \<notin> set (fdb_name db)"
  shows "n \<in> set (listed_names db fs) \<longleftrightarrow> n \<noteq> [] \<and> CHR ''/'' \<notin> set n \<and> entry_path db n \<in> fst ` set fs"
proof -
  let ?d = "name_prefix db @ n @ EXT"
  have "n \<in> set (listed_names db fs) \<longleftrightarrow> n \<noteq> [] \<and> ?d \<in> set (dir_names db fs)"
  proof
    assume "n \<in> set (listed_names db fs)"
    then obtain d where "d \<in> set (dir_names db fs)" "strip_name db d = n" "n \<noteq> []" by (auto simp: listed_names_def)
    then show "n \<noteq> [] \<and> ?d \<in> set (dir_names db fs)" using strip_nameD[of db d n] by simp
  next
    assume "n \<noteq> [] \<and> ?d \<in> set (dir_names db fs)"
    then have "n \<noteq> []" "n \<in> strip_name db ` set (dir_names db fs)"
      using imageI[of ?d "set (dir_names db fs)" "strip_name db"] strip_name_prefixed[of db n] by metis+
    then show "n \<in> set (listed_names db fs)" by (simp add: listed_names_def)
  qed
  also have "?d \<in> set (dir_names db fs) \<longleftrightarrow> CHR ''/'' \<notin> set ?d \<and> fdb_path db @ ''/'' @ ?d \<in> fst ` set fs"
    by (rule set_dir_names)
  also have "CHR ''/'' \<notin> set ?d \<longleftrightarrow> CHR ''/'' \<notin> set n" using assms by (auto simp: name_prefix_def EXT_def)
  finally show ?thesis by (auto simp: entry_path_def)
qed

lemma subscription_db_name: "CHR ''/'' \<notin> set (fdb_name (subscription_db env))"
  by (simp add: subscription_db_def fdb_create_def)

lemmas listed = set_listed_names[OF subscription_db_name]

lemma full_name_number: "i \<noteq> 0 \<Longrightarrow> full_name db (id_value_serialize i) = entry_path db (id_value_serialize i)"
  by (simp add: full_name_ok name_ok_number entry_path_def)

lemma entry_path_inj: "entry_path db m = entry_path db n \<longleftrightarrow> m = n"
  by (simp add: entry_path_def)

lemma listed_put:
  assumes "i \<noteq> 0"
  shows "set (listed_names (subscription_db env) (snd (fdb_put now (subscription_db env) (id_value_serialize i) content fs)))
    = insert (id_value_serialize i) (set (listed_names (subscription_db env) fs))"
proof -
  have "id_value_serialize i \<noteq> []" "CHR ''/'' \<notin> set (id_value_serialize i)"
    using name_ok_number[OF assms] by (auto simp: name_ok_def)
  then show ?thesis
    using full_name_number[OF assms, of "subscription_db env"] name_ok_number[OF assms] full_name_Nil[of "subscription_db env" "id_value_serialize i"]
    by (auto simp: listed fdb_put_def save_file_def set_file_names entry_path_inj)
qed

lemma listed_remove:
  assumes "i \<noteq> 0"
  shows "set (listed_names (subscription_db env) (snd (fdb_remove (subscription_db env) (id_value_serialize i) fs)))
    = set (listed_names (subscription_db env) fs) - {id_value_serialize i}"
proof -
  have "fst ` set (snd (fdb_remove (subscription_db env) (id_value_serialize i) fs))
      = fst ` set fs - {entry_path (subscription_db env) (id_value_serialize i)}"
    using name_ok_number[OF assms] full_name_number[OF assms, of "subscription_db env"]
    by (auto simp: fdb_remove_def remove_file_def entry_path_def image_iff)
  then show ?thesis by (auto simp: listed entry_path_inj)
qed

subsection \<open>Operations keep the files in agreement\<close>

lemma files_hold_put:
  assumes "files_hold env subs fs" and "i \<noteq> 0" and "sub_id sub = i" and "text_ok env sub"
  shows "files_hold env (subs(i \<mapsto> sub))
    (snd (fdb_put now (subscription_db env) (id_value_serialize i) (ev_dump env (subscription_to_json sub)) fs))"
proof -
  have "length (ev_dump env (subscription_to_json sub)) < VALUE_LENGTH" using assms(4) by (simp add: text_ok_def)
  then show ?thesis
    using assms unfolding files_hold_def listed_put[OF assms(2)] by (auto simp: sub_file_put)
qed

lemma files_hold_remove:
  assumes "files_hold env subs fs" and "subs i \<noteq> None"
  shows "files_hold env (subs(i := None)) (snd (fdb_remove (subscription_db env) (id_value_serialize i) fs))"
proof -
  have i: "i \<noteq> 0" using assms by (auto simp: files_hold_def)
  have "\<exists>j \<in> dom (subs(i := None)). n = id_value_serialize j"
    if "n \<in> set (listed_names (subscription_db env) fs) - {id_value_serialize i}" for n
    using assms(1) that by (fastforce simp: files_hold_def)
  then show ?thesis
    using assms(1) i unfolding files_hold_def listed_remove[OF i] by (simp add: sub_file_remove)
qed

lemma next_number:
  assumes "\<forall>i \<in> used. i \<le> last_id" and "unat last_id < 2 ^ 64 - 1"
  shows "next_subscription_id (Suc n) used last_id = Some (last_id + 1) \<and> unat (last_id + 1) = Suc (unat last_id)"
proof -
  have u: "unat (last_id + 1) = Suc (unat last_id)" using assms(2) by (simp add: unat_word_ariths)
  then have "last_id < last_id + 1" by (simp add: word_less_nat_alt)
  then have "last_id + 1 \<notin> used" using assms(1) by (auto dest!: bspec)
  then show ?thesis using u by simp
qed

lemma stored_ok_add:
  assumes "stored_ok env s" and "unat (m_last_subscription s) < 2 ^ 64 - 1" and "text_ok env sub"
  shows "\<exists>i s'. subscription_add env sub s = Some (i, s') \<and> stored_ok env s' \<and> unat (m_last_subscription s') = Suc (unat (m_last_subscription s))"
proof -
  let ?i = "m_last_subscription s + 1"
  note nx = next_number[of "fst ` set (m_subscriptions s)" "m_last_subscription s" "length (m_subscriptions s)"]
  have new: "next_subscription_id (Suc (length (m_subscriptions s))) (fst ` set (m_subscriptions s)) (m_last_subscription s) = Some ?i"
    and u: "unat ?i = Suc (unat (m_last_subscription s))"
    using nx assms(1,2) by (auto simp: stored_ok_def simp del: next_subscription_id.simps)
  have i: "?i \<noteq> 0" using u by auto
  have le: "m_last_subscription s \<le> ?i" using u by (simp add: word_le_nat_alt)
  obtain s' where add: "subscription_add env sub s = Some (?i, s')" using new by (simp add: subscription_add_def Let_def)
  then have s': "m_subscriptions s' = sub_put ?i (sub\<lparr> sub_id := ?i \<rparr>) (m_subscriptions s)" "m_last_subscription s' = ?i"
    "sub_files s' = snd (fdb_put (ev_file_clock env (ev_world s)) (subscription_db env) (id_value_serialize ?i) (ev_dump env (subscription_to_json sub)) (sub_files s))"
    using new by (auto simp: subscription_add_def Let_def)
  have "files_hold env (map_of (m_subscriptions s')) (sub_files s')"
    using files_hold_put[of env "map_of (m_subscriptions s)" "sub_files s" ?i "sub\<lparr> sub_id := ?i \<rparr>"] assms(1,3) i
    by (simp add: s' map_of_sub_put stored_ok_def)
  moreover have "\<forall>j \<in> fst ` set (m_subscriptions s'). j \<le> ?i"
    using assms(1) le by (auto simp: s' sub_put_def set_insort_key stored_ok_def)
  ultimately show ?thesis using add u by (auto simp: stored_ok_def s'(2))
qed

lemma stored_ok_del:
  assumes "stored_ok env s"
  shows "stored_ok env (snd (subscription_del env i s)) \<and> m_last_subscription (snd (subscription_del env i s)) = m_last_subscription s"
  using assms files_hold_remove[of env "map_of (m_subscriptions s)" "sub_files s" i]
  by (auto simp: subscription_del_def stored_ok_def map_of_filter_key)

subsection \<open>What loading gives\<close>

lemma from_text_back: "text_ok env sub \<Longrightarrow> subscription_from_text env (ev_dump env (subscription_to_json sub)) = Inr (sub\<lparr> sub_id := 0 \<rparr>)"
  by (simp add: subscription_from_text_def text_ok_def subscription_json_back)

lemma load_entry_stored:
  assumes "files_hold env subs (sub_files s)" and "subs i = Some sub"
  shows "\<exists>s'. load_entry env i (ev_dump env (subscription_to_json sub)) s = Inr s' \<and> files_hold env subs (sub_files s')
    \<and> map_of (m_subscriptions s') = (map_of (m_subscriptions s))(i \<mapsto> sub)
    \<and> m_last_subscription s' = max i (m_last_subscription s)"
proof -
  have i: "i \<noteq> 0" "sub_id sub = i" "text_ok env sub" using assms by (auto simp: files_hold_def)
  have "files_hold env (subs(i \<mapsto> sub)) (snd (fdb_put (ev_file_clock env (ev_world s)) (subscription_db env) (id_value_serialize i)
      (ev_dump env (subscription_to_json sub)) (sub_files s)))"
    by (rule files_hold_put[OF assms(1) i])
  moreover have "subs(i \<mapsto> sub) = subs" using assms(2) by auto
  moreover have "sub\<lparr> sub_id := i \<rparr> = sub" using i(2) by (cases sub) simp
  moreover have "(if m_last_subscription s < i then i else m_last_subscription s) = max i (m_last_subscription s)" by (auto simp: max_def)
  ultimately show ?thesis by (simp add: load_entry_def from_text_back[OF i(3)] map_of_sub_put)
qed

lemma load_names_stored:
  assumes "files_hold env subs (sub_files s)" and "\<forall>n \<in> set ns. \<exists>i \<in> dom subs. n = id_value_serialize i"
  shows "\<exists>s'. load_names env ns s = Inr s' \<and> files_hold env subs (sub_files s')
    \<and> (\<forall>i. map_of (m_subscriptions s') i = (if i \<in> dom subs \<and> id_value_serialize i \<in> set ns then subs i else map_of (m_subscriptions s) i))
    \<and> m_last_subscription s \<le> m_last_subscription s'
    \<and> (\<forall>i \<in> dom subs. id_value_serialize i \<in> set ns \<longrightarrow> i \<le> m_last_subscription s')"
  using assms
proof (induction ns arbitrary: s)
  case (Cons n ns)
  obtain i sub where i: "subs i = Some sub" "n = id_value_serialize i" using Cons.prems(2) by auto
  have nz: "j \<noteq> 0" if "j \<in> dom subs" for j using Cons.prems(1) that by (auto simp: files_hold_def)
  have stored: "sub_file env i (sub_files s) = Some (ev_dump env (subscription_to_json sub))"
    using Cons.prems(1) i(1) by (auto simp: files_hold_def)
  obtain s1 where s1: "load_entry env i (ev_dump env (subscription_to_json sub)) s = Inr s1" "files_hold env subs (sub_files s1)"
    "map_of (m_subscriptions s1) = (map_of (m_subscriptions s))(i \<mapsto> sub)" "m_last_subscription s1 = max i (m_last_subscription s)"
    using load_entry_stored[OF Cons.prems(1) i(1)] by blast
  obtain s' where s': "load_names env ns s1 = Inr s'" "files_hold env subs (sub_files s')"
    "\<forall>j. map_of (m_subscriptions s') j = (if j \<in> dom subs \<and> id_value_serialize j \<in> set ns then subs j else map_of (m_subscriptions s1) j)"
    "m_last_subscription s1 \<le> m_last_subscription s'" "\<forall>j \<in> dom subs. id_value_serialize j \<in> set ns \<longrightarrow> j \<le> m_last_subscription s'"
    using Cons.IH[OF s1(2)] Cons.prems(2) by auto
  have eq: "id_value_serialize j = n \<longleftrightarrow> j = i" if "j \<in> dom subs" for j
    using serialize_inj[of j i] nz that i by auto
  have "load_names env (n # ns) s = Inr s'" using s1(1) s'(1) i stored nz[of i] by auto
  moreover have "map_of (m_subscriptions s') j =
      (if j \<in> dom subs \<and> id_value_serialize j \<in> set (n # ns) then subs j else map_of (m_subscriptions s) j)" for j
    using s'(3) s1(3) i(1) eq[of j] by auto
  moreover have "m_last_subscription s \<le> m_last_subscription s'" "i \<le> m_last_subscription s'" using s1(4) s'(4) by auto
  moreover have "\<forall>j \<in> dom subs. id_value_serialize j \<in> set (n # ns) \<longrightarrow> j \<le> m_last_subscription s'"
    using s'(5) eq \<open>i \<le> m_last_subscription s'\<close> by auto
  ultimately show ?case using s'(2) by blast
qed simp

lemma name_errors_numbers: "\<forall>n \<in> set ns. subscription_key n \<noteq> None \<Longrightarrow> name_errors ns = []"
  by (induction ns) (auto simp: name_errors_def subscription_key_def split: sum.splits)

lemma foreach_names_listed: "foreach_names db unser fs = filter (\<lambda>n. unser n \<noteq> None) (listed_names db fs)"
  by (simp add: foreach_names_def listed_names_def conj_commute)

lemma strip_name_state: "strip_name (db\<lparr> iterating_state := st \<rparr>) = strip_name db"
proof
  fix d
  have "fdb_name (db\<lparr> iterating_state := st \<rparr>) = fdb_name db" by simp
  then show "strip_name (db\<lparr> iterating_state := st \<rparr>) d = strip_name db d" unfolding strip_name_def by (simp only:)
qed

lemma dir_names_state: "dir_names (db\<lparr> iterating_state := st \<rparr>) = dir_names db"
  by (simp add: dir_names_def fun_eq_iff)

lemma started_db:
  "iterating_state (snd (fdb_start (subscription_db env))) = STARTED"
  "full_name (snd (fdb_start (subscription_db env))) = full_name (subscription_db env)"
  "listed_names (snd (fdb_start (subscription_db env))) = listed_names (subscription_db env)"
proof -
  have "iterating_state (subscription_db env) = NOT_STARTED" by (simp add: subscription_db_def fdb_create_def)
  then have db: "snd (fdb_start (subscription_db env)) = (subscription_db env)\<lparr> iterating_state := STARTED \<rparr>" by (simp add: fdb_start_def)
  show "iterating_state (snd (fdb_start (subscription_db env))) = STARTED"
    "full_name (snd (fdb_start (subscription_db env))) = full_name (subscription_db env)" by (simp_all add: db)
  show "listed_names (snd (fdb_start (subscription_db env))) = listed_names (subscription_db env)"
    by (simp add: db listed_names_def strip_name_state dir_names_state fun_eq_iff)
qed

lemma new_manager_loads:
  assumes "files_hold env subs fs"
  shows "\<exists>s'. subscription_manager_new env fs w = Inr s' \<and> map_of (m_subscriptions s') = subs \<and> stored_ok env s'"
proof -
  let ?db = "snd (fdb_start (subscription_db env))" and ?ns = "listed_names (subscription_db env) fs"
  let ?s = "\<lparr> m_subscriptions = [], m_last_subscription = 0, sub_files = fs, ev_queue = [], event_array_id = 1, ev_posts = [], ev_world = w \<rparr>"
  have ns: "\<forall>n \<in> set ?ns. \<exists>i \<in> dom subs. n = id_value_serialize i" using assms by (simp add: files_hold_def)
  have nz: "i \<noteq> 0" if "i \<in> dom subs" for i using assms that by (auto simp: files_hold_def)
  have keys: "\<forall>n \<in> set ?ns. subscription_key n \<noteq> None" using ns nz by fastforce
  have all: "id_value_serialize i \<in> set ?ns" if "i \<in> dom subs" for i
  proof -
    have "sub_file env i fs \<noteq> None" using assms that by (auto simp: files_hold_def)
    then show ?thesis
      using foreach_names_readable[OF subscription_db_name, of env "id_value_serialize i" fs _ subscription_key] nz[OF that]
      by (auto simp: foreach_names_listed)
  qed
  have "subscription_manager_new env fs w = load_names env ?ns ?s"
    using keys by (simp add: subscription_manager_new_def started_db name_errors_numbers load_started_names foreach_names_listed filter_True)
  moreover obtain s' where s': "load_names env ?ns ?s = Inr s'" "files_hold env subs (sub_files s')"
    "\<forall>i. map_of (m_subscriptions s') i = (if i \<in> dom subs \<and> id_value_serialize i \<in> set ?ns then subs i else None)"
    "\<forall>i \<in> dom subs. id_value_serialize i \<in> set ?ns \<longrightarrow> i \<le> m_last_subscription s'"
    using load_names_stored[of env subs ?s ?ns] assms ns by auto
  moreover have "map_of (m_subscriptions s') = subs" 
  proof
    fix i
    show "map_of (m_subscriptions s') i = subs i" using s'(3) all[of i] by (cases "subs i") (simp_all add: domIff)
  qed
  moreover from this have "\<forall>i \<in> fst ` set (m_subscriptions s'). i \<le> m_last_subscription s'"
    using s'(4) all by (metis dom_map_of_conv_image_fst)
  ultimately show ?thesis by (auto simp: stored_ok_def)
qed

subsection \<open>Restarts\<close>

datatype subscription_op = AddSubscription subscription | DeleteSubscription u64

fun run_subscription_op :: "'w event_env \<Rightarrow> subscription_op \<Rightarrow> 'w event_state \<Rightarrow> 'w event_state" where
  "run_subscription_op env (AddSubscription sub) s = (case subscription_add env sub s of Some (_, s') \<Rightarrow> s' | None \<Rightarrow> s)"
| "run_subscription_op env (DeleteSubscription i) s = snd (subscription_del env i s)"

lemma same_get:
  "map_of (m_subscriptions s') = map_of (m_subscriptions s) \<Longrightarrow> fst (subscription_get i s') = fst (subscription_get i s)"
  by (simp add: subscription_get_def split: option.split)

lemma stored_ok_ops:
  assumes "stored_ok env s" and "unat (m_last_subscription s) + length ops < 2 ^ 64"
    and "\<forall>sub. AddSubscription sub \<in> set ops \<longrightarrow> text_ok env sub"
  shows "stored_ok env (fold (run_subscription_op env) ops s)"
  using assms
proof (induction ops arbitrary: s)
  case (Cons p ops)
  have "stored_ok env (run_subscription_op env p s)
      \<and> unat (m_last_subscription (run_subscription_op env p s)) \<le> Suc (unat (m_last_subscription s))"
  proof (cases p)
    case (AddSubscription sub)
    then show ?thesis using stored_ok_add[of env s sub] Cons.prems by auto
  next
    case (DeleteSubscription i)
    then show ?thesis using stored_ok_del[of env s i] Cons.prems(1) by simp
  qed
  then show ?case using Cons.IH[of "run_subscription_op env p s"] Cons.prems(2,3) by simp
qed simp

text \<open>
  C17: Subscriptions survive a restart. After any sequence of additions and deletions, a new
  manager finds under every number exactly what the old one had: it returns, its constructor
  does not throw, and its files and its counter are again in order, so that the same holds after the next
  restart. What is required of the JSON library is that it reads the documents of the
  subscriptions added as they were written; they must fit into a value of the
  database, and the numbers must not wrap around.
\<close>

theorem subscriptions_survive_restart:
  assumes "stored_ok env s" and "unat (m_last_subscription s) + length ops < 2 ^ 64"
    and "\<forall>sub. AddSubscription sub \<in> set ops \<longrightarrow> text_ok env sub"
  shows "\<exists>s'. subscription_manager_new env (sub_files (fold (run_subscription_op env) ops s)) w = Inr s'
    \<and> (\<forall>i. fst (subscription_get i s') = fst (subscription_get i (fold (run_subscription_op env) ops s))) \<and> stored_ok env s'"
proof -
  let ?s = "fold (run_subscription_op env) ops s"
  have hold: "files_hold env (map_of (m_subscriptions ?s)) (sub_files ?s)"
    using stored_ok_ops[OF assms] by (simp add: stored_ok_def)
  obtain s' where "subscription_manager_new env (sub_files ?s) w = Inr s'"
    "map_of (m_subscriptions s') = map_of (m_subscriptions ?s)" "stored_ok env s'"
    using new_manager_loads[OF hold, of w] by blast
  moreover from this(2) have "\<forall>i. fst (subscription_get i s') = fst (subscription_get i ?s)" by (intro allI same_get)
  ultimately show ?thesis by blast
qed

text \<open>A library that can print and read one document, and an empty directory.\<close>

definition sample_subscription :: subscription where
  "sample_subscription = snd (hd (m_subscriptions one_subscriber))"

definition store_env :: "int event_env" where
  "store_env = unreachable_env\<lparr> ev_dump := (\<lambda>j. if j = subscription_to_json sample_subscription then ''one'' else ''other''),
     ev_parse := (\<lambda>t. if t = ''one'' then Some (subscription_to_json sample_subscription) else None) \<rparr>"

definition empty_store :: "int event_state" where
  "empty_store = one_subscriber\<lparr> m_subscriptions := [], m_last_subscription := 0, ev_queue := [] \<rparr>"

theorem subscriptions_survive_restart_witness:
  "\<exists>s'. subscription_manager_new store_env (sub_files (fold (run_subscription_op store_env)
       [AddSubscription sample_subscription, AddSubscription sample_subscription, DeleteSubscription 1] empty_store)) 0 = Inr s'
     \<and> fst (subscription_get 2 s') = Inr (sample_subscription\<lparr> sub_id := 2 \<rparr>) \<and> fst (subscription_get 1 s') = Inl (NotFound 1)"
proof -
  let ?ops = "[AddSubscription sample_subscription, AddSubscription sample_subscription, DeleteSubscription 1]"
  have "stored_ok store_env empty_store" by (simp add: stored_ok_def files_hold_def empty_store_def one_subscriber_def listed)
  moreover have "unat (m_last_subscription empty_store) + length ?ops < 2 ^ 64" by (simp add: empty_store_def)
  moreover have "\<forall>sub. AddSubscription sub \<in> set ?ops \<longrightarrow> text_ok store_env sub" by (simp add: text_ok_def store_env_def VALUE_LENGTH_def)
  ultimately obtain s' where "subscription_manager_new store_env (sub_files (fold (run_subscription_op store_env) ?ops empty_store)) 0 = Inr s'"
    "\<forall>i. fst (subscription_get i s') = fst (subscription_get i (fold (run_subscription_op store_env) ?ops empty_store))"
    using subscriptions_survive_restart[of store_env empty_store ?ops 0] by blast
  moreover have "fst (subscription_get 2 (fold (run_subscription_op store_env) ?ops empty_store)) = Inr (sample_subscription\<lparr> sub_id := 2 \<rparr>)"
    by code_simp
  moreover have "fst (subscription_get 1 (fold (run_subscription_op store_env) ?ops empty_store)) = Inl (NotFound 1)" by code_simp
  ultimately show ?thesis by auto
qed

subsection \<open>A file with another name\<close>

text \<open>
  One file in the directory with the prefix of the database and a name that is not a
  number keeps the manager from starting: no subscription is loaded.
\<close>

lemma stray_file_stops_loading:
  assumes "n \<in> set (listed_names (subscription_db env) fs)" and "id_value_unserialize n = Inl e"
  shows "\<exists>e'. subscription_manager_new env fs w = Inl (BadName e')"
proof -
  have "e \<in> set (name_errors (listed_names (subscription_db env) fs))" using assms by (force simp: name_errors_def)
  then show ?thesis
    by (cases "name_errors (listed_names (subscription_db env) fs)") (auto simp: subscription_manager_new_def started_db)
qed

end
