(* ===== verification/Health_Rollup.thy ===== *)
theory Health_Rollup
  imports Rest_Example "HOL-Library.Option_ord"
begin

text \<open>
  Visiting the resources below a resource (\<open>accept\<close> of the handlers) and the rolled up health of
  a resource, which every answer about a resource carries (\<open>status_helpers.hpp\<close>): the worst health
  of the resource and of everything that can be reached from it over parents and links.
\<close>

subsection \<open>Health\<close>

fun health_rank :: "health \<Rightarrow> nat" where
  "health_rank Health_OK = 0"
| "health_rank Health_Warning = 1"
| "health_rank Health_Critical = 2"

instantiation health :: linorder
begin

definition less_eq_health :: "health \<Rightarrow> health \<Rightarrow> bool" where
  "less_eq_health a b \<longleftrightarrow> health_rank a \<le> health_rank b"

definition less_health :: "health \<Rightarrow> health \<Rightarrow> bool" where
  "less_health a b \<longleftrightarrow> health_rank a < health_rank b"

instance
proof
  fix x y z :: health
  show "x < y \<longleftrightarrow> x \<le> y \<and> \<not> y \<le> x" "x \<le> x" "\<lbrakk>x \<le> y; y \<le> z\<rbrakk> \<Longrightarrow> x \<le> z" "x \<le> y \<or> y \<le> x"
    by (auto simp: less_eq_health_def less_health_def)
  show "\<lbrakk>x \<le> y; y \<le> x\<rbrakk> \<Longrightarrow> x = y"
    by (cases x; cases y) (auto simp: less_eq_health_def)
qed

end

subsection \<open>The children a handler leads a visitor to\<close>

definition links_of :: "('n, 'p, 'w) rest_state \<Rightarrow> string \<Rightarrow> uuid \<Rightarrow> uuid list" where
  "links_of s name parent = m2m_get_children (rest_links s name) parent"

definition strong_parents :: "(component \<times> component) list" where
  "strong_parents =
     [(''Drive'', ''Chassis''), (''Endpoint'', ''Fabric''), (''PcieFunction'', ''PcieDevice''), (''Port'', ''Switch''),
      (''StorageService'', ''Manager''), (''Volume'', ''StorageService'')]"

text \<open>Under a parent it does not expect, the handler of drives ends the whole visit.\<close>

definition drive_weak_children :: "('n, 'p, 'w) rest_state \<Rightarrow> component \<Rightarrow> uuid \<Rightarrow> uuid list option" where
  "drive_weak_children s parent_component parent =
     (if parent_component = ''StorageSubsystem'' then Some (links_of s ''storage_subsystem_drive'' parent)
      else if parent_component = ''StorageService'' then Some (links_of s ''storage_service_drive'' parent)
      else None)"

definition pcie_function_weak_children :: "('n, 'p, 'w) rest_state \<Rightarrow> component \<Rightarrow> uuid \<Rightarrow> uuid list option" where
  "pcie_function_weak_children s parent_component parent =
     (if parent_component = ''Drive'' then Some (links_of s ''drive_function'' parent)
      else if parent_component = ''Processor'' then Some (links_of s ''processor_function'' parent)
      else Some [])"

definition accept_children :: "('n, 'p, 'w) rest_state \<Rightarrow> component \<Rightarrow> component \<Rightarrow> uuid \<Rightarrow> uuid list option" where
  "accept_children s h parent_component parent =
     (if map_of strong_parents h \<in> {None, Some parent_component} then Some (child_keys h parent s)
      else if h = ''Drive'' then drive_weak_children s parent_component parent
      else if h = ''PcieFunction'' then pcie_function_weak_children s parent_component parent
      else if h = ''Endpoint'' then Some (links_of s ''zone_endpoint'' parent)
      else if h = ''Port'' then Some (links_of s ''endpoint_port'' parent)
      else if h = ''StorageService'' then Some (links_of s ''system_storage_service'' parent)
      else Some (links_of s ''storage_pool_volume'' parent))"

subsection \<open>Visiting\<close>

text \<open>A visitor gets a resource and its kind, and tells whether to go on.\<close>

type_synonym ('n, 'p, 'v) visit = "'v \<Rightarrow> ('n, 'p) rest_resource \<Rightarrow> component \<Rightarrow> bool \<times> 'v"
type_synonym ('v, 'a) visiting = "('v \<times> uuid set, rest_exception, 'a) eff"

text \<open>A loop that ends with the first \<open>false\<close>.\<close>

primrec eall :: "('x \<Rightarrow> ('s, 'e, bool) eff) \<Rightarrow> 'x list \<Rightarrow> ('s, 'e, bool) eff" where
  "eall body [] = eret True"
| "eall body (x # xs) = ebind (body x) (\<lambda>b. if b then eall body xs else eret False)"

definition visited_handler :: "component \<Rightarrow> ('v, component) visiting" where
  "visited_handler c = (if c \<in> set component_handlers then eret c else ethrow (InvalidValue c))"

definition visit_entry :: "('n, 'p, 'v) visit \<Rightarrow> ('n, 'p, 'w) rest_state \<Rightarrow> component \<Rightarrow> uuid \<Rightarrow> ('v, bool) visiting" where
  "visit_entry vis s h u = (\<lambda>(v, visited).
     case find (any_uuid_matches u) (m_manager_data (rest_tables s (handler_model h))) of
       None \<Rightarrow> (Inl (ModelError (InvalidUuid EntryNotFound u)), (v, visited))
     | Some r \<Rightarrow> (case vis v r (handler_component h) of (b, v') \<Rightarrow> (Inr b, (v', visited))))"

definition do_accept_recursively ::
    "(component \<Rightarrow> uuid \<Rightarrow> ('v, bool) visiting) \<Rightarrow> ('n, 'p, 'w) rest_state \<Rightarrow> component \<Rightarrow> uuid \<Rightarrow> component \<Rightarrow> ('v, bool) visiting" where
  "do_accept_recursively accept_child s h parent parent_component =
     (case accept_children s h parent_component parent of None \<Rightarrow> eret False | Some children \<Rightarrow> eall (accept_child h) children)"

primrec do_accept :: "nat \<Rightarrow> ('n, 'p, 'v) visit \<Rightarrow> ('n, 'p, 'w) rest_state \<Rightarrow> component \<Rightarrow> uuid \<Rightarrow> ('v, bool) visiting" where
  "do_accept 0 vis s = (\<lambda>h u. ethrow RecursionLimit)"
| "do_accept (Suc n) vis s = (\<lambda>h u.
     ebind (eget (\<lambda>(v, visited). u \<in> visited)) (\<lambda>known.
     if known then eret True
     else ebind (visit_entry vis s h u) (\<lambda>go_on.
          if \<not> go_on then eret False
          else eseq (emodify (\<lambda>(v, visited). (v, insert u visited)))
                 (eall (\<lambda>c. ebind (visited_handler c) (\<lambda>h'.
                            do_accept_recursively (do_accept n vis s) s h' u (handler_component h)))
                   (rest_subs s h)))))"

definition accept :: "nat \<Rightarrow> ('n, 'p, 'v) visit \<Rightarrow> ('n, 'p, 'w) rest_state \<Rightarrow> component \<Rightarrow> uuid \<Rightarrow> 'v \<Rightarrow> rest_exception + 'v" where
  "accept depth vis s h u v =
     (case do_accept depth vis s h u (v, {}) of (Inl e, _) \<Rightarrow> Inl e | (Inr _, (v', _)) \<Rightarrow> Inr v')"

subsection \<open>The rolled up health\<close>

record rollup =
  my_uuid :: uuid
  my_health :: "health option"
  worst_children_health :: "health option"
  component_filter :: component

definition rollup_visit :: "('n, 'p, rollup) visit" where
  "rollup_visit v r c =
     (if component_filter v = ''None'' \<or> c = component_filter v
      then (if my_uuid v = get_uuid r
            then (status_health (m_status r) \<noteq> None, v\<lparr> my_health := status_health (m_status r) \<rparr>)
            else (True, if status_health (m_status r) \<noteq> None
                        then v\<lparr> worst_children_health := max (worst_children_health v) (status_health (m_status r)) \<rparr>
                        else v))
      else (True, v))"

definition rollup_result :: "rollup \<Rightarrow> health option" where
  "rollup_result v =
     (if my_health v \<noteq> None \<and> worst_children_health v \<noteq> None then max (worst_children_health v) (my_health v)
      else if my_health v \<noteq> None then my_health v
      else worst_children_health v)"

definition health_rollup :: "nat \<Rightarrow> ('n, 'p, 'w) rest_state \<Rightarrow> component \<Rightarrow> uuid \<Rightarrow> component \<Rightarrow> rest_exception + health option" where
  "health_rollup depth s c u filter_component =
     (if c \<notin> set component_handlers then Inl (InvalidValue c)
      else sbind (accept depth rollup_visit s c u
                    \<lparr> my_uuid = u, my_health = None, worst_children_health = None, component_filter = filter_component \<rparr>)
             (\<lambda>v. Inr (rollup_result v)))"

lemma rollup_result_max: "rollup_result v = max (worst_children_health v) (my_health v)"
  by (cases "my_health v"; cases "worst_children_health v") (auto simp: rollup_result_def max_def)

subsection \<open>What a visitor reaches\<close>

definition found :: "('n, 'p, 'w) rest_state \<Rightarrow> component \<Rightarrow> uuid \<Rightarrow> ('n, 'p) rest_resource option" where
  "found s h u = find (any_uuid_matches u) (m_manager_data (rest_tables s (handler_model h)))"

inductive reachable :: "('n, 'p, 'w) rest_state \<Rightarrow> component \<Rightarrow> uuid \<Rightarrow> component \<Rightarrow> uuid \<Rightarrow> bool" for s h u where
  start: "reachable s h u h u"
| step: "\<lbrakk>reachable s h u c v; c' \<in> set (rest_subs s c);
    accept_children s c' (handler_component c) v = Some ws; w \<in> set ws\<rbrakk> \<Longrightarrow> reachable s h u c' w"

text \<open>
  A visit that went to its end has visited a list of resources, each once, in such a way that the children
  of every visited resource are visited as well.
\<close>

type_synonym ('n, 'p) visit_log = "(component \<times> uuid \<times> ('n, 'p) rest_resource) list"

fun visits :: "('n, 'p, 'v) visit \<Rightarrow> ('n, 'p) visit_log \<Rightarrow> 'v \<Rightarrow> 'v \<Rightarrow> bool" where
  "visits vis [] v v' \<longleftrightarrow> v' = v"
| "visits vis ((c, u, r) # l) v v' \<longleftrightarrow> fst (vis v r (handler_component c)) \<and> visits vis l (snd (vis v r (handler_component c))) v'"

abbreviation uuids :: "('n, 'p) visit_log \<Rightarrow> uuid list" where
  "uuids l \<equiv> map (\<lambda>(c, u, r). u) l"

definition covered :: "('n, 'p, 'w) rest_state \<Rightarrow> uuid set \<Rightarrow> component \<Rightarrow> uuid \<Rightarrow> bool" where
  "covered s V c u \<longleftrightarrow> (\<forall>c' ws w. c' \<in> set (rest_subs s c) \<longrightarrow> accept_children s c' (handler_component c) u = Some ws \<longrightarrow> w \<in> set ws \<longrightarrow> w \<in> V)"

definition traced ::
    "('n, 'p, 'v) visit \<Rightarrow> ('n, 'p, 'w) rest_state \<Rightarrow> (component \<Rightarrow> uuid \<Rightarrow> bool) \<Rightarrow> 'v \<times> uuid set \<Rightarrow> 'v \<times> uuid set \<Rightarrow> bool" where
  "traced vis s R x y \<longleftrightarrow>
     (\<exists>l. visits vis l (fst x) (fst y) \<and> snd y = snd x \<union> set (uuids l) \<and> distinct (uuids l) \<and> set (uuids l) \<inter> snd x = {}
        \<and> (\<forall>(c, u, r) \<in> set l. R c u \<and> found s c u = Some r \<and> covered s (snd y) c u))"

lemma visits_append: "\<lbrakk>visits vis l v x; visits vis l' x v'\<rbrakk> \<Longrightarrow> visits vis (l @ l') v v'"
  by (induction vis l v x rule: visits.induct) auto

lemma covered_mono: "\<lbrakk>covered s V c u; V \<subseteq> V'\<rbrakk> \<Longrightarrow> covered s V' c u"
  unfolding covered_def by blast

lemma traced_refl: "traced vis s R x x"
  unfolding traced_def by (rule exI[of _ "[]"]) simp

lemma traced_grows: "traced vis s R x y \<Longrightarrow> snd x \<subseteq> snd y"
  unfolding traced_def by auto

lemma traced_trans:
  assumes "traced vis s R x y" "traced vis s R y z"
  shows "traced vis s R x z"
proof -
  obtain l where l: "visits vis l (fst x) (fst y)" "snd y = snd x \<union> set (uuids l)" "distinct (uuids l)" "set (uuids l) \<inter> snd x = {}"
    "\<forall>(c, u, r) \<in> set l. R c u \<and> found s c u = Some r \<and> covered s (snd y) c u"
    using assms(1) unfolding traced_def by blast
  obtain k where k: "visits vis k (fst y) (fst z)" "snd z = snd y \<union> set (uuids k)" "distinct (uuids k)" "set (uuids k) \<inter> snd y = {}"
    "\<forall>(c, u, r) \<in> set k. R c u \<and> found s c u = Some r \<and> covered s (snd z) c u"
    using assms(2) unfolding traced_def by blast
  have "\<forall>(c, u, r) \<in> set l. R c u \<and> found s c u = Some r \<and> covered s (snd z) c u"
    using l(5) covered_mono[of s "snd y" _ _ "snd z"] k(2) by (auto split: prod.splits)
  with k(5) have "\<forall>(c, u, r) \<in> set (l @ k). R c u \<and> found s c u = Some r \<and> covered s (snd z) c u" by auto
  moreover have "snd z = snd x \<union> set (uuids (l @ k))" using l(2) k(2) by auto
  moreover have "distinct (uuids (l @ k))" "set (uuids (l @ k)) \<inter> snd x = {}"
    using l(2,3,4) k(3,4) unfolding map_append distinct_append set_append by blast+
  ultimately show ?thesis
    using visits_append[OF l(1) k(1)] unfolding traced_def by blast
qed

lemma eall_True:
  assumes "eall body xs s = (Inr True, s')"
    and "\<And>x s s'. \<lbrakk>x \<in> set xs; body x s = (Inr True, s')\<rbrakk> \<Longrightarrow> Q s s' \<and> P x s'"
    and "\<And>s. Q s s" "\<And>s t u. \<lbrakk>Q s t; Q t u\<rbrakk> \<Longrightarrow> Q s u" "\<And>x s s'. \<lbrakk>P x s; Q s s'\<rbrakk> \<Longrightarrow> P x s'"
  shows "Q s s' \<and> (\<forall>x \<in> set xs. P x s')"
  using assms(1,2)
proof (induction xs arbitrary: s)
  case (Cons x xs)
  obtain t where t: "body x s = (Inr True, t)" "eall body xs t = (Inr True, s')"
    using Cons.prems(1) by (auto elim!: ebind_InrE split: if_splits)
  have "Q s t" "P x t" using Cons.prems(2)[OF _ t(1)] by auto
  moreover have "Q t s' \<and> (\<forall>x \<in> set xs. P x s')" by (rule Cons.IH[OF t(2)]) (use Cons.prems(2) in auto)
  ultimately show ?case using assms(4,5) by (metis set_ConsD)
qed (simp add: assms(3))

lemma do_accept_traced:
  assumes "do_accept n vis s h u x = (Inr True, y)" and "R h u"
    and "\<And>c v c' ws w. \<lbrakk>R c v; c' \<in> set (rest_subs s c); accept_children s c' (handler_component c) v = Some ws; w \<in> set ws\<rbrakk> \<Longrightarrow> R c' w"
  shows "traced vis s R x y \<and> u \<in> snd y"
  using assms(1,2)
proof (induction n arbitrary: h u x y)
  case (Suc n)
  obtain v V where x: "x = (v, V)" by (cases x)
  show ?case
  proof (cases "u \<in> V")
    case True
    with Suc.prems(1) x show ?thesis by (auto simp: eff_simps traced_refl)
  next
    case False
    obtain r v' where r: "found s h u = Some r" "vis v r (handler_component h) = (True, v')"
      and all: "eall (\<lambda>c. ebind (visited_handler c) (\<lambda>h'. do_accept_recursively (do_accept n vis s) s h' u (handler_component h)))
                 (rest_subs s h) (v', insert u V) = (Inr True, y)"
      using Suc.prems(1) False unfolding x
      by (auto simp: eff_simps visit_entry_def found_def split: option.splits prod.splits if_splits)
    have steps: "traced vis s R (v', insert u V) y
      \<and> (\<forall>c \<in> set (rest_subs s h). \<forall>ws. accept_children s c (handler_component h) u = Some ws \<longrightarrow> set ws \<subseteq> snd y)"
    proof (rule eall_True[OF all])
      fix c a b
      assume c: "c \<in> set (rest_subs s h)"
        and run: "ebind (visited_handler c) (\<lambda>h'. do_accept_recursively (do_accept n vis s) s h' u (handler_component h)) a = (Inr True, b)"
      then obtain ws where ws: "accept_children s c (handler_component h) u = Some ws" "eall (do_accept n vis s c) ws a = (Inr True, b)"
        by (auto simp: eff_simps visited_handler_def do_accept_recursively_def split: if_splits option.splits)
      have "traced vis s R a b \<and> (\<forall>w \<in> set ws. w \<in> snd b)"
        by (rule eall_True[OF ws(2)])
          (use Suc.IH assms(3)[OF Suc.prems(2) c ws(1)] in \<open>auto intro: traced_refl traced_trans dest: traced_grows\<close>)
      with ws(1) show "traced vis s R a b \<and> (\<forall>ws. accept_children s c (handler_component h) u = Some ws \<longrightarrow> set ws \<subseteq> snd b)" by auto
    qed (auto intro: traced_refl traced_trans dest: traced_grows)
    from conjunct1[OF this] obtain l where l: "visits vis l v' (fst y)" "snd y = insert u V \<union> set (uuids l)" "distinct (uuids l)" "set (uuids l) \<inter> insert u V = {}"
      "\<forall>(c, u, r) \<in> set l. R c u \<and> found s c u = Some r \<and> covered s (snd y) c u"
      unfolding traced_def fst_conv snd_conv by blast
    moreover have "covered s (snd y) h u" using steps unfolding covered_def by blast
    ultimately show ?thesis
      using r Suc.prems(2) False x unfolding traced_def by (intro conjI exI[of _ "(h, u, r) # l"]) auto
  qed
qed simp

subsection \<open>The visit ends\<close>

text \<open>
  What the code relies on: the kinds met below have handlers, everything that can be reached
  is in its table under the identifier that leads to it, and no drives are met below a parent that has none.
\<close>

definition no_dangling :: "('n, 'p, 'w) rest_state \<Rightarrow> component \<Rightarrow> uuid \<Rightarrow> bool" where
  "no_dangling s h u \<longleftrightarrow>
     (\<forall>c v. reachable s h u c v \<longrightarrow>
        c \<in> set component_handlers \<and> (\<exists>r. found s c v = Some r \<and> get_uuid r = v)
        \<and> (\<forall>c' \<in> set (rest_subs s c). c' \<in> set component_handlers \<and> accept_children s c' (handler_component c) v \<noteq> None))"

lemma eall_returns:
  assumes "\<And>x s. \<lbrakk>x \<in> set xs; I s\<rbrakk> \<Longrightarrow> \<exists>s'. body x s = (Inr True, s') \<and> I s'" and "I s"
  shows "\<exists>s'. eall body xs s = (Inr True, s') \<and> I s'"
  using assms
proof (induction xs arbitrary: s)
  case (Cons x xs)
  obtain t where "body x s = (Inr True, t)" "I t" using Cons.prems by (metis list.set_intros(1))
  moreover then obtain s' where "eall body xs t = (Inr True, s')" "I s'" using Cons.IH Cons.prems(1) by (metis list.set_intros(2))
  ultimately show ?case by (simp add: eff_simps)
qed simp

lemma do_accept_returns:
  assumes ok: "no_dangling s h0 u0"
    and go_on: "\<And>v c w r. \<lbrakk>J v; reachable s h0 u0 c w; found s c w = Some r\<rbrakk>
      \<Longrightarrow> fst (vis v r (handler_component c)) \<and> J (snd (vis v r (handler_component c)))"
    and U: "finite U" "\<And>c w. reachable s h0 u0 c w \<Longrightarrow> w \<in> U"
  shows "\<lbrakk>reachable s h0 u0 h u; J (fst x); card (U - snd x) < n\<rbrakk>
    \<Longrightarrow> \<exists>y. do_accept n vis s h u x = (Inr True, y) \<and> J (fst y) \<and> snd x \<subseteq> snd y"
proof (induction n arbitrary: h u x)
  case (Suc n)
  obtain v V where x: "x = (v, V)" by (cases x)
  show ?case
  proof (cases "u \<in> V")
    case False
    obtain r where r: "found s h u = Some r" using ok Suc.prems(1) unfolding no_dangling_def by blast
    obtain v' where v': "vis v r (handler_component h) = (True, v')" "J v'"
      using go_on[OF _ Suc.prems(1) r, of v] Suc.prems(2) x by (cases "vis v r (handler_component h)") auto
    let ?body = "\<lambda>c. ebind (visited_handler c) (\<lambda>h'. do_accept_recursively (do_accept n vis s) s h' u (handler_component h))"
    let ?I = "\<lambda>y. J (fst y) \<and> insert u V \<subseteq> snd y"
    have small: "card (U - W) < n" if "insert u V \<subseteq> W" for W
    proof -
      have "U - W \<subseteq> U - insert u V" using that by blast
      moreover have "U - insert u V \<subset> U - V" using U(2)[OF Suc.prems(1)] False by blast
      ultimately have "card (U - W) < card (U - V)" using U(1) by (meson finite_Diff le_less_trans card_mono psubset_card_mono)
      with Suc.prems(3) x show ?thesis by simp
    qed
    have "\<exists>y. eall ?body (rest_subs s h) (v', insert u V) = (Inr True, y) \<and> ?I y"
    proof (rule eall_returns)
      fix c a
      assume c: "c \<in> set (rest_subs s h)" and a: "?I a"
      obtain ws where ws: "accept_children s c (handler_component h) u = Some ws" and "c \<in> set component_handlers"
        using ok Suc.prems(1) c unfolding no_dangling_def by blast
      have "\<exists>b. eall (do_accept n vis s c) ws a = (Inr True, b) \<and> ?I b"
      proof (rule eall_returns[where I = ?I, OF _ a])
        fix w b
        assume "w \<in> set ws" "?I b"
        with Suc.IH[OF reachable.step[OF Suc.prems(1) c ws], of w b] small[of "snd b"]
        show "\<exists>y. do_accept n vis s c w b = (Inr True, y) \<and> ?I y" by blast
      qed
      with ws \<open>c \<in> set component_handlers\<close> show "\<exists>b. ?body c a = (Inr True, b) \<and> ?I b"
        by (simp add: eff_simps visited_handler_def do_accept_recursively_def)
    qed (use v' in simp)
    then obtain y where "eall ?body (rest_subs s h) (v', insert u V) = (Inr True, y)" "?I y" by blast
    with False r v' x show ?thesis by (simp add: eff_simps visit_entry_def found_def)
  qed (use Suc.prems(2) x in \<open>simp add: eff_simps\<close>)
qed simp

lemma reachable_finite:
  assumes "no_dangling s h u"
  shows "finite {w. \<exists>c. reachable s h u c w}"
proof (rule finite_subset)
  show "{w. \<exists>c. reachable s h u c w} \<subseteq> (\<Union>c \<in> set component_handlers. get_uuid ` set (m_manager_data (rest_tables s (handler_model c))))"
  proof
    fix w
    assume "w \<in> {w. \<exists>c. reachable s h u c w}"
    then obtain c r where c: "c \<in> set component_handlers" "found s c w = Some r" "get_uuid r = w"
      using assms unfolding no_dangling_def by blast
    have "r \<in> set (m_manager_data (rest_tables s (handler_model c)))" using c(2) unfolding found_def by (auto simp: find_Some_iff)
    with c show "w \<in> (\<Union>c \<in> set component_handlers. get_uuid ` set (m_manager_data (rest_tables s (handler_model c))))" by blast
  qed
qed simp

subsection \<open>The rolled up health is the worst one\<close>

abbreviation health_of :: "('n, 'p) rest_resource \<Rightarrow> health option" where
  "health_of r \<equiv> status_health (m_status r)"

lemma visits_rollup:
  assumes "visits rollup_visit l v v'" and "component_filter v = ''None''" and "distinct (map (\<lambda>(c, u, r). get_uuid r) l)"
    and "my_health v \<noteq> None \<longrightarrow> my_uuid v \<notin> (\<lambda>(c, u, r). get_uuid r) ` set l"
  shows "rollup_result v' = fold max (map (\<lambda>(c, u, r). health_of r) l) (rollup_result v)"
  using assms
proof (induction l arbitrary: v)
  case (Cons p l)
  obtain c u r where p: "p = (c, u, r)" by (cases p)
  let ?x = "snd (rollup_visit v r (handler_component c))"
  have "rollup_result v' = fold max (map (\<lambda>(c, u, r). health_of r) l) (rollup_result ?x)"
    by (rule Cons.IH) (use Cons.prems in \<open>auto simp: p rollup_visit_def image_iff split: if_splits\<close>)
  moreover have "rollup_result ?x = max (health_of r) (rollup_result v)"
    using Cons.prems(2,4) unfolding rollup_result_max
    by (cases "health_of r") (auto simp: p rollup_visit_def max.left_commute max.commute max.assoc max_def)
  ultimately show ?case by (simp add: p)
qed simp

lemma fold_max_Max: "fold max xs (x :: 'a :: linorder) = Max (insert x (set xs))"
  by (metis Max.set_eq_fold list.simps(15))

lemma log_complete:
  assumes "V = set (uuids l)" "u \<in> V" "\<forall>(c', w, r) \<in> set l. reachable s c u c' w \<and> found s c' w = Some r \<and> covered s V c' w"
    and one_kind: "\<forall>c' c'' v. reachable s c u c' v \<longrightarrow> reachable s c u c'' v \<longrightarrow> c' = c''"
  shows "(c', w, r) \<in> set l \<longleftrightarrow> reachable s c u c' w \<and> found s c' w = Some r"
proof
  have logged: "\<exists>r. (c', v, r) \<in> set l" if "v \<in> V" "reachable s c u c' v" for c' v
  proof -
    have "v \<in> (\<lambda>(c, u, r). u) ` set l" using that(1) assms(1) by simp
    then obtain p where "v = (\<lambda>(c, u, r). u) p" "p \<in> set l" by (rule imageE)
    then obtain c'' r where "(c'', v, r) \<in> set l" by (cases p) auto
    moreover then have "reachable s c u c'' v" using assms(3) by auto
    ultimately show ?thesis using one_kind that(2) by blast
  qed
  have all: "reachable s c u c' v \<Longrightarrow> v \<in> V" for c' v
  proof (induction rule: reachable.induct)
    case (step c1 v c2 ws w)
    obtain r where "(c1, v, r) \<in> set l" using logged step.hyps(1) step.IH by blast
    then have "covered s V c1 v" using assms(3) by auto
    with step.hyps show ?case unfolding covered_def by blast
  qed (rule assms(2))
  show "reachable s c u c' w \<and> found s c' w = Some r \<Longrightarrow> (c', w, r) \<in> set l"
    using all logged assms(3) by fastforce
qed (use assms(3) in auto)

text \<open>
  C3: The rolled up health of a resource is the worst health among the resource and all resources
  that can be reached from it over parents and links, where an unknown health counts as the
  best; if the health of the resource itself is unknown, so is the rolled up one. The visit
  ends, also when the links form a cycle: a recursion deeper than the number of resources
  reached does not happen.
\<close>

theorem health_rollup_is_worst:
  assumes ok: "no_dangling s c u" and one_kind: "\<forall>c' c'' v. reachable s c u c' v \<longrightarrow> reachable s c u c'' v \<longrightarrow> c' = c''"
    and depth: "card {v. \<exists>c'. reachable s c u c' v} < depth"
    and own: "found s c u = Some e"
  shows "health_rollup depth s c u ''None'' =
     Inr (if health_of e = None then None else Max {health_of r | c' v r. reachable s c u c' v \<and> found s c' v = Some r})"
proof -
  let ?start = "\<lparr> my_uuid = u, my_health = None, worst_children_health = None, component_filter = ''None'' \<rparr>"
  have uuid: "get_uuid r = v" if "reachable s c u c' v" "found s c' v = Some r" for c' v r
    using ok that unfolding no_dangling_def by force
  have c: "c \<in> set component_handlers" using ok reachable.start unfolding no_dangling_def by blast
  show ?thesis
  proof (cases "health_of e = None")
    case True
    obtain n where n: "depth = Suc n" using depth by (cases depth) auto
    have "do_accept depth rollup_visit s c u (?start, {}) = (Inr False, (?start, {}))"
      using True own uuid[OF reachable.start own] unfolding n
      by (simp add: eff_simps visit_entry_def found_def rollup_visit_def)
    with True c show ?thesis by (simp add: health_rollup_def accept_def sbind_def rollup_result_def)
  next
    case False
    let ?U = "{v. \<exists>c'. reachable s c u c' v}"
    have "\<exists>y. do_accept depth rollup_visit s c u (?start, {}) = (Inr True, y) \<and> my_uuid (fst y) = u \<and> snd (?start, {}) \<subseteq> snd y"
    proof (rule do_accept_returns[where J = "\<lambda>v :: rollup. my_uuid v = u" and U = ?U, OF ok])
      fix v :: rollup and c' w r
      assume found: "my_uuid v = u" "reachable s c u c' w" "found s c' w = Some r"
      have "r = e" if "get_uuid r = u" using that found uuid[of c' w r] one_kind reachable.start[of s c u] own by force
      then show "fst (rollup_visit v r (handler_component c')) \<and> my_uuid (snd (rollup_visit v r (handler_component c'))) = u"
        using found(1) False unfolding rollup_visit_def by auto
    qed (use depth reachable_finite[OF ok] in \<open>auto intro: reachable.start\<close>)
    then obtain v' V' where run: "do_accept depth rollup_visit s c u (?start, {}) = (Inr True, (v', V'))" by auto
    then have "traced rollup_visit s (reachable s c u) (?start, {}) (v', V') \<and> u \<in> snd (v', V')"
      by (rule do_accept_traced) (auto intro: reachable.intros)
    then obtain l where l: "visits rollup_visit l ?start v'" "V' = set (uuids l)" "distinct (uuids l)" "u \<in> V'"
      "\<forall>(c', w, r) \<in> set l. reachable s c u c' w \<and> found s c' w = Some r \<and> covered s V' c' w"
      unfolding traced_def fst_conv snd_conv Un_empty_left by blast
    have log: "(c', w, r) \<in> set l \<longleftrightarrow> reachable s c u c' w \<and> found s c' w = Some r" for c' w r
      by (rule log_complete[OF l(2,4,5) one_kind])
    have same: "map (\<lambda>(c, u, r). get_uuid r) l = uuids l" using l(5) uuid by (auto intro!: map_cong)
    have "rollup_result v' = fold max (map (\<lambda>(c, u, r). health_of r) l) (rollup_result ?start)"
      by (rule visits_rollup[OF l(1)]) (simp_all only: same l(3), simp_all)
    also have "\<dots> = Max (insert None ((\<lambda>(c, u, r). health_of r) ` set l))" by (simp add: fold_max_Max rollup_result_def)
    also have "\<dots> = Max ((\<lambda>(c, u, r). health_of r) ` set l)"
      using log[of c u e] own reachable.start[of s c u] by (subst Max_insert) auto
    also have "(\<lambda>(c, u, r). health_of r) ` set l = {health_of r | c' v r. reachable s c u c' v \<and> found s c' v = Some r}"
      using log by force
    finally show ?thesis using run c False by (auto simp: health_rollup_def accept_def sbind_def)
  qed
qed

text \<open>A chassis in order with a critical drive.\<close>

definition ailing_resource :: "uuid \<Rightarrow> component \<Rightarrow> uuid \<Rightarrow> health \<Rightarrow> (nat, unit) rest_resource" where
  "ailing_resource u parent_type parent h =
     (sample_resource u parent_type parent 1 [])\<lparr> m_status := \<lparr> status_state = State_Enabled, status_health = Some h \<rparr> \<rparr>"

definition ailing :: "(nat, unit, nat) rest_state" where
  "ailing = sample_state
     (\<lambda>c. if c = ''Chassis'' then sample_table [ailing_resource ''c'' ''Manager'' ''m'' Health_OK]
          else if c = ''Drive'' then sample_table [ailing_resource ''d'' ''Chassis'' ''c'' Health_Critical]
          else sample_table [])
     (\<lambda>h. if h = ''Chassis'' then [''Drive''] else [])"

lemma ailing_below: "accept_children ailing ''Drive'' (handler_component ''Chassis'') v = Some (if v = ''c'' then [''d''] else [])"
  by (simp add: accept_children_def strong_parents_def handler_component_def handler_model_def child_keys_def get_keys_by_parent_def
      ailing_def ailing_resource_def sample_state_def sample_table_def sample_resource_def get_uuid_def)

lemma ailing_subs: "rest_subs ailing h = (if h = ''Chassis'' then [''Drive''] else [])"
  by (simp add: ailing_def sample_state_def)

lemma ailing_reachable: "reachable ailing ''Chassis'' ''c'' c v \<longleftrightarrow> (c, v) \<in> {(''Chassis'', ''c''), (''Drive'', ''d'')}"
proof
  show "reachable ailing ''Chassis'' ''c'' c v \<Longrightarrow> (c, v) \<in> {(''Chassis'', ''c''), (''Drive'', ''d'')}"
    by (induction rule: reachable.induct) (auto simp: ailing_subs ailing_below split: if_splits)
  have "reachable ailing ''Chassis'' ''c'' ''Drive'' ''d''"
    by (rule reachable.step[OF reachable.start, where ws = "[''d'']"]) (simp_all add: ailing_subs ailing_below)
  then show "(c, v) \<in> {(''Chassis'', ''c''), (''Drive'', ''d'')} \<Longrightarrow> reachable ailing ''Chassis'' ''c'' c v"
    by (auto intro: reachable.start)
qed

lemma ailing_found:
  "found ailing ''Chassis'' ''c'' = Some (ailing_resource ''c'' ''Manager'' ''m'' Health_OK)"
  "found ailing ''Drive'' ''d'' = Some (ailing_resource ''d'' ''Chassis'' ''c'' Health_Critical)"
  by (simp_all add: found_def handler_model_def ailing_def ailing_resource_def sample_state_def sample_table_def sample_resource_def
      any_uuid_matches_def)

lemma health_of_ailing: "health_of (ailing_resource u t p h) = Some h" "get_uuid (ailing_resource u t p h) = u"
  by (simp_all add: ailing_resource_def sample_resource_def get_uuid_def)

theorem health_rollup_is_worst_witness: "health_rollup 3 ailing ''Chassis'' ''c'' ''None'' = Inr (Some Health_Critical)"
proof -
  have "no_dangling ailing ''Chassis'' ''c''"
    unfolding no_dangling_def
  proof (intro allI impI)
    fix c v
    assume "reachable ailing ''Chassis'' ''c'' c v"
    then consider "c = ''Chassis''" "v = ''c''" | "c = ''Drive''" "v = ''d''" unfolding ailing_reachable by blast
    then show "c \<in> set component_handlers \<and> (\<exists>r. found ailing c v = Some r \<and> get_uuid r = v)
        \<and> (\<forall>c' \<in> set (rest_subs ailing c). c' \<in> set component_handlers \<and> accept_children ailing c' (handler_component c) v \<noteq> None)"
      by cases (simp_all add: ailing_found health_of_ailing ailing_subs ailing_below component_handlers_def)
  qed
  moreover have "{v. \<exists>c. reachable ailing ''Chassis'' ''c'' c v} = {''c'', ''d''}" unfolding ailing_reachable by blast
  moreover have "{health_of r | c v r. reachable ailing ''Chassis'' ''c'' c v \<and> found ailing c v = Some r} = {Some Health_OK, Some Health_Critical}"
    (is "?healths = _")
  proof -
    have reached: "reachable ailing ''Chassis'' ''c'' ''Chassis'' ''c''" "reachable ailing ''Chassis'' ''c'' ''Drive'' ''d''"
      unfolding ailing_reachable by blast+
    have "health_of r \<in> ?healths" if "reachable ailing ''Chassis'' ''c'' c v" "found ailing c v = Some r" for c v r
      using that by blast
    from this[OF reached(1) ailing_found(1)] this[OF reached(2) ailing_found(2)]
    have "Some Health_OK \<in> ?healths" "Some Health_Critical \<in> ?healths" by (simp_all only: health_of_ailing)
    moreover have "?healths \<subseteq> {Some Health_OK, Some Health_Critical}"
    proof
      fix x
      assume "x \<in> ?healths"
      then obtain c v r where "x = health_of r" "reachable ailing ''Chassis'' ''c'' c v" "found ailing c v = Some r" by blast
      then show "x \<in> {Some Health_OK, Some Health_Critical}"
        unfolding ailing_reachable using ailing_found health_of_ailing(1) by auto
    qed
    ultimately show ?thesis by blast
  qed
  moreover have "Max {Some Health_OK, Some Health_Critical} = Some Health_Critical" by (simp add: max_def less_eq_health_def)
  ultimately show ?thesis
    using health_rollup_is_worst[of ailing "''Chassis''" "''c''" 3, OF _ _ _ ailing_found(1)]
    by (simp add: ailing_reachable health_of_ailing)
qed

end
