(* ===== verification/Spec2Isabelle.thy ===== *)
theory Spec2Isabelle
  imports Many_To_Many Generic_Manager State_Machine Db_Aggregate Port_Monitor Endpoint_Commands
    Handler_Failures Subscription_Store Health_Rollup
begin

text \<open>
  A verification development for PSME, the Pooled System Management Engine of Intel Rack
  Scale Design (\<open>src/PSME\<close>).

  \<^bold>\<open>The program.\<close> A rack is managed by agents, one per kind of hardware, and by a REST
  service. An agent keeps a model of its hardware in memory: one table per kind of resource
  (\<open>GenericManager\<close>) and one table of links per pair of kinds (\<open>ManyToManyManager\<close>). What has to
  survive a restart is written to files, one per attribute. Threads watch the hardware and
  drive state machines that change the model; commands arrive over JSON-RPC, are checked
  against the model and either act at once or start a task that a pool of threads runs
  later. The REST service mirrors the tables of all agents and gives entries the numbers that
  appear in its addresses: one handler per kind of resource reads a resource and everything
  below it from its agent, removes what the agent no longer reports and collects the events
  for subscribers; a thread polls the agents and passes their notifications to the handlers.
  The development follows this structure for the agent framework, for the PNC agent, which
  connects NVMe drives to hosts through a PCIe switch, and for the mirror of the REST service.

  \<^bold>\<open>The theories and what they model.\<close>

  \<^item> \<^theory_text>\<open>PSME_Prelude\<close>: machine words, code that changes a state and may throw (\<open>eff\<close>: an
    exception does not undo what was changed), vectors with positions, ordered sets.
  \<^item> \<^theory_text>\<open>Effect_Frame\<close>, \<^theory_text>\<open>Agent_Frame\<close>: the locale \<open>effect_frame\<close> of relations between the states
    before and after that compose, and \<open>agent_frame\<close> for agents with tasks. Interpreted for
    code that only reads, for the links of zones and for the links of ports.
  \<^item> \<^theory_text>\<open>Many_To_Many\<close>: \<open>many_to_many_manager.hpp\<close> and the synchronisation of links in
    \<open>generic_handler.hpp\<close>. A table is the sorted list \<open>std::set\<close> runs through; the loop of
    \<open>update_entry\<close> erases and inserts under its own iterator and is modelled with it.
  \<^item> \<^theory_text>\<open>Resource_Model\<close>, \<^theory_text>\<open>Generic_Manager\<close>: \<open>resource.cpp\<close>, \<open>task.cpp\<close> (the resource),
    \<open>hash.hpp\<close>, \<open>generic_manager.hpp\<close> and the registry of tables. The hash function and the
    JSON form of a resource are arguments.
  \<^item> \<^theory_text>\<open>State_Machine\<close>: the table-driven \<open>EnumStateMachine\<close> and the state machine of a blade
    controller (\<open>bmc_state_machine.hpp\<close>); guards and actions are functions on a world.
  \<^item> \<^theory_text>\<open>Cpp_Strings\<close>, \<^theory_text>\<open>File_Database\<close>, \<^theory_text>\<open>Db_Aggregate\<close>: \<open>common/database\<close>, \<open>persistent_attributes\<close>
    and \<open>database_entity.hpp\<close>. A directory is a list of files with content, mode bits and
    change time; an aggregate is the string-encoded content of one file.
  \<^item> \<^theory_text>\<open>Task_Action\<close>, \<^theory_text>\<open>Task_Creator\<close>, \<^theory_text>\<open>Thread_Pool\<close>: \<open>agent-framework/action\<close> and
    \<open>agent-framework/threading\<close>. A task is a record of effects; the pool is a step relation in
    which taking a job and running a job are steps.
  \<^item> \<^theory_text>\<open>Pnc_Model\<close>: the resources and the whole state of the PNC agent, \<open>endpoint.cpp\<close>, \<open>zone.cpp\<close>
    and \<open>model_tool.cpp\<close>. The hardware is a component of the state of any type.
  \<^item> \<^theory_text>\<open>Mrpc\<close>, \<^theory_text>\<open>Gas_Tool\<close>: the registers of the switch and its commands byte by byte
    (\<open>agent/pnc/src/gas\<close>) over an interface that reads and writes memory, and \<open>gas_tool.cpp\<close>, which
    binds ports to partitions.
  \<^item> \<^theory_text>\<open>Port_Worker\<close>, \<^theory_text>\<open>Port_State\<close>, \<^theory_text>\<open>Port_Monitor\<close>: the state machine of a downstream port, the
    work it does, and the loop that reads presence and bindings and feeds the machines.
  \<^item> \<^theory_text>\<open>Zone_Commands\<close>, \<^theory_text>\<open>Zone_Membership\<close>, \<^theory_text>\<open>Endpoint_Commands\<close>: the commands of the PNC agent that
    change zones and endpoints, with the tasks they start.
  \<^item> \<^theory_text>\<open>Id_Policy\<close>: the numbers of REST resources (\<open>id_policy.hpp\<close>, \<open>id_memoizer.cpp\<close>), kept in the file
    database and in memory. The locale \<open>numbering\<close> states what is expected of the numbers.
  \<^item> \<^theory_text>\<open>Rest_Model\<close>: the kinds of resources and their handlers (\<open>handler_manager.cpp\<close>), the state of the
    REST service (\<open>rest_state\<close>), what it calls outside (\<open>rest_env\<close>: the agents, the clocks), the events
    without duplicates (\<open>event_array.cpp\<close>) and the addresses of resources (\<open>endpoints/utils.cpp\<close>).
  \<^item> \<^theory_text>\<open>Handler_Removal\<close>, \<^theory_text>\<open>Handler_Fetch\<close>, \<^theory_text>\<open>Handler_Entry\<close>: \<open>generic_handler.hpp\<close> and the handlers that
    override parts of it, the calls to agents (\<open>json_agent.hpp\<close>), and the entry points: polling,
    loading and the events of an agent. A handler is named by its kind; an override is a case
    of the function it overrides.
  \<^item> \<^theory_text>\<open>Rest_Example\<close>: a small service on which the properties are evaluated.
  \<^item> \<^theory_text>\<open>Handler_Subtree\<close>, \<^theory_text>\<open>Handler_Polling\<close>, \<^theory_text>\<open>Handler_Failures\<close>: what removals, readings and failures do
    to the tables of the REST service.
  \<^item> \<^theory_text>\<open>Rest_Watcher\<close>: the thread of \<open>watcher.cpp\<close> with its periodic tasks; the locale \<open>run_queue\<close> is what the
    loop needs of the vector of tasks.
  \<^item> \<^theory_text>\<open>Subscription_Model\<close>: subscriptions and their JSON form (\<open>subscription.cpp\<close>).
  \<^item> \<^theory_text>\<open>Event_Service\<close>: the manager of subscriptions (\<open>subscription_manager.cpp\<close>), the queue of arrays
    of events (\<open>event_array_queue.hpp\<close>, interpreted as another \<open>run_queue\<close>) and the thread that sends them
    (\<open>event_service.cpp\<close>).
  \<^item> \<^theory_text>\<open>Subscription_Store\<close>: the start of the manager, which loads the subscriptions from the file database.
  \<^item> \<^theory_text>\<open>Health_Rollup\<close>: visiting the resources below a resource (\<open>accept\<close> of the handlers) and the rolled
    up health (\<open>status_helpers.hpp\<close>).

  \<^bold>\<open>What is shown.\<close> For tables: the invariant of the REST mirror and that polling finds exactly
  the entries an agent no longer reports; outcomes of every branch; translation of numbers
  and back; synchronisation and renaming of links. For stored attributes: that a restart loads
  what the running process had, round trips of every string form, and the values for which
  they fail. For state machines: determinism of the tables, agreement of the state with the
  hardware in every reachable state and the paths on which it is lost. For the switch:
  termination of command polling, exactness of the bridge search, and which endpoints can
  never be bound. For tasks: a task that is run reaches an end with a result, a forced stop
  of the pool ends and never overtakes a waiting job, and a deleted task ends the process. For
  zones and endpoints: which requests are accepted; that an endpoint is in one zone at most
  and a port in one endpoint at most when commands and their tasks do not overlap, and that
  overlapping ones break the first of these; and that the endpoint of a removed device cannot
  be deleted. For the REST service: live resources never share a number and when numbers
  change; a removal takes away exactly a resource and everything below it, and the removal of
  an agent exactly what is the agent's; after a reading, of the agent's resources below a
  resource only those it lists are left, and the tables stay in order; what a lost connection
  leaves; the ways in which children lose their parent and stay for ever; that the thread
  keeps its tasks in order, and reaches the notifications when the tasks leave it time and never
  when they do not; that
  a subscriber gets only events it asked for, that sending ends, that a new subscription
  always gets a number and that subscriptions survive a restart; and that the rolled up health is the worst one of all resources that can be reached.

  \<^bold>\<open>Bounds.\<close> The loops that poll the switch have no bound in the code. The model bounds them by
  \<open>poll_limit\<close> of the interface and returns \<open>OutOfFuel\<close>, which no handler catches, when the bound is
  reached; \<open>Mrpc\<close> shows that a device which answers after finitely many rounds is waited for with
  every larger bound. All other loops are structural or have a termination proof. An access
  outside an array is \<open>UndefinedBehaviour\<close>, which no handler catches either. Counters and
  registers are words of their width; positions and sizes of containers are natural numbers. The
  recursions of the REST handlers follow the resources an agent reports and have no bound in
  the code; the model bounds them by \<open>env_depth\<close> and ends with \<open>RecursionLimit\<close>, which no handler catches.
  For the visit of resources, a depth above the number of resources reached is shown to be
  enough. The search for the number of a subscription gets one round more than there are
  subscriptions, which is shown to be enough. The search for a number gets \<open>search_rounds\<close>, which is shown to be enough unless every number is in use.

  \<^bold>\<open>What is simplified.\<close> Mutexes are left out: an operation that holds its mutex throughout is
  one step, and a task is one step of its thread. Where code appends the text of an inner
  exception to a message, the model keeps the fixed part, except for the results of tasks.
  Fields of resources that no modelled operation reads are left out. Logging and assertions
  are left out. The order in which the unordered map of handlers runs, the order in which the tables
  were registered, and whether an agent is in another transaction are arguments. Where the
  language leaves a choice, the model makes one: a signed overflow wraps around, an unordered
  map is iterated in the order of insertion, and \<open>std::sort\<close> keeps the order of equal elements. The waiting
  of the queue of events is seen at its last look at the head.

  \<^bold>\<open>Not modelled.\<close> The agents for compute, chassis, network, storage and rack management beyond the
  parts they share, since they consist of calls to IPMI, netlink, LVM, SPDK and sysfs; the
  discovery of the PNC agent, a parameter of the port state machine; the HTTP side of the REST
  service, which turns Redfish documents into requests, and its HTTP client; serialisation of resources to JSON;
  vendored libraries (UUID, MD5, optional, base64) and generated metadata; the parts of the
  repository in other languages.

  \<^bold>\<open>What could follow.\<close> Recovery of zones and endpoints from their databases after a restart, erasing
  a drive (\<open>set_component_attributes\<close>, \<open>drive erase\<close>),
  and the registration of agents.
\<close>

end
